(* ===== verification/Go_Prelude.thy ===== *)
theory Go_Prelude
  imports Main "HOL-Library.Word"
begin

text \<open>
  What every component shares: the Go vocabulary of the model.

  \<^item> Byte slices are lists of 8-bit words, Go strings are Isabelle strings (a \<open>char\<close> is
    exactly one byte), and the conversions \<open>[]byte(s)\<close> and \<open>string(b)\<close> are
    \<open>bytes_of\<close> and \<open>str_of\<close>. A nil slice and an empty one are both the empty list.
  \<^item> An \<open>error\<close> is a value of \<open>go_error\<close>, a nil error is \<open>None\<close>; a function that returns
    \<open>(T, error)\<close> returns \<open>go_error + T\<close>. \<open>fmt.Errorf\<close> with \<open>%w\<close> keeps its cause under
    \<open>Wrap\<close> (the other arguments of the format are not interpolated) and \<open>errors.Is\<close> is
    \<open>errors_is\<close>.
  \<^item> A nil dereference is the error \<open>Panic\<close>: it unwinds through the frames, so \<open>errorf\<close>
    passes it on unwrapped.
  \<^item> A \<open>context.Context\<close> is the stream of answers of its \<open>Err\<close> method, one per poll.
  \<^item> \<open>crypto/rand\<close> is a source that answers the \<open>k\<close>-th read of an operation.
  \<^item> \<open>strings.TrimSpace\<close> is \<open>trim_space\<close>, over the UTF-8 encodings of Unicode's white space.
\<close>

named_theorems go_defs \<open>definitions of the Go primitives that proofs unfold\<close>

section \<open>Bytes and strings\<close>

type_synonym byte = "8 word"
type_synonym bytes = "byte list"

definition byte_of_char :: "char \<Rightarrow> byte" where
  "byte_of_char c = of_nat (of_char c)"

definition char_of_byte :: "byte \<Rightarrow> char" where
  "char_of_byte b = char_of (unat b)"

definition bytes_of :: "string \<Rightarrow> bytes" where
  "bytes_of s = map byte_of_char s"

definition str_of :: "bytes \<Rightarrow> string" where
  "str_of b = map char_of_byte b"

lemma char_of_byte_of_char [simp]: "char_of_byte (byte_of_char c) = c"
proof -
  have "(of_char c :: nat) < 256" by simp
  then show ?thesis by (simp add: char_of_byte_def byte_of_char_def unat_of_nat)
qed

lemma byte_of_char_of_byte [simp]: "byte_of_char (char_of_byte b) = b"
proof -
  have "unat b < 256" using unsigned_less [of b] by simp
  then show ?thesis by (simp add: char_of_byte_def byte_of_char_def)
qed

lemma str_of_bytes_of [simp]: "str_of (bytes_of s) = s"
  by (simp add: str_of_def bytes_of_def comp_def)

lemma bytes_of_str_of [simp]: "bytes_of (str_of b) = b"
  by (simp add: str_of_def bytes_of_def comp_def)

lemma bytes_of_inject [simp]: "bytes_of s = bytes_of t \<longleftrightarrow> s = t"
  by (metis str_of_bytes_of)

lemma length_bytes_of [simp]: "length (bytes_of s) = length s"
  by (simp add: bytes_of_def)

lemma length_str_of [simp]: "length (str_of b) = length b"
  by (simp add: str_of_def)

lemma bytes_of_append: "bytes_of (s @ t) = bytes_of s @ bytes_of t"
  by (simp add: bytes_of_def)

lemma bytes_of_eq_Nil [simp]: "bytes_of s = [] \<longleftrightarrow> s = []"
  by (simp add: bytes_of_def)

section \<open>Errors\<close>

datatype sentinel =
    \<comment> \<open>package \<open>lib/store\<close>\<close>
    StoreErrNotFound | StoreErrExists | StoreErrInvalidAlias | StoreErrInvalidRecord
  | ErrNotInitialized | ErrLocked | ErrIntegrity | ErrConflict | ErrUnsupportedFormat
    \<comment> \<open>package \<open>pkg/secrets\<close>\<close>
  | SecretsErrInvalidAlias | SecretsErrExists | SecretsErrNotFound | SecretsErrNoDevice
    \<comment> \<open>package \<open>lib/hmacsecret\<close>\<close>
  | ErrInvalidArgument | ErrNoDevice | ErrNoSelectableDevice | ErrDeviceSearch | ErrOpenDevice
  | ErrNotFIDO2 | ErrEmptyHMACSecret | ErrUnsupportedBuild
    \<comment> \<open>package \<open>internal/webauthn\<close>\<close>
  | WebErrUnavailable | WebErrUnsupported | WebErrInvalidInput | WebErrNotFound
  | WebErrUserCanceled | WebErrPRFDisabled
    \<comment> \<open>sentinels of packages outside the repository\<close>
  | PebbleErrNotFound | SqlErrNoRows

datatype go_error =
    Sentinel sentinel
  | Errorf string                \<comment> \<open>\<open>errors.New\<close>, or \<open>fmt.Errorf\<close> without \<open>%w\<close>\<close>
  | Wrap string go_error         \<comment> \<open>\<open>fmt.Errorf\<close> with one \<open>%w\<close>\<close>
  | Foreign string               \<comment> \<open>an error made outside the repository\<close>
  | Panic string                 \<comment> \<open>not an error value: the call does not return\<close>

primrec errors_is :: "go_error \<Rightarrow> sentinel \<Rightarrow> bool" where
  "errors_is (Sentinel s) t = (s = t)"
| "errors_is (Errorf m) t = False"
| "errors_is (Wrap m e) t = errors_is e t"
| "errors_is (Foreign m) t = False"
| "errors_is (Panic m) t = False"

primrec is_panic :: "go_error \<Rightarrow> bool" where
  "is_panic (Sentinel s) = False"
| "is_panic (Errorf m) = False"
| "is_panic (Wrap m e) = False"
| "is_panic (Foreign m) = False"
| "is_panic (Panic m) = True"

text \<open>\<open>fmt.Errorf(m, err)\<close> where \<open>m\<close> has \<open>%w\<close> for \<open>err\<close>.\<close>

definition errorf :: "string \<Rightarrow> go_error \<Rightarrow> go_error" where
  "errorf m e = (if is_panic e then e else Wrap m e)"

text \<open>\<open>fmt.Errorf(m, s, err)\<close> where \<open>m\<close> has \<open>%w\<close> for the sentinel and \<open>%v\<close> for
  \<open>err\<close>: the chain of \<open>err\<close> is lost.\<close>

definition errorf_v :: "string \<Rightarrow> sentinel \<Rightarrow> go_error \<Rightarrow> go_error" where
  "errorf_v m s e = (if is_panic e then e else Wrap m (Sentinel s))"

lemma errors_is_errorf [simp]: "errors_is (errorf m e) t = errors_is e t"
  by (cases e) (auto simp: errorf_def)

lemma errors_is_errorf_v: "\<not> is_panic e \<Longrightarrow> errors_is (errorf_v m s e) t = (s = t)"
  by (simp add: errorf_v_def)

lemma is_panic_errorf [simp]: "is_panic (errorf m e) = is_panic e"
  by (simp add: errorf_def)

lemma is_panic_errorf_v [simp]: "is_panic (errorf_v m s e) = is_panic e"
  by (simp add: errorf_v_def)

lemma errors_is_unique: "errors_is e s \<Longrightarrow> errors_is e t \<Longrightarrow> s = t"
  by (induction e) simp_all

lemma errors_is_not_panic: "errors_is e t \<Longrightarrow> \<not> is_panic e"
  by (cases e) auto

definition nil_deref :: go_error where
  "nil_deref = Panic ''runtime error: invalid memory address or nil pointer dereference''"

lemma is_panic_nil_deref [simp]: "is_panic nil_deref"
  by (simp add: nil_deref_def)

lemma errors_is_nil_deref [simp]: "\<not> errors_is nil_deref t"
  by (simp add: nil_deref_def)

section \<open>Contexts and randomness\<close>

datatype ctx_error = Canceled | DeadlineExceeded

type_synonym go_context = "nat \<Rightarrow> ctx_error option"

primrec ctx_error_text :: "ctx_error \<Rightarrow> string" where
  "ctx_error_text Canceled = ''context canceled''"
| "ctx_error_text DeadlineExceeded = ''context deadline exceeded''"

definition ctx_Err :: "go_context \<Rightarrow> go_error option" where
  "ctx_Err ctx = map_option (\<lambda>e. Foreign (ctx_error_text e)) (ctx 0)"

lemma ctx_Err_foreign: "ctx_Err ctx = Some e \<Longrightarrow> \<not> errors_is e t"
  by (auto simp: ctx_Err_def)

lemma ctx_Err_flip [simp]: "Some e = ctx_Err ctx \<longleftrightarrow> ctx_Err ctx = Some e"
  by auto

lemma ctx_Err_not_panic: "ctx_Err ctx = Some e \<Longrightarrow> \<not> is_panic e"
  by (auto simp: ctx_Err_def)

definition later :: "go_context \<Rightarrow> go_context" where
  "later ctx = (\<lambda>k. ctx (Suc k))"

definition background :: go_context where
  "background = (\<lambda>_. None)"

lemma ctx_Err_background [simp]: "ctx_Err background = None"
  by (simp add: ctx_Err_def background_def)

lemma later_background [simp]: "later background = background"
  by (simp add: later_def background_def)

record rng =
  rng_err :: "nat \<Rightarrow> string option"
  rng_byte :: "nat \<Rightarrow> nat \<Rightarrow> byte"

text \<open>\<open>rand.Read\<close> into a buffer of \<open>n\<close> bytes, the \<open>k\<close>-th read of the operation.\<close>

definition rand_Read :: "rng \<Rightarrow> nat \<Rightarrow> nat \<Rightarrow> go_error + bytes" where
  "rand_Read g k n =
     (case rng_err g k of Some m \<Rightarrow> Inl (Foreign m) | None \<Rightarrow> Inr (map (rng_byte g k) [0..<n]))"

lemma rand_Read_foreign: "rand_Read g k n = Inl e \<Longrightarrow> \<not> errors_is e t"
  by (auto simp: rand_Read_def split: option.splits)

text \<open>The source as the next operation sees it, after \<open>n\<close> reads.\<close>

definition rng_from :: "rng \<Rightarrow> nat \<Rightarrow> rng" where
  "rng_from g n = \<lparr>rng_err = (\<lambda>k. rng_err g (n + k)), rng_byte = (\<lambda>k. rng_byte g (n + k))\<rparr>"

lemma rand_Read_length: "rand_Read g k n = Inr b \<Longrightarrow> length b = n"
  by (auto simp: rand_Read_def split: option.splits)

section \<open>strings.TrimSpace\<close>

text \<open>The UTF-8 encodings of the code points for which \<open>unicode.IsSpace\<close> holds.\<close>

definition ws_seqs :: "string list" where
  "ws_seqs =
     [[CHR 0x09], [CHR 0x0A], [CHR 0x0B], [CHR 0x0C], [CHR 0x0D], [CHR 0x20],
      [CHR 0xC2, CHR 0x85], [CHR 0xC2, CHR 0xA0], [CHR 0xE1, CHR 0x9A, CHR 0x80],
      [CHR 0xE2, CHR 0x80, CHR 0x80], [CHR 0xE2, CHR 0x80, CHR 0x81],
      [CHR 0xE2, CHR 0x80, CHR 0x82], [CHR 0xE2, CHR 0x80, CHR 0x83],
      [CHR 0xE2, CHR 0x80, CHR 0x84], [CHR 0xE2, CHR 0x80, CHR 0x85],
      [CHR 0xE2, CHR 0x80, CHR 0x86], [CHR 0xE2, CHR 0x80, CHR 0x87],
      [CHR 0xE2, CHR 0x80, CHR 0x88], [CHR 0xE2, CHR 0x80, CHR 0x89],
      [CHR 0xE2, CHR 0x80, CHR 0x8A], [CHR 0xE2, CHR 0x80, CHR 0xA8],
      [CHR 0xE2, CHR 0x80, CHR 0xA9], [CHR 0xE2, CHR 0x80, CHR 0xAF],
      [CHR 0xE2, CHR 0x81, CHR 0x9F], [CHR 0xE3, CHR 0x80, CHR 0x80]]"

fun strip_prefix :: "string \<Rightarrow> string \<Rightarrow> string option" where
  "strip_prefix [] s = Some s"
| "strip_prefix (p # ps) [] = None"
| "strip_prefix (p # ps) (c # s) = (if p = c then strip_prefix ps s else None)"

fun strip_any :: "string list \<Rightarrow> string \<Rightarrow> string option" where
  "strip_any [] s = None"
| "strip_any (p # ps) s =
     (case strip_prefix p s of Some t \<Rightarrow> Some t | None \<Rightarrow> strip_any ps s)"

lemma strip_prefix_Some [simp]: "strip_prefix p s = Some t \<longleftrightarrow> s = p @ t"
  by (induction p s rule: strip_prefix.induct) auto

lemma strip_any_Some: "strip_any ps s = Some t \<Longrightarrow> \<exists>p \<in> set ps. s = p @ t"
  by (induction ps) (auto split: option.splits)

lemma strip_any_None: "strip_any ps s = None \<longleftrightarrow> (\<forall>p \<in> set ps. \<forall>t. s \<noteq> p @ t)"
  by (induction ps) (auto split: option.splits, metis not_None_eq strip_prefix_Some)

text \<open>Remove sequences of \<open>ps\<close> from the front as long as there is one.\<close>

function trim_seqs :: "string list \<Rightarrow> string \<Rightarrow> string" where
  "trim_seqs ps s =
     (case strip_any ps s of
        None \<Rightarrow> s
      | Some t \<Rightarrow> if length t < length s then trim_seqs ps t else s)"
  by pat_completeness auto
termination
  by (relation "measure (\<lambda>(ps, s). length s)") auto

declare trim_seqs.simps [simp del]

definition trim_left :: "string \<Rightarrow> string" where
  "trim_left s = trim_seqs ws_seqs s"

definition trim_right :: "string \<Rightarrow> string" where
  "trim_right s = rev (trim_seqs (map rev ws_seqs) (rev s))"

definition trim_space :: "string \<Rightarrow> string" where
  "trim_space s = trim_right (trim_left s)"

lemma trim_seqs_unfold:
  "trim_seqs ps s = s \<or> (\<exists>t. strip_any ps s = Some t \<and> length t < length s \<and>
     trim_seqs ps s = trim_seqs ps t)"
  by (subst (1 2) trim_seqs.simps) (auto split: option.splits)

lemma trim_seqs_suffix: "\<exists>p. s = p @ trim_seqs ps s"
proof (induction "length s" arbitrary: s rule: less_induct)
  case less
  show ?case
  proof (cases "trim_seqs ps s = s")
    case True
    then show ?thesis by simp
  next
    case False
    then obtain t where t: "strip_any ps s = Some t" "length t < length s"
        "trim_seqs ps s = trim_seqs ps t"
      using trim_seqs_unfold by blast
    from t(2) obtain p where "t = p @ trim_seqs ps t" using less by blast
    moreover obtain q where "s = q @ t" using strip_any_Some [OF t(1)] by blast
    ultimately show ?thesis using t(3) by (metis append_assoc)
  qed
qed

lemma trim_seqs_stop: "[] \<notin> set ps \<Longrightarrow> strip_any ps (trim_seqs ps s) = None"
proof (induction ps s rule: trim_seqs.induct)
  case (1 ps s)
  show ?case
  proof (cases "strip_any ps s")
    case None
    then show ?thesis by (subst trim_seqs.simps) simp
  next
    case (Some t)
    with "1.prems" have "length t < length s"
      by (fastforce dest!: strip_any_Some)
    with Some 1 show ?thesis by (subst trim_seqs.simps) simp
  qed
qed

lemma trim_seqs_fix: "strip_any ps s = None \<Longrightarrow> trim_seqs ps s = s"
  by (subst trim_seqs.simps) simp

lemma ws_seqs_nonempty [simp]: "[] \<notin> set ws_seqs" "[] \<notin> set (map rev ws_seqs)"
  by (auto simp: ws_seqs_def)

lemma trim_right_prefix: "\<exists>q. s = trim_right s @ q"
  using trim_seqs_suffix [of "rev s" "map rev ws_seqs"]
  by (metis rev_append rev_rev_ident trim_right_def)

lemma trim_right_idem: "trim_right (trim_right s) = trim_right s"
  by (simp add: trim_right_def trim_seqs_fix trim_seqs_stop del: set_map)

lemma trim_left_right: "trim_left (trim_right (trim_left s)) = trim_right (trim_left s)"
proof -
  obtain q where q: "trim_left s = trim_right (trim_left s) @ q"
    using trim_right_prefix by blast
  have "strip_any ws_seqs (trim_left s) = None"
    by (simp add: trim_left_def trim_seqs_stop)
  then have "strip_any ws_seqs (trim_right (trim_left s)) = None"
    using q by (metis append_assoc strip_any_None)
  then show ?thesis by (simp add: trim_left_def trim_seqs_fix)
qed

lemma trim_space_idem [simp]: "trim_space (trim_space s) = trim_space s"
  by (simp add: trim_space_def trim_left_right trim_right_idem)

lemma trim_space_Nil [simp]: "trim_space [] = []"
  by (code_simp)

end
