(* ===== verification/Go_Encoding.thy ===== *)
theory Go_Encoding
  imports Go_Prelude
begin

text \<open>
  The text encodings of Go's standard library that the program uses: decimal numbers
  (\<open>strconv\<close>), base64 in its standard padded and its raw URL form
  (\<open>encoding/base64\<close>) and hexadecimal (\<open>encoding/hex\<close>). Each decoder inverts its
  encoder.
\<close>

definition ord :: "char \<Rightarrow> nat" where
  "ord c = of_char c"

lemma ord_less [simp]: "ord c < 256"
  by (simp add: ord_def)

lemma ord_char_of [simp]: "n < 256 \<Longrightarrow> ord (char_of n) = n"
  by (simp add: ord_def)

lemma char_of_ord [simp]: "char_of (ord c) = c"
  by (simp add: ord_def)

lemma ord_inject: "ord c = ord d \<longleftrightarrow> c = d"
  by (metis char_of_ord)

lemma char_of_eq_ord: "n < 256 \<Longrightarrow> char_of n = c \<longleftrightarrow> n = ord c"
  by (metis char_of_ord ord_char_of)

section \<open>Decimal\<close>

definition digit :: "nat \<Rightarrow> char" where
  "digit n = char_of (48 + n)"

definition is_digit :: "char \<Rightarrow> bool" where
  "is_digit c \<longleftrightarrow> 48 \<le> ord c \<and> ord c \<le> 57"

fun dec :: "nat \<Rightarrow> string" where
  "dec n = (if n < 10 then [digit n] else dec (n div 10) @ [digit (n mod 10)])"

declare dec.simps [simp del]

definition nat_of_dec :: "string \<Rightarrow> nat" where
  "nat_of_dec s = foldl (\<lambda>a c. 10 * a + (ord c - 48)) 0 s"

text \<open>\<open>strconv.ParseUint(s, 10, bits)\<close>.\<close>

definition parse_uint :: "nat \<Rightarrow> string \<Rightarrow> nat option" where
  "parse_uint bits s =
     (if s \<noteq> [] \<and> list_all is_digit s \<and> nat_of_dec s < 2 ^ bits
      then Some (nat_of_dec s) else None)"

lemma ord_digit [simp]: "n < 10 \<Longrightarrow> ord (digit n) = 48 + n"
  by (simp add: digit_def)

lemma is_digit_digit [simp]: "n < 10 \<Longrightarrow> is_digit (digit n)"
  by (simp add: is_digit_def)

lemma dec_nonempty [simp]: "dec n \<noteq> []"
  by (subst dec.simps) simp

lemma list_all_digit_dec: "list_all is_digit (dec n)"
proof (induction n rule: dec.induct)
  case (1 n)
  then show ?case by (cases "n < 10") (simp_all add: dec.simps [of n])
qed

lemma nat_of_dec_dec [simp]: "nat_of_dec (dec n) = n"
proof (induction n rule: dec.induct)
  case (1 n)
  then show ?case by (cases "n < 10") (simp_all add: dec.simps [of n] nat_of_dec_def)
qed

lemma parse_uint_dec [simp]: "n < 2 ^ bits \<Longrightarrow> parse_uint bits (dec n) = Some n"
  by (simp add: parse_uint_def list_all_digit_dec)

lemma dec_head: "dec n = c # s \<Longrightarrow> c = CHR ''0'' \<Longrightarrow> s = []"
proof (induction n arbitrary: c s rule: dec.induct)
  case (1 n)
  show ?case
  proof (cases "n < 10")
    case True
    with "1.prems" show ?thesis by (simp add: dec.simps [of n])
  next
    case False
    obtain d t where d: "dec (n div 10) = d # t" by (meson dec_nonempty neq_Nil_conv)
    with False "1.prems" have "d = CHR ''0''" by (simp add: dec.simps [of n])
    with False d "1.IH" have "dec (n div 10) = [CHR ''0'']" by simp
    then have "n div 10 = nat_of_dec [CHR ''0'']" by (metis nat_of_dec_dec)
    then have "n div 10 = 0" by (simp add: nat_of_dec_def ord_def)
    with False show ?thesis by simp
  qed
qed

section \<open>Base64\<close>

definition b64_std :: string where
  "b64_std = ''ABCDEFGHIJKLMNOPQRSTUVWXYZabcdefghijklmnopqrstuvwxyz0123456789+/''"

definition b64_url :: string where
  "b64_url = ''ABCDEFGHIJKLMNOPQRSTUVWXYZabcdefghijklmnopqrstuvwxyz0123456789-_''"

fun index_of :: "'a list \<Rightarrow> 'a \<Rightarrow> nat option" where
  "index_of [] x = None"
| "index_of (y # ys) x = (if x = y then Some 0 else map_option Suc (index_of ys x))"

lemma index_of_nth: "distinct ys \<Longrightarrow> i < length ys \<Longrightarrow> index_of ys (ys ! i) = Some i"
proof (induction ys arbitrary: i)
  case Nil
  then show ?case by simp
next
  case (Cons y ys)
  then show ?case by (cases i) (auto simp: nth_mem)
qed

text \<open>Three bytes become four digits; \<open>pad\<close> is \<open>=\<close> for the padded form, nothing for the
  raw one.\<close>

fun b64_enc :: "string \<Rightarrow> string \<Rightarrow> nat list \<Rightarrow> string" where
  "b64_enc al pad [] = []"
| "b64_enc al pad [a] = [al ! (a div 4), al ! (a mod 4 * 16)] @ pad @ pad"
| "b64_enc al pad [a, b] =
     [al ! (a div 4), al ! (a mod 4 * 16 + b div 16), al ! (b mod 16 * 4)] @ pad"
| "b64_enc al pad (a # b # c # r) =
     [al ! (a div 4), al ! (a mod 4 * 16 + b div 16), al ! (b mod 16 * 4 + c div 64),
      al ! (c mod 64)] @ b64_enc al pad r"

definition b64_StdEncode :: "bytes \<Rightarrow> string" where
  "b64_StdEncode bs = b64_enc b64_std ''='' (map unat bs)"

definition b64_RawURLEncode :: "bytes \<Rightarrow> string" where
  "b64_RawURLEncode bs = b64_enc b64_url [] (map unat bs)"

text \<open>The decoder skips line breaks, wants the padding and ignores the spare low bits of the
  last digit, as the non-strict standard encoding does.\<close>

fun b64_quads :: "string \<Rightarrow> nat list option" where
  "b64_quads [] = Some []"
| "b64_quads (w # x # y # z # vs) =
     (case (index_of b64_std w, index_of b64_std x) of
        (Some p, Some q) \<Rightarrow>
          if y = CHR ''=''
          then (if z = CHR ''='' \<and> vs = [] then Some [p * 4 + q div 16] else None)
          else (case index_of b64_std y of
                  None \<Rightarrow> None
                | Some r \<Rightarrow>
                    if z = CHR ''=''
                    then (if vs = [] then Some [p * 4 + q div 16, q mod 16 * 16 + r div 4]
                          else None)
                    else (case index_of b64_std z of
                            None \<Rightarrow> None
                          | Some s \<Rightarrow>
                              map_option
                                (\<lambda>t. (p * 4 + q div 16) # (q mod 16 * 16 + r div 4) #
                                     (r mod 4 * 64 + s) # t)
                                (b64_quads vs)))
      | _ \<Rightarrow> None)"
| "b64_quads _ = None"

definition b64_StdDecode :: "string \<Rightarrow> bytes option" where
  "b64_StdDecode s =
     map_option (map of_nat)
       (b64_quads (filter (\<lambda>c. c \<noteq> CHR 0x0D \<and> c \<noteq> CHR 0x0A) s))"

lemma length_b64_std [simp]: "length b64_std = 64"
  by (simp add: b64_std_def)

lemma distinct_b64_std: "distinct b64_std"
  by code_simp

lemma index_of_b64 [simp]: "i < 64 \<Longrightarrow> index_of b64_std (b64_std ! i) = Some i"
  by (simp add: index_of_nth distinct_b64_std)

lemma b64_std_chars: "c \<in> set b64_std \<Longrightarrow> c \<noteq> CHR ''='' \<and> c \<noteq> CHR 0x0D \<and> c \<noteq> CHR 0x0A"
proof -
  have "list_all (\<lambda>c. c \<noteq> CHR ''='' \<and> c \<noteq> CHR 0x0D \<and> c \<noteq> CHR 0x0A) b64_std" by code_simp
  then show "c \<in> set b64_std \<Longrightarrow> ?thesis" by (simp add: list_all_iff)
qed

lemma b64_std_nth [simp]:
  assumes "i < 64"
  shows "b64_std ! i \<noteq> CHR ''=''" "b64_std ! i \<noteq> CHR 0x0D" "b64_std ! i \<noteq> CHR 0x0A"
  using b64_std_chars [of "b64_std ! i"] assms by simp_all

lemma div_bounds:
  fixes a :: nat
  assumes "a < 256"
  shows "a div 4 < 64" "a div 16 < 16" "a div 64 < 4"
  using assms by (simp_all add: less_mult_imp_div_less)

lemma b64_digits:
  fixes a b c :: nat
  shows "b < 256 \<Longrightarrow> a mod 4 * 16 + b div 16 < 64" "c < 256 \<Longrightarrow> b mod 16 * 4 + c div 64 < 64"
    "a mod 4 * 16 < 64" "b mod 16 * 4 < 64" "c mod 64 < 64"
proof -
  have m: "a mod 4 < 4" "b mod 16 < 16" "c mod 64 < 64" by simp_all
  show "b < 256 \<Longrightarrow> a mod 4 * 16 + b div 16 < 64" using m div_bounds(2) [of b] by linarith
  show "c < 256 \<Longrightarrow> b mod 16 * 4 + c div 64 < 64" using m div_bounds(3) [of c] by linarith
  show "a mod 4 * 16 < 64" "b mod 16 * 4 < 64" "c mod 64 < 64" using m by linarith+
qed

lemma b64_join:
  fixes a b c :: nat
  shows "b < 256 \<Longrightarrow> a div 4 * 4 + (a mod 4 * 16 + b div 16) div 16 = a"
    "b < 256 \<Longrightarrow> c < 256 \<Longrightarrow>
       (a mod 4 * 16 + b div 16) mod 16 * 16 + (b mod 16 * 4 + c div 64) div 4 = b"
    "b < 256 \<Longrightarrow> (a mod 4 * 16 + b div 16) mod 16 * 16 + b mod 16 * 4 div 4 = b"
    "a div 4 * 4 + a mod 4 * 16 div 16 = a"
    "c < 256 \<Longrightarrow> (b mod 16 * 4 + c div 64) mod 4 * 64 + c mod 64 = c"
  using div_bounds [of b] div_bounds [of c] by simp_all

lemma b64_quads_enc:
  "\<forall>x \<in> set ns. x < 256 \<Longrightarrow> b64_quads (b64_enc b64_std ''='' ns) = Some ns"
proof (induction b64_std "''=''" ns rule: b64_enc.induct)
  case 1
  then show ?case by simp
next
  case (2 a)
  then show ?case by (simp add: div_bounds b64_digits b64_join)
next
  case (3 a b)
  then show ?case by (simp add: div_bounds b64_digits b64_join)
next
  case (4 a b c r)
  then have p: "a < 256" "b < 256" "c < 256" by auto
  note q = p div_bounds b64_digits b64_join
  from 4 have IH: "b64_quads (b64_enc b64_std ''='' r) = Some r" by simp
  show ?case by (simp add: q IH)
qed

lemma b64_enc_no_break:
  "\<forall>x \<in> set ns. x < 256 \<Longrightarrow> c \<in> set (b64_enc b64_std ''='' ns) \<Longrightarrow>
     c \<noteq> CHR 0x0D \<and> c \<noteq> CHR 0x0A"
proof (induction b64_std "''=''" ns rule: b64_enc.induct)
  case 1
  then show ?case by simp
next
  case (2 a)
  then show ?case by (auto simp: div_bounds b64_digits)
next
  case (3 a b)
  then show ?case by (auto simp: div_bounds b64_digits)
next
  case (4 a b d r)
  then show ?case by (auto simp: div_bounds b64_digits)
qed

lemma b64_Std_roundtrip [simp]: "b64_StdDecode (b64_StdEncode bs) = Some bs"
proof -
  have r: "\<forall>x \<in> set (map unat bs). x < 256"
    using unsigned_less [where ?'b = 8 and ?'a = nat] by auto
  have "filter (\<lambda>c. c \<noteq> CHR 0x0D \<and> c \<noteq> CHR 0x0A) (b64_enc b64_std ''='' (map unat bs))
      = b64_enc b64_std ''='' (map unat bs)"
    using b64_enc_no_break [OF r] by (simp add: filter_id_conv)
  then show ?thesis
    using b64_quads_enc [OF r]
    by (simp add: b64_StdDecode_def b64_StdEncode_def comp_def)
qed

section \<open>Hexadecimal\<close>

definition hex_digit :: "nat \<Rightarrow> char" where
  "hex_digit n = ''0123456789abcdef'' ! n"

definition hex_val :: "char \<Rightarrow> nat option" where
  "hex_val c =
     (let n = ord c in
      if 48 \<le> n \<and> n \<le> 57 then Some (n - 48)
      else if 97 \<le> n \<and> n \<le> 102 then Some (n - 87)
      else if 65 \<le> n \<and> n \<le> 70 then Some (n - 55)
      else None)"

fun hex_EncodeToString :: "bytes \<Rightarrow> string" where
  "hex_EncodeToString [] = []"
| "hex_EncodeToString (b # bs) =
     hex_digit (unat b div 16) # hex_digit (unat b mod 16) # hex_EncodeToString bs"

fun hex_DecodeString :: "string \<Rightarrow> bytes option" where
  "hex_DecodeString [] = Some []"
| "hex_DecodeString [c] = None"
| "hex_DecodeString (c # d # s) =
     (case (hex_val c, hex_val d) of
        (Some h, Some l) \<Rightarrow> map_option (Cons (of_nat (16 * h + l))) (hex_DecodeString s)
      | _ \<Rightarrow> None)"

lemma hex_val_digit [simp]: "n < 16 \<Longrightarrow> hex_val (hex_digit n) = Some n"
proof -
  assume "n < 16"
  then have "n \<in> set [0..<16]" by simp
  moreover have "\<forall>n \<in> set [0..<16]. hex_val (hex_digit n) = Some n" by code_simp
  ultimately show ?thesis by blast
qed

lemma hex_roundtrip [simp]: "hex_DecodeString (hex_EncodeToString bs) = Some bs"
proof (induction bs)
  case Nil
  then show ?case by simp
next
  case (Cons b bs)
  have "unat b < 256" using unsigned_less [of b] by simp
  then have "unat b div 16 < 16" "unat b mod 16 < 16" by auto
  moreover have "16 * (unat b div 16) + unat b mod 16 = unat b" by simp
  ultimately show ?case using Cons by simp
qed

lemma hex_DecodeString_length: "hex_DecodeString s = Some bs \<Longrightarrow> length s = 2 * length bs"
  by (induction s arbitrary: bs rule: hex_DecodeString.induct)
     (auto split: option.splits)

end
