(* ===== verification/Go_Json.thy ===== *)
theory Go_Json
  imports Go_Encoding
begin

text \<open>
  The strings of \<open>encoding/json\<close> at the byte level: UTF-8 validity (\<open>utf8_len\<close>,
  \<open>valid_utf8\<close>, \<open>sanitize\<close>), the quoting of \<open>Marshal\<close> with its HTML escapes
  (\<open>quote_body\<close>) and the reading of a string literal (\<open>unquote\<close>). The lemma
  \<open>unquote_quote_body\<close> says that a string read back is the string written with every byte
  that is no part of a valid UTF-8 sequence replaced by U+FFFD.
\<close>

section \<open>UTF-8\<close>

definition is_cont :: "char \<Rightarrow> bool" where
  "is_cont c \<longleftrightarrow> 128 \<le> ord c \<and> ord c < 192"

text \<open>The length of the sequence a lead byte announces, 0 for a byte that cannot lead.\<close>

definition lead_size :: "char \<Rightarrow> nat" where
  "lead_size c =
     (let n = ord c in
      if n < 128 then 1 else if n < 194 then 0 else if n < 224 then 2
      else if n < 240 then 3 else if n < 245 then 4 else 0)"

text \<open>The tighter bounds on the second byte: no overlong forms, no surrogates, nothing past
  U+10FFFF.\<close>

definition second_ok :: "char \<Rightarrow> char \<Rightarrow> bool" where
  "second_ok c d \<longleftrightarrow>
     (ord c = 224 \<longrightarrow> 160 \<le> ord d) \<and> (ord c = 237 \<longrightarrow> ord d < 160) \<and>
     (ord c = 240 \<longrightarrow> 144 \<le> ord d) \<and> (ord c = 244 \<longrightarrow> ord d < 144)"

text \<open>The size of the valid sequence at the front, 0 when there is none
  (\<open>utf8.DecodeRune\<close> would return \<open>RuneError\<close> with size 1 or, at the end, 0).\<close>

fun utf8_len :: "string \<Rightarrow> nat" where
  "utf8_len [] = 0"
| "utf8_len (c # s) =
     (let k = lead_size c in
      if k \<le> 1 then k
      else if k \<le> Suc (length s) \<and> second_ok c (hd s) \<and> list_all is_cont (take (k - 1) s)
        then k
      else 0)"

declare utf8_len.simps(2) [simp del]

lemma utf8_len_le: "utf8_len s \<le> length s"
  by (cases s) (auto simp: utf8_len.simps Let_def)

lemma utf8_len_take:
  assumes "0 < utf8_len s"
  shows "utf8_len (take (utf8_len s) s @ t) = utf8_len s"
proof (cases s)
  case Nil
  with assms show ?thesis by simp
next
  case (Cons c u)
  define k where "k = lead_size c"
  show ?thesis
  proof (cases "k \<le> 1")
    case True
    with Cons assms have "utf8_len s = k" "k = 1"
      by (auto simp: utf8_len.simps k_def Let_def)
    with Cons show ?thesis by (simp add: utf8_len.simps k_def [symmetric])
  next
    case False
    with Cons assms
    have k: "utf8_len s = k" "k \<le> Suc (length u)" "second_ok c (hd u)"
        "list_all is_cont (take (k - 1) u)"
      by (auto simp: utf8_len.simps k_def Let_def split: if_splits)
    from False obtain j where j: "k = Suc (Suc j)"
      by (metis One_nat_def Suc_le_eq not_less_eq_eq not0_implies_Suc zero_le)
    from k j obtain d v where u: "u = d # v" by (cases u) auto
    from k j u Cons show ?thesis
      by (simp add: utf8_len.simps k_def [symmetric])
  qed
qed

lemma utf8_len_1: "utf8_len (c # s) = Suc 0 \<longleftrightarrow> ord c < 128"
  by (auto simp: utf8_len.simps lead_size_def Let_def)

lemma utf8_len_ascii [simp]: "ord c < 128 \<Longrightarrow> utf8_len (c # s) = Suc 0"
  by (simp add: utf8_len_1)

lemma utf8_len_lead: "utf8_len (c # s) \<noteq> 0 \<Longrightarrow> utf8_len (c # s) = lead_size c"
  by (auto simp: utf8_len.simps Let_def split: if_splits)

text \<open>What a string becomes on its way through \<open>Marshal\<close>: every byte outside a valid
  sequence is replaced by U+FFFD.\<close>

definition repl :: string where
  "repl = [CHR 0xEF, CHR 0xBF, CHR 0xBD]"

function sanitize :: "string \<Rightarrow> string" where
  "sanitize s =
     (if s = [] then []
      else if utf8_len s = 0 then repl @ sanitize (tl s)
      else take (utf8_len s) s @ sanitize (drop (utf8_len s) s))"
  by pat_completeness auto
termination
  by (relation "measure length") auto

declare sanitize.simps [simp del]

text \<open>\<open>utf8.ValidString\<close>.\<close>

function valid_utf8 :: "string \<Rightarrow> bool" where
  "valid_utf8 s =
     (if s = [] then True
      else if utf8_len s = 0 then False
      else valid_utf8 (drop (utf8_len s) s))"
  by pat_completeness auto
termination
  by (relation "measure length") auto

declare valid_utf8.simps [simp del]

lemma sanitize_Nil [simp]: "sanitize [] = []"
  by (subst sanitize.simps) simp

lemma sanitize_bad: "s \<noteq> [] \<Longrightarrow> utf8_len s = 0 \<Longrightarrow> sanitize s = repl @ sanitize (tl s)"
  by (subst sanitize.simps) simp

lemma sanitize_good:
  "0 < utf8_len s \<Longrightarrow> sanitize s = take (utf8_len s) s @ sanitize (drop (utf8_len s) s)"
  by (subst sanitize.simps) auto

lemma valid_utf8_Nil [simp]: "valid_utf8 []"
  by (subst valid_utf8.simps) simp

lemma valid_utf8_good: "0 < utf8_len s \<Longrightarrow> valid_utf8 s = valid_utf8 (drop (utf8_len s) s)"
  by (subst valid_utf8.simps) auto

lemma valid_utf8_pos: "valid_utf8 s \<Longrightarrow> s \<noteq> [] \<Longrightarrow> 0 < utf8_len s"
  by (subst (asm) valid_utf8.simps) (auto split: if_splits)

lemma utf8_induct [case_names Nil bad good]:
  assumes "P []"
    and "\<And>c t. utf8_len (c # t) = 0 \<Longrightarrow> P t \<Longrightarrow> P (c # t)"
    and "\<And>s. 0 < utf8_len s \<Longrightarrow> P (drop (utf8_len s) s) \<Longrightarrow> P s"
  shows "P s"
proof (induction s rule: measure_induct_rule [of length])
  case (less s)
  show ?case
  proof (cases "s = [] \<or> utf8_len s \<noteq> 0")
    case True
    then show ?thesis
    proof (cases "s = []")
      case False
      with True have "length (drop (utf8_len s) s) < length s" by auto
      with less have "P (drop (utf8_len s) s)" by blast
      with False True assms(3) show ?thesis by blast
    qed (simp add: assms(1))
  next
    case False
    then obtain c t where s: "s = c # t" by (cases s) auto
    with less have "P t" by simp
    with s False assms(2) show ?thesis by simp
  qed
qed

lemma sanitize_valid [simp]: "valid_utf8 s \<Longrightarrow> sanitize s = s"
proof (induction s rule: utf8_induct)
  case (bad c t)
  then show ?case using valid_utf8_pos by fastforce
next
  case (good s)
  then have "sanitize (drop (utf8_len s) s) = drop (utf8_len s) s"
    by (simp add: valid_utf8_good)
  with good(1) show ?case by (simp add: sanitize_good)
qed simp

lemma valid_utf8_ascii: "\<forall>c \<in> set s. ord c < 128 \<Longrightarrow> valid_utf8 s"
proof (induction s)
  case (Cons c s)
  then have "utf8_len (c # s) = Suc 0" by simp
  with Cons show ?case by (subst valid_utf8_good) auto
qed simp

lemma valid_utf8_step:
  assumes "0 < utf8_len s" "valid_utf8 t"
  shows "valid_utf8 (take (utf8_len s) s @ t)"
proof -
  have "utf8_len (take (utf8_len s) s @ t) = utf8_len s" using assms(1) by (rule utf8_len_take)
  moreover have "length (take (utf8_len s) s) = utf8_len s" using utf8_len_le [of s] by simp
  ultimately show ?thesis using assms by (subst valid_utf8_good) simp_all
qed

lemma utf8_len_repl: "utf8_len (repl @ t) = 3"
  by (simp add: repl_def utf8_len.simps lead_size_def second_ok_def is_cont_def ord_def)

lemma valid_utf8_repl: "valid_utf8 t \<Longrightarrow> valid_utf8 (repl @ t)"
  by (subst valid_utf8_good) (simp_all add: utf8_len_repl, simp add: repl_def)

lemma valid_utf8_sanitize: "valid_utf8 (sanitize s)"
  by (induction s rule: utf8_induct)
     (simp_all add: sanitize_bad sanitize_good valid_utf8_step valid_utf8_repl)

lemma sanitize_idem [simp]: "sanitize (sanitize s) = sanitize s"
  by (simp add: valid_utf8_sanitize)

lemma sanitize_eq_iff: "sanitize s = s \<longleftrightarrow> valid_utf8 s"
  by (metis sanitize_valid valid_utf8_sanitize)

text \<open>\<open>utf8.EncodeRune\<close>; surrogates and values past U+10FFFF become U+FFFD.\<close>

definition enc_rune :: "nat \<Rightarrow> string" where
  "enc_rune r =
     (if r < 128 then [char_of r]
      else if r < 2048 then [char_of (192 + r div 64), char_of (128 + r mod 64)]
      else if 55296 \<le> r \<and> r < 57344 \<or> 1114112 \<le> r then repl
      else if r < 65536 then
        [char_of (224 + r div 4096), char_of (128 + r div 64 mod 64), char_of (128 + r mod 64)]
      else
        [char_of (240 + r div 262144), char_of (128 + r div 4096 mod 64),
         char_of (128 + r div 64 mod 64), char_of (128 + r mod 64)])"

section \<open>Strings\<close>

text \<open>The escape of one ASCII byte, with the HTML escapes of \<open>Marshal\<close>.\<close>

definition short_esc :: "char \<Rightarrow> char option" where
  "short_esc c =
     (if c = CHR 0x22 \<or> c = CHR 0x5C then Some c
      else if c = CHR 0x08 then Some (CHR ''b'')
      else if c = CHR 0x0C then Some (CHR ''f'')
      else if c = CHR 0x0A then Some (CHR ''n'')
      else if c = CHR 0x0D then Some (CHR ''r'')
      else if c = CHR 0x09 then Some (CHR ''t'')
      else None)"

definition esc_ascii :: "char \<Rightarrow> string" where
  "esc_ascii c =
     (case short_esc c of
        Some e \<Rightarrow> [CHR 0x5C, e]
      | None \<Rightarrow>
          if ord c < 32 \<or> c = CHR ''<'' \<or> c = CHR ''>'' \<or> c = CHR ''&''
          then [CHR 0x5C, CHR ''u'', CHR ''0'', CHR ''0'',
                hex_digit (ord c div 16), hex_digit (ord c mod 16)]
          else [c])"

definition line_sep :: string where
  "line_sep = [CHR 0xE2, CHR 0x80, CHR 0xA8]"

definition par_sep :: string where
  "par_sep = [CHR 0xE2, CHR 0x80, CHR 0xA9]"

function quote_body :: "string \<Rightarrow> string" where
  "quote_body s =
     (case s of
        [] \<Rightarrow> []
      | c # t \<Rightarrow>
          if utf8_len s = 0 then CHR 0x5C # ''ufffd'' @ quote_body t
          else if utf8_len s = 1 then esc_ascii c @ quote_body t
          else if take (utf8_len s) s = line_sep
            then CHR 0x5C # ''u2028'' @ quote_body (drop (utf8_len s) s)
          else if take (utf8_len s) s = par_sep
            then CHR 0x5C # ''u2029'' @ quote_body (drop (utf8_len s) s)
          else take (utf8_len s) s @ quote_body (drop (utf8_len s) s))"
  by pat_completeness auto
termination
  by (relation "measure length") auto

declare quote_body.simps [simp del]

definition json_quote :: "string \<Rightarrow> string" where
  "json_quote s = CHR 0x22 # quote_body s @ [CHR 0x22]"

text \<open>The four hexadecimal digits of a \<open>\u\<close> escape.\<close>

definition getu4 :: "string \<Rightarrow> nat option" where
  "getu4 s =
     (case s of
        a # b # c # d # _ \<Rightarrow>
          (case (hex_val a, hex_val b, hex_val c, hex_val d) of
             (Some h, Some i, Some j, Some k) \<Rightarrow> Some (((h * 16 + i) * 16 + j) * 16 + k)
           | _ \<Rightarrow> None)
      | _ \<Rightarrow> None)"

text \<open>The low half of a surrogate pair, when \<open>s\<close> starts with its escape.\<close>

definition low_surrogate :: "string \<Rightarrow> nat option" where
  "low_surrogate s =
     (case s of
        a # b # t \<Rightarrow>
          if a = CHR 0x5C \<and> b = CHR ''u''
          then (case getu4 t of
                  Some r \<Rightarrow> if 56320 \<le> r \<and> r < 57344 then Some r else None
                | None \<Rightarrow> None)
          else None
      | _ \<Rightarrow> None)"

definition esc_char :: "char \<Rightarrow> char option" where
  "esc_char e =
     (if e = CHR 0x22 \<or> e = CHR 0x5C \<or> e = CHR ''/'' then Some e
      else if e = CHR ''b'' then Some (CHR 0x08)
      else if e = CHR ''f'' then Some (CHR 0x0C)
      else if e = CHR ''n'' then Some (CHR 0x0A)
      else if e = CHR ''r'' then Some (CHR 0x0D)
      else if e = CHR ''t'' then Some (CHR 0x09)
      else None)"

definition prepend :: "string \<Rightarrow> (string \<times> string) option \<Rightarrow> (string \<times> string) option" where
  "prepend p = map_option (\<lambda>(x, r). (p @ x, r))"

text \<open>Read a string literal after its opening quote: the string and the rest of the text.\<close>

function unquote :: "string \<Rightarrow> (string \<times> string) option" where
  "unquote s =
     (case s of
        [] \<Rightarrow> None
      | c # t \<Rightarrow>
          if c = CHR 0x22 then Some ([], t)
          else if c = CHR 0x5C then
            (case t of
               [] \<Rightarrow> None
             | e # u \<Rightarrow>
                 if e = CHR ''u'' then
                   (case getu4 u of
                      None \<Rightarrow> None
                    | Some r \<Rightarrow>
                        if 55296 \<le> r \<and> r < 56320
                        then (case low_surrogate (drop 4 u) of
                                Some l \<Rightarrow>
                                  prepend (enc_rune (65536 + (r - 55296) * 1024 + (l - 56320)))
                                    (unquote (drop 10 u))
                              | None \<Rightarrow> prepend repl (unquote (drop 4 u)))
                        else prepend (enc_rune r) (unquote (drop 4 u)))
                 else (case esc_char e of
                         None \<Rightarrow> None
                       | Some d \<Rightarrow> prepend [d] (unquote u)))
          else if ord c < 32 then None
          else if utf8_len s = 0 then prepend repl (unquote t)
          else prepend (take (utf8_len s) s) (unquote (drop (utf8_len s) s)))"
  by pat_completeness auto
termination
  by (relation "measure length") auto

declare unquote.simps [simp del]

lemma quote_body_Nil [simp]: "quote_body [] = []"
  by (subst quote_body.simps) simp

lemma quote_body_bad:
  "utf8_len (c # t) = 0 \<Longrightarrow> quote_body (c # t) = CHR 0x5C # ''ufffd'' @ quote_body t"
  by (subst quote_body.simps) simp

lemma quote_body_ascii: "ord c < 128 \<Longrightarrow> quote_body (c # t) = esc_ascii c @ quote_body t"
  by (subst quote_body.simps) simp

lemma quote_body_multi:
  "1 < utf8_len s \<Longrightarrow>
     quote_body s =
       (if take (utf8_len s) s = line_sep then CHR 0x5C # ''u2028''
        else if take (utf8_len s) s = par_sep then CHR 0x5C # ''u2029''
        else take (utf8_len s) s) @ quote_body (drop (utf8_len s) s)"
  by (subst quote_body.simps) (cases s, simp_all)

lemma unquote_end [simp]: "unquote (CHR 0x22 # r) = Some ([], r)"
  by (subst unquote.simps) simp

lemma unquote_esc:
  "esc_char e = Some d \<Longrightarrow> unquote (CHR 0x5C # e # u) = prepend [d] (unquote u)"
  by (subst unquote.simps) (auto simp: esc_char_def)

lemma unquote_u:
  "getu4 u = Some r \<Longrightarrow> \<not> (55296 \<le> r \<and> r < 56320) \<Longrightarrow>
     unquote (CHR 0x5C # CHR ''u'' # u) = prepend (enc_rune r) (unquote (drop 4 u))"
  by (subst unquote.simps) auto

lemma unquote_ascii:
  "32 \<le> ord c \<Longrightarrow> ord c < 128 \<Longrightarrow> c \<noteq> CHR 0x22 \<Longrightarrow> c \<noteq> CHR 0x5C \<Longrightarrow>
     unquote (c # t) = prepend [c] (unquote t)"
  by (subst unquote.simps) simp

lemma utf8_multi_head: "1 < utf8_len s \<Longrightarrow> \<exists>c t. s = c # t \<and> 128 \<le> ord c"
  by (cases s) (simp, metis less_numeral_extra(4) not_le_imp_less One_nat_def utf8_len_1)

lemma unquote_multi:
  assumes "1 < utf8_len s"
  shows "unquote s = prepend (take (utf8_len s) s) (unquote (drop (utf8_len s) s))"
proof -
  obtain c t where s: "s = c # t" "128 \<le> ord c" using utf8_multi_head [OF assms] by blast
  then have "c \<noteq> CHR 0x22" "c \<noteq> CHR 0x5C" by (auto simp: ord_def)
  with s assms show ?thesis by (subst unquote.simps) simp
qed

lemma getu4_low_byte:
  "ord c < 128 \<Longrightarrow>
     getu4 (CHR ''0'' # CHR ''0'' # hex_digit (ord c div 16) # hex_digit (ord c mod 16) # u)
       = Some (ord c)"
proof -
  assume "ord c < 128"
  then have "ord c div 16 < 16" "ord c mod 16 < 16" by auto
  moreover have "hex_val (CHR ''0'') = Some 0" by (simp add: hex_val_def ord_def)
  ultimately show ?thesis by (simp add: getu4_def)
qed

lemma esc_char_short: "short_esc c = Some e \<Longrightarrow> esc_char e = Some c"
  by (auto simp: short_esc_def esc_char_def split: if_splits)

lemma unquote_esc_ascii:
  assumes "ord c < 128"
  shows "unquote (esc_ascii c @ u) = prepend [c] (unquote u)"
proof (cases "short_esc c")
  case (Some e)
  then show ?thesis by (simp add: esc_ascii_def unquote_esc esc_char_short)
next
  case None
  then have c: "c \<noteq> CHR 0x22" "c \<noteq> CHR 0x5C" by (auto simp: short_esc_def)
  show ?thesis
  proof (cases "ord c < 32 \<or> c = CHR ''<'' \<or> c = CHR ''>'' \<or> c = CHR ''&''")
    case True
    have "enc_rune (ord c) = [c]" using assms by (simp add: enc_rune_def)
    with None True assms show ?thesis
      by (simp add: esc_ascii_def unquote_u getu4_low_byte)
  next
    case False
    with None assms c show ?thesis by (simp add: esc_ascii_def unquote_ascii)
  qed
qed

lemma unquote_fixed:
  "unquote (CHR 0x5C # ''ufffd'' @ u) = prepend repl (unquote u)"
  "unquote (CHR 0x5C # ''u2028'' @ u) = prepend line_sep (unquote u)"
  "unquote (CHR 0x5C # ''u2029'' @ u) = prepend par_sep (unquote u)"
proof -
  have "getu4 (''fffd'' @ u) = Some 65533" "getu4 (''2028'' @ u) = Some 8232"
    "getu4 (''2029'' @ u) = Some 8233"
    by (simp_all add: getu4_def hex_val_def ord_def)
  moreover have "enc_rune 65533 = repl" "enc_rune 8232 = line_sep" "enc_rune 8233 = par_sep"
    by (simp_all add: enc_rune_def repl_def line_sep_def par_sep_def char_of_eq_ord ord_def)
  ultimately show "unquote (CHR 0x5C # ''ufffd'' @ u) = prepend repl (unquote u)"
    "unquote (CHR 0x5C # ''u2028'' @ u) = prepend line_sep (unquote u)"
    "unquote (CHR 0x5C # ''u2029'' @ u) = prepend par_sep (unquote u)"
    using unquote_u [of "''fffd'' @ u"] unquote_u [of "''2028'' @ u"]
      unquote_u [of "''2029'' @ u"]
    by simp_all
qed

lemma prepend_simps [simp]:
  "prepend p (Some (x, r)) = Some (p @ x, r)" "prepend p None = None"
  by (simp_all add: prepend_def)

lemma unquote_quote_body: "unquote (quote_body s @ CHR 0x22 # r) = Some (sanitize s, r)"
proof (induction s rule: utf8_induct)
  case Nil
  then show ?case by simp
next
  case (bad c t)
  then show ?case
    using unquote_fixed(1) [of "quote_body t @ CHR 0x22 # r"]
    by (simp add: quote_body_bad sanitize_bad)
next
  case (good s)
  show ?case
  proof (cases "utf8_len s = 1")
    case True
    then obtain c t where s: "s = c # t" by (cases s) auto
    with True have c: "ord c < 128" by (simp add: utf8_len_1)
    with s True good show ?thesis
      by (simp add: quote_body_ascii unquote_esc_ascii sanitize_good)
  next
    case False
    with good(1) have m: "1 < utf8_len s" by simp
    let ?u = "quote_body (drop (utf8_len s) s) @ CHR 0x22 # r"
    have l: "utf8_len (take (utf8_len s) s @ ?u) = utf8_len s"
      using good(1) by (rule utf8_len_take)
    have "length (take (utf8_len s) s) = utf8_len s" using utf8_len_le [of s] by simp
    then have "unquote (take (utf8_len s) s @ ?u) = prepend (take (utf8_len s) s) (unquote ?u)"
      using unquote_multi [of "take (utf8_len s) s @ ?u"] l m by simp
    with m good unquote_fixed(2,3) [of ?u] show ?thesis
      by (auto simp: quote_body_multi sanitize_good)
  qed
qed

end
