(* ===== verification/Store.thy ===== *)
theory Store
  imports Go_Json
begin

text \<open>
  Package \<open>lib/store\<close>: the records, headers and envelopes the stores exchange, their
  validation, the two interfaces \<open>Store\<close> and \<open>EnvelopeBackend\<close> as dictionaries of methods
  over a state, and the contracts of both as locales.

  A method that may change the state returns its error and the next state; a method that only
  reads returns an error or its answer. The contracts speak about every outcome: an operation
  that reports an error may have been applied (a write that failed at the sync, say) or not,
  but nothing else may have changed. \<open>store_contract\<close> and \<open>envelope_backend\<close> say what an
  answer means; \<open>live_store\<close> and \<open>live_backend\<close> add when an answer must be a
  success.
\<close>

section \<open>Data\<close>

definition SaltSize :: nat where
  "SaltSize = 32"

record store_record =
  rec_Alias :: string
  rec_CredentialID :: bytes
  rec_Salt :: bytes
  rec_RPID :: string

record kek_reference =
  ref_CredentialID :: bytes
  ref_Salt :: bytes
  ref_RPID :: string

record encrypted_blob =
  blob_Version :: "16 word"
  blob_Algorithm :: string
  blob_Nonce :: bytes
  blob_Ciphertext :: bytes

record encryption_header =
  hdr_Version :: "16 word"
  hdr_Revision :: "64 word"
  hdr_StoreID :: bytes
  hdr_KEK :: kek_reference
  hdr_WrappedDEK :: encrypted_blob

section \<open>Validation\<close>

definition ValidateAlias :: "string \<Rightarrow> go_error option" where
  "ValidateAlias alias = (if alias = [] then Some (Sentinel StoreErrInvalidAlias) else None)"

definition ValidateRecord :: "store_record \<Rightarrow> go_error option" where
  "ValidateRecord r =
     (case ValidateAlias (rec_Alias r) of
        Some e \<Rightarrow> Some e
      | None \<Rightarrow>
          if length (rec_CredentialID r) = 0
          then Some (errorf ''%w: empty credential id'' (Sentinel StoreErrInvalidRecord))
          else if length (rec_Salt r) \<noteq> SaltSize
          then Some (errorf ''%w: salt must be %d bytes'' (Sentinel StoreErrInvalidRecord))
          else if rec_RPID r = []
          then Some (errorf ''%w: empty rp id'' (Sentinel StoreErrInvalidRecord))
          else None)"

definition ValidateKEKReference :: "kek_reference \<Rightarrow> go_error option" where
  "ValidateKEKReference r =
     (if length (ref_CredentialID r) = 0
      then Some (errorf ''%w: empty KEK credential id'' (Sentinel StoreErrInvalidRecord))
      else if length (ref_Salt r) \<noteq> SaltSize
      then Some (errorf ''%w: KEK salt must be %d bytes'' (Sentinel StoreErrInvalidRecord))
      else if trim_space (ref_RPID r) = []
      then Some (errorf ''%w: empty KEK rp id'' (Sentinel StoreErrInvalidRecord))
      else None)"

text \<open>What the checks accept.\<close>

definition valid_record :: "store_record \<Rightarrow> bool" where
  "valid_record r \<longleftrightarrow>
     rec_Alias r \<noteq> [] \<and> rec_CredentialID r \<noteq> [] \<and> length (rec_Salt r) = SaltSize \<and>
     rec_RPID r \<noteq> []"

lemma ValidateAlias_None [simp]: "ValidateAlias a = None \<longleftrightarrow> a \<noteq> []"
  by (simp add: ValidateAlias_def)

lemma ValidateAlias_Some [simp]:
  "ValidateAlias a = Some e \<longleftrightarrow> a = [] \<and> e = Sentinel StoreErrInvalidAlias"
  by (auto simp: ValidateAlias_def)

lemma ValidateRecord_None [simp]: "ValidateRecord r = None \<longleftrightarrow> valid_record r"
  by (auto simp: ValidateRecord_def valid_record_def split: option.splits)

lemma Validate_ok [simp]:
  "a \<noteq> [] \<Longrightarrow> ValidateAlias a = None"
  "valid_record r \<Longrightarrow> ValidateRecord r = None"
  by simp_all

lemma ValidateRecord_Some:
  "ValidateRecord r = Some e \<Longrightarrow>
     \<not> valid_record r \<and>
     (errors_is e StoreErrInvalidAlias \<and> rec_Alias r = [] \<or> errors_is e StoreErrInvalidRecord)"
  by (auto simp: ValidateRecord_def valid_record_def split: option.splits if_splits)

lemma ValidateKEKReference_None:
  "ValidateKEKReference r = None \<longleftrightarrow>
     ref_CredentialID r \<noteq> [] \<and> length (ref_Salt r) = SaltSize \<and> trim_space (ref_RPID r) \<noteq> []"
  by (simp add: ValidateKEKReference_def)

lemma ValidateKEKReference_Some:
  "ValidateKEKReference r = Some e \<Longrightarrow> errors_is e StoreErrInvalidRecord"
  by (auto simp: ValidateKEKReference_def split: if_splits)

text \<open>The normal form in which every store keeps a record: alias and RP ID trimmed.\<close>

definition norm_record :: "store_record \<Rightarrow> store_record" where
  "norm_record r = r\<lparr>rec_Alias := trim_space (rec_Alias r), rec_RPID := trim_space (rec_RPID r)\<rparr>"

lemma norm_record_sel [simp]:
  "rec_Alias (norm_record r) = trim_space (rec_Alias r)"
  "rec_CredentialID (norm_record r) = rec_CredentialID r"
  "rec_Salt (norm_record r) = rec_Salt r"
  "rec_RPID (norm_record r) = trim_space (rec_RPID r)"
  by (simp_all add: norm_record_def)

lemma norm_record_idem [simp]: "norm_record (norm_record r) = norm_record r"
  by (simp add: norm_record_def)

section \<open>The interfaces\<close>

record 's store_ops =
  st_Put :: "go_context \<Rightarrow> store_record \<Rightarrow> 's \<Rightarrow> go_error option \<times> 's"
  st_Get :: "go_context \<Rightarrow> string \<Rightarrow> 's \<Rightarrow> go_error + store_record"
  st_Delete :: "go_context \<Rightarrow> string \<Rightarrow> 's \<Rightarrow> go_error option \<times> 's"
  st_Has :: "go_context \<Rightarrow> string \<Rightarrow> 's \<Rightarrow> go_error + bool"
  st_List :: "go_context \<Rightarrow> 's \<Rightarrow> go_error + string list"
  st_Close :: "'s \<Rightarrow> go_error option \<times> 's"

record 'b envelope_ops =
  be_CreateHeader :: "go_context \<Rightarrow> encryption_header \<Rightarrow> 'b \<Rightarrow> go_error option \<times> 'b"
  be_LoadHeader :: "go_context \<Rightarrow> 'b \<Rightarrow> go_error + encryption_header"
  be_CompareAndSwapHeader ::
    "go_context \<Rightarrow> 64 word \<Rightarrow> encryption_header \<Rightarrow> 'b \<Rightarrow> go_error option \<times> 'b"
  be_PutEnvelope :: "go_context \<Rightarrow> string \<Rightarrow> encrypted_blob \<Rightarrow> 'b \<Rightarrow> go_error option \<times> 'b"
  be_GetEnvelope :: "go_context \<Rightarrow> string \<Rightarrow> 'b \<Rightarrow> go_error + encrypted_blob"
  be_DeleteEnvelope :: "go_context \<Rightarrow> string \<Rightarrow> 'b \<Rightarrow> go_error option \<times> 'b"
  be_HasEnvelope :: "go_context \<Rightarrow> string \<Rightarrow> 'b \<Rightarrow> go_error + bool"
  be_ListEnvelopes :: "go_context \<Rightarrow> 'b \<Rightarrow> go_error + string list"
  be_Close :: "'b \<Rightarrow> go_error option \<times> 'b"

section \<open>The contract of a Store\<close>

text \<open>
  \<open>recs\<close> is the alias map a store stands for, \<open>ok\<close> its invariant, and \<open>stored\<close> the form in
  which it keeps a record: the normal form, but for an RP ID that is not valid UTF-8, which
  a backend that writes JSON does not keep as it is.
\<close>

locale store_contract =
  fixes S :: "'s store_ops"
    and recs :: "'s \<Rightarrow> string \<Rightarrow> store_record option"
    and stored :: "store_record \<Rightarrow> store_record"
    and ok :: "'s \<Rightarrow> bool"
  assumes stored_clean: "valid_utf8 (trim_space (rec_RPID r)) \<Longrightarrow> stored r = norm_record r"
    and stored_sel: "rec_Alias (stored r) = trim_space (rec_Alias r)"
      "rec_CredentialID (stored r) = rec_CredentialID r" "rec_Salt (stored r) = rec_Salt r"
    and put_ok: "ok s \<Longrightarrow> st_Put S c r s = (None, s') \<Longrightarrow>
      ok s' \<and> valid_record (norm_record r) \<and> recs s (trim_space (rec_Alias r)) = None \<and>
      recs s' = (recs s)(trim_space (rec_Alias r) \<mapsto> stored r)"
    and put_err: "ok s \<Longrightarrow> st_Put S c r s = (Some e, s') \<Longrightarrow>
      ok s' \<and> (recs s' = recs s \<or>
        recs s (trim_space (rec_Alias r)) = None \<and> valid_record (norm_record r) \<and>
        recs s' = (recs s)(trim_space (rec_Alias r) \<mapsto> stored r))"
    and put_exists: "ok s \<Longrightarrow> st_Put S c r s = (Some e, s') \<Longrightarrow> errors_is e StoreErrExists \<Longrightarrow>
      recs s' = recs s \<and> recs s (trim_space (rec_Alias r)) \<noteq> None"
    and get_ok: "ok s \<Longrightarrow> st_Get S c a s = Inr r \<Longrightarrow> recs s (trim_space a) = Some r"
    and get_absent: "ok s \<Longrightarrow> st_Get S c a s = Inl e \<Longrightarrow> errors_is e StoreErrNotFound \<Longrightarrow>
      recs s (trim_space a) = None"
    and delete_ok: "ok s \<Longrightarrow> st_Delete S c a s = (None, s') \<Longrightarrow>
      ok s' \<and> recs s (trim_space a) \<noteq> None \<and> recs s' = (recs s)(trim_space a := None)"
    and delete_err: "ok s \<Longrightarrow> st_Delete S c a s = (Some e, s') \<Longrightarrow>
      ok s' \<and> (recs s' = recs s \<or> recs s' = (recs s)(trim_space a := None))"
    and delete_absent: "ok s \<Longrightarrow> st_Delete S c a s = (Some e, s') \<Longrightarrow>
      errors_is e StoreErrNotFound \<Longrightarrow> recs s' = recs s \<and> recs s (trim_space a) = None"
    and has_ok: "ok s \<Longrightarrow> st_Has S c a s = Inr b \<Longrightarrow> b = (recs s (trim_space a) \<noteq> None)"
    and list_ok: "ok s \<Longrightarrow> st_List S c s = Inr as \<Longrightarrow> distinct as \<and> set as = dom (recs s)"
begin

lemma put_get:
  assumes "ok s" "st_Put S c r s = (None, s')" "st_Get S d (rec_Alias r) s' = Inr r'"
  shows "r' = stored r"
  using put_ok [OF assms(1,2)] get_ok [OF _ assms(3)] by auto

lemma put_frame:
  assumes "ok s" "st_Put S c r s = (e, s')" "a \<noteq> trim_space (rec_Alias r)"
  shows "recs s' a = recs s a"
  using assms put_ok [OF assms(1)] put_err [OF assms(1)] by (cases e) (auto, force)

lemma put_keeps:
  assumes "ok s" "st_Put S c r s = (e, s')" "recs s a = Some x"
  shows "recs s' a = Some x"
proof (cases e)
  case None
  with assms put_ok [OF assms(1)] show ?thesis by auto
next
  case (Some e')
  with assms(2) have "recs s' = recs s \<or> recs s (trim_space (rec_Alias r)) = None \<and>
      recs s' = (recs s)(trim_space (rec_Alias r) \<mapsto> stored r)"
    using put_err [OF assms(1)] by blast
  with assms(3) show ?thesis by auto
qed

lemma put_inv: "ok s \<Longrightarrow> st_Put S c r s = (e, s') \<Longrightarrow> ok s'"
  by (cases e) (auto dest: put_ok put_err)

lemma delete_inv: "ok s \<Longrightarrow> st_Delete S c a s = (e, s') \<Longrightarrow> ok s'"
  by (cases e) (auto dest: delete_ok delete_err)

lemma delete_get:
  assumes "ok s" "st_Delete S c a s = (None, s')"
  shows "st_Get S d a s' \<noteq> Inr r"
  using delete_ok [OF assms] get_ok by fastforce

end

text \<open>A store that is \<open>up\<close> answers: with a context that is never cancelled every operation
  has the outcome that the map calls for, for the records that the store \<open>takes\<close>.\<close>

locale live_store = store_contract +
  fixes up :: "'s \<Rightarrow> bool"
    and takes :: "store_record \<Rightarrow> bool"
  assumes put_live: "ok s \<Longrightarrow> up s \<Longrightarrow> valid_record (norm_record r) \<Longrightarrow> takes r \<Longrightarrow>
      recs s (trim_space (rec_Alias r)) = None \<Longrightarrow>
      \<exists>s'. st_Put S background r s = (None, s') \<and> up s'"
    and get_live: "ok s \<Longrightarrow> up s \<Longrightarrow> recs s (trim_space a) = Some r \<Longrightarrow>
      st_Get S background a s = Inr r"
    and delete_live: "ok s \<Longrightarrow> up s \<Longrightarrow> recs s (trim_space a) = Some r \<Longrightarrow>
      \<exists>s'. st_Delete S background a s = (None, s') \<and> up s'"
    and has_live: "ok s \<Longrightarrow> up s \<Longrightarrow> trim_space a \<noteq> [] \<Longrightarrow>
      \<exists>b. st_Has S background a s = Inr b"
begin

lemma put_get_live:
  assumes "ok s" "up s" "valid_record (norm_record r)" "takes r"
    "recs s (trim_space (rec_Alias r)) = None"
  shows "\<exists>s'. st_Put S background r s = (None, s') \<and> ok s' \<and> up s' \<and>
    st_Get S background (rec_Alias r) s' = Inr (stored r)"
proof -
  obtain s' where s': "st_Put S background r s = (None, s')" "up s'"
    using put_live [OF assms] by blast
  with put_ok [OF assms(1) s'(1)] have "ok s'" "recs s' (trim_space (rec_Alias r)) = Some (stored r)"
    by auto
  with s' get_live show ?thesis by blast
qed

end

section \<open>A store as a map\<close>

text \<open>
  The calls of a client, what a store answers, and the specification of an answer as a step of
  the alias map: \<open>spec_step stored m c a m'\<close> says that \<open>a\<close> is an answer to \<open>c\<close> that the map
  \<open>m\<close> allows, and that \<open>m'\<close> is a map it may leave.
\<close>

datatype store_call =
    CPut go_context store_record
  | CGet go_context string
  | CDelete go_context string
  | CHas go_context string
  | CList go_context

datatype store_answer =
    ADone "go_error option"
  | ARecord "go_error + store_record"
  | ABool "go_error + bool"
  | AList "go_error + string list"

fun do_call :: "'s store_ops \<Rightarrow> store_call \<Rightarrow> 's \<Rightarrow> store_answer \<times> 's" where
  "do_call S (CPut c r) s = (case st_Put S c r s of (e, s') \<Rightarrow> (ADone e, s'))"
| "do_call S (CGet c a) s = (ARecord (st_Get S c a s), s)"
| "do_call S (CDelete c a) s = (case st_Delete S c a s of (e, s') \<Rightarrow> (ADone e, s'))"
| "do_call S (CHas c a) s = (ABool (st_Has S c a s), s)"
| "do_call S (CList c) s = (AList (st_List S c s), s)"

fun do_calls :: "'s store_ops \<Rightarrow> store_call list \<Rightarrow> 's \<Rightarrow> store_answer list \<times> 's" where
  "do_calls S [] s = ([], s)"
| "do_calls S (c # cs) s =
     (case do_call S c s of (a, s') \<Rightarrow> (case do_calls S cs s' of (as, s'') \<Rightarrow> (a # as, s'')))"

type_synonym record_map = "string \<Rightarrow> store_record option"

fun spec_step ::
  "(store_record \<Rightarrow> store_record) \<Rightarrow> record_map \<Rightarrow> store_call \<Rightarrow> store_answer \<Rightarrow> record_map \<Rightarrow> bool"
  where
  "spec_step stored m (CPut c r) (ADone None) m' \<longleftrightarrow>
     valid_record (norm_record r) \<and> m (trim_space (rec_Alias r)) = None \<and>
     m' = m(trim_space (rec_Alias r) \<mapsto> stored r)"
| "spec_step stored m (CPut c r) (ADone (Some e)) m' \<longleftrightarrow>
     (m' = m \<or> m (trim_space (rec_Alias r)) = None \<and> valid_record (norm_record r) \<and>
        m' = m(trim_space (rec_Alias r) \<mapsto> stored r)) \<and>
     (errors_is e StoreErrExists \<longrightarrow> m' = m \<and> m (trim_space (rec_Alias r)) \<noteq> None)"
| "spec_step stored m (CGet c a) (ARecord (Inr r)) m' \<longleftrightarrow> m (trim_space a) = Some r \<and> m' = m"
| "spec_step stored m (CGet c a) (ARecord (Inl e)) m' \<longleftrightarrow>
     (errors_is e StoreErrNotFound \<longrightarrow> m (trim_space a) = None) \<and> m' = m"
| "spec_step stored m (CDelete c a) (ADone None) m' \<longleftrightarrow>
     m (trim_space a) \<noteq> None \<and> m' = m(trim_space a := None)"
| "spec_step stored m (CDelete c a) (ADone (Some e)) m' \<longleftrightarrow>
     (m' = m \<or> m' = m(trim_space a := None)) \<and>
     (errors_is e StoreErrNotFound \<longrightarrow> m' = m \<and> m (trim_space a) = None)"
| "spec_step stored m (CHas c a) (ABool (Inr b)) m' \<longleftrightarrow> b = (m (trim_space a) \<noteq> None) \<and> m' = m"
| "spec_step stored m (CHas c a) (ABool (Inl e)) m' \<longleftrightarrow> m' = m"
| "spec_step stored m (CList c) (AList (Inr as)) m' \<longleftrightarrow> distinct as \<and> set as = dom m \<and> m' = m"
| "spec_step stored m (CList c) (AList (Inl e)) m' \<longleftrightarrow> m' = m"
| "spec_step stored m _ _ m' \<longleftrightarrow> False"

inductive spec_run ::
  "(store_record \<Rightarrow> store_record) \<Rightarrow> record_map \<Rightarrow> store_call list \<Rightarrow> store_answer list \<Rightarrow> record_map \<Rightarrow> bool"
  for stored where
  spec_Nil: "spec_run stored m [] [] m"
| spec_Cons: "spec_step stored m c a m' \<Longrightarrow> spec_run stored m' cs as m'' \<Longrightarrow>
    spec_run stored m (c # cs) (a # as) m''"

inductive_cases spec_run_ConsE: "spec_run stored m (c # cs) as m'"

context store_contract
begin

lemma call_refines:
  assumes "ok s" "do_call S c s = (a, s')"
  shows "ok s' \<and> spec_step stored (recs s) c a (recs s')"
proof (cases c)
  case (CPut x r)
  obtain e t where p: "st_Put S x r s = (e, t)" by fastforce
  show ?thesis
  proof (cases e)
    case None
    then show ?thesis using assms p CPut put_ok [OF assms(1)] by auto
  next
    case (Some y)
    then have "s' = t" "a = ADone (Some y)" using assms p CPut by auto
    then show ?thesis
      using CPut put_err [OF assms(1) p [unfolded Some]] put_exists [OF assms(1) p [unfolded Some]]
      by simp
  qed
next
  case (CGet x b)
  then show ?thesis using assms get_ok [OF assms(1)] get_absent [OF assms(1)]
    by (cases "st_Get S x b s") auto
next
  case (CDelete x b)
  obtain e t where p: "st_Delete S x b s = (e, t)" by fastforce
  show ?thesis
  proof (cases e)
    case None
    then show ?thesis using assms p CDelete delete_ok [OF assms(1)] by auto
  next
    case (Some y)
    then have "s' = t" "a = ADone (Some y)" using assms p CDelete by auto
    then show ?thesis
      using CDelete delete_err [OF assms(1) p [unfolded Some]]
        delete_absent [OF assms(1) p [unfolded Some]]
      by simp
  qed
next
  case (CHas x b)
  then show ?thesis using assms has_ok [OF assms(1)] by (cases "st_Has S x b s") auto
next
  case (CList x)
  then show ?thesis using assms list_ok [OF assms(1)] by (cases "st_List S x s") auto
qed

lemma calls_refine:
  "ok s \<Longrightarrow> do_calls S cs s = (as, s') \<Longrightarrow> ok s' \<and> spec_run stored (recs s) cs as (recs s')"
proof (induction cs arbitrary: s as)
  case Nil
  then show ?case by (auto intro: spec_Nil)
next
  case (Cons c cs)
  from Cons.prems(2) obtain a t as' where a: "do_call S c s = (a, t)"
      and as: "do_calls S cs t = (as', s')" "as = a # as'"
    by (auto split: prod.splits)
  from call_refines [OF Cons.prems(1) a] Cons.IH [OF _ as(1)] as(2) show ?case
    by (auto intro: spec_Cons)
qed

end

section \<open>The contract of an EnvelopeBackend\<close>

text \<open>
  \<open>hdr\<close> is the persisted header, \<open>envs\<close> the map of envelopes, \<open>kept\<close> and \<open>kept_blob\<close> the
  forms in which the backend keeps them: unchanged when every string in them is valid UTF-8.
\<close>

definition clean_blob :: "encrypted_blob \<Rightarrow> bool" where
  "clean_blob b \<longleftrightarrow> valid_utf8 (blob_Algorithm b)"

definition clean_header :: "encryption_header \<Rightarrow> bool" where
  "clean_header h \<longleftrightarrow> valid_utf8 (ref_RPID (hdr_KEK h)) \<and> clean_blob (hdr_WrappedDEK h)"

locale envelope_backend =
  fixes B :: "'b envelope_ops"
    and hdr :: "'b \<Rightarrow> encryption_header option"
    and envs :: "'b \<Rightarrow> string \<Rightarrow> encrypted_blob option"
    and kept :: "encryption_header \<Rightarrow> encryption_header"
    and kept_blob :: "encrypted_blob \<Rightarrow> encrypted_blob"
    and good :: "'b \<Rightarrow> bool"
  assumes kept_clean: "clean_header h \<Longrightarrow> kept h = h"
    and kept_blob_clean: "clean_blob e \<Longrightarrow> kept_blob e = e"
    and create_ok: "good b \<Longrightarrow> be_CreateHeader B c h b = (None, b') \<Longrightarrow>
      good b' \<and> hdr b = None \<and> hdr b' = Some (kept h) \<and> envs b' = envs b"
    and create_err: "good b \<Longrightarrow> be_CreateHeader B c h b = (Some x, b') \<Longrightarrow>
      good b' \<and> envs b' = envs b \<and>
      (hdr b' = hdr b \<or> hdr b = None \<and> hdr b' = Some (kept h))"
    and load_ok: "good b \<Longrightarrow> be_LoadHeader B c b = Inr h \<Longrightarrow> hdr b = Some h"
    and load_absent: "good b \<Longrightarrow> be_LoadHeader B c b = Inl x \<Longrightarrow> errors_is x ErrNotInitialized \<Longrightarrow>
      hdr b = None"
    and cas_ok: "good b \<Longrightarrow> be_CompareAndSwapHeader B c old h b = (None, b') \<Longrightarrow>
      good b' \<and> envs b' = envs b \<and> map_option hdr_Revision (hdr b) = Some old \<and>
      hdr b' = Some (kept h)"
    and cas_err: "good b \<Longrightarrow> be_CompareAndSwapHeader B c old h b = (Some x, b') \<Longrightarrow>
      good b' \<and> envs b' = envs b \<and>
      (hdr b' = hdr b \<or>
       map_option hdr_Revision (hdr b) = Some old \<and> hdr b' = Some (kept h))"
    and cas_conflict: "good b \<Longrightarrow> be_CompareAndSwapHeader B c old h b = (Some x, b') \<Longrightarrow>
      errors_is x ErrConflict \<Longrightarrow> hdr b' = hdr b \<and> map_option hdr_Revision (hdr b) \<noteq> Some old"
    and putenv_ok: "good b \<Longrightarrow> be_PutEnvelope B c a e b = (None, b') \<Longrightarrow>
      good b' \<and> hdr b' = hdr b \<and> trim_space a \<noteq> [] \<and> envs b (trim_space a) = None \<and>
      envs b' = (envs b)(trim_space a \<mapsto> kept_blob e)"
    and putenv_err: "good b \<Longrightarrow> be_PutEnvelope B c a e b = (Some x, b') \<Longrightarrow>
      good b' \<and> hdr b' = hdr b \<and>
      (envs b' = envs b \<or> envs b (trim_space a) = None \<and> trim_space a \<noteq> [] \<and>
         envs b' = (envs b)(trim_space a \<mapsto> kept_blob e))"
    and putenv_exists: "good b \<Longrightarrow> be_PutEnvelope B c a e b = (Some x, b') \<Longrightarrow>
      errors_is x StoreErrExists \<Longrightarrow> envs b' = envs b \<and> envs b (trim_space a) \<noteq> None"
    and getenv_ok: "good b \<Longrightarrow> be_GetEnvelope B c a b = Inr e \<Longrightarrow> envs b (trim_space a) = Some e"
    and getenv_absent: "good b \<Longrightarrow> be_GetEnvelope B c a b = Inl x \<Longrightarrow>
      errors_is x StoreErrNotFound \<Longrightarrow> envs b (trim_space a) = None"
    and delenv_ok: "good b \<Longrightarrow> be_DeleteEnvelope B c a b = (None, b') \<Longrightarrow>
      good b' \<and> hdr b' = hdr b \<and> envs b (trim_space a) \<noteq> None \<and>
      envs b' = (envs b)(trim_space a := None)"
    and delenv_err: "good b \<Longrightarrow> be_DeleteEnvelope B c a b = (Some x, b') \<Longrightarrow>
      good b' \<and> hdr b' = hdr b \<and>
      (envs b' = envs b \<or> envs b' = (envs b)(trim_space a := None))"
    and delenv_absent: "good b \<Longrightarrow> be_DeleteEnvelope B c a b = (Some x, b') \<Longrightarrow>
      errors_is x StoreErrNotFound \<Longrightarrow> envs b' = envs b \<and> envs b (trim_space a) = None"
    and hasenv_ok: "good b \<Longrightarrow> be_HasEnvelope B c a b = Inr v \<Longrightarrow>
      v = (envs b (trim_space a) \<noteq> None)"
    and listenv_ok: "good b \<Longrightarrow> be_ListEnvelopes B c b = Inr as \<Longrightarrow>
      distinct as \<and> set as = dom (envs b)"

locale live_backend = envelope_backend +
  fixes up :: "'b \<Rightarrow> bool"
  assumes create_live: "good b \<Longrightarrow> up b \<Longrightarrow> hdr b = None \<Longrightarrow>
      \<exists>b'. be_CreateHeader B background h b = (None, b') \<and> up b'"
    and load_live: "good b \<Longrightarrow> up b \<Longrightarrow> hdr b = Some h \<Longrightarrow> be_LoadHeader B background b = Inr h"
    and load_none: "good b \<Longrightarrow> up b \<Longrightarrow> hdr b = None \<Longrightarrow>
      \<exists>e. be_LoadHeader B background b = Inl e \<and> errors_is e ErrNotInitialized"
    and cas_live: "good b \<Longrightarrow> up b \<Longrightarrow> map_option hdr_Revision (hdr b) = Some old \<Longrightarrow>
      \<exists>b'. be_CompareAndSwapHeader B background old h b = (None, b') \<and> up b'"
    and putenv_live: "good b \<Longrightarrow> up b \<Longrightarrow> trim_space a \<noteq> [] \<Longrightarrow> envs b (trim_space a) = None \<Longrightarrow>
      \<exists>b'. be_PutEnvelope B background a e b = (None, b') \<and> up b'"
    and getenv_live: "good b \<Longrightarrow> up b \<Longrightarrow> trim_space a \<noteq> [] \<Longrightarrow> envs b (trim_space a) = Some e \<Longrightarrow>
      be_GetEnvelope B background a b = Inr e"
    and delenv_live: "good b \<Longrightarrow> up b \<Longrightarrow> trim_space a \<noteq> [] \<Longrightarrow> envs b (trim_space a) = Some e \<Longrightarrow>
      \<exists>b'. be_DeleteEnvelope B background a b = (None, b') \<and> up b'"
    and hasenv_live: "good b \<Longrightarrow> up b \<Longrightarrow> trim_space a \<noteq> [] \<Longrightarrow>
      \<exists>v. be_HasEnvelope B background a b = Inr v"
    and listenv_live: "good b \<Longrightarrow> up b \<Longrightarrow> \<exists>as. be_ListEnvelopes B background b = Inr as"

end
