(* ===== verification/Go_Json_Doc.thy ===== *)
theory Go_Json_Doc
  imports Go_Json
begin

text \<open>
  The documents of \<open>encoding/json\<close>: \<open>json_render\<close> writes a document as \<open>Marshal\<close>
  does (no spaces, members in order) and \<open>json_parse\<close> reads one with the grammar of the
  package's scanner. The theorem \<open>json_parse_render\<close> says that what is read back is what was
  written with every string \<open>sanitize\<close>d. The reader has fuel, one unit per value, element and
  member; the length of the text is enough for what \<open>json_render\<close> writes
  (\<open>jsize_le_length\<close>), and for every other text too (theory \<open>Go_Json_Fuel\<close>). The scanner's
  nesting limit of 10000 is not modelled.
\<close>

datatype json =
    JNull
  | JBool bool
  | JNum string                  \<comment> \<open>the literal, as written\<close>
  | JStr string
  | JArr "json list"
  | JObj "(string \<times> json) list"

section \<open>Writing\<close>

fun join_comma :: "string list \<Rightarrow> string" where
  "join_comma [] = []"
| "join_comma [x] = x"
| "join_comma (x # xs) = x @ CHR '','' # join_comma xs"

fun json_render :: "json \<Rightarrow> string" where
  "json_render JNull = ''null''"
| "json_render (JBool b) = (if b then ''true'' else ''false'')"
| "json_render (JNum l) = l"
| "json_render (JStr s) = json_quote s"
| "json_render (JArr js) = CHR ''['' # join_comma (map json_render js) @ '']''"
| "json_render (JObj ms) =
     CHR ''{'' # join_comma (map (\<lambda>(k, v). json_quote k @ CHR '':'' # json_render v) ms) @ ''}''"

section \<open>Reading\<close>

definition is_ws :: "char \<Rightarrow> bool" where
  "is_ws c \<longleftrightarrow> c = CHR '' '' \<or> c = CHR 0x09 \<or> c = CHR 0x0A \<or> c = CHR 0x0D"

definition skip_ws :: "string \<Rightarrow> string" where
  "skip_ws s = dropWhile is_ws s"

text \<open>The rest of the text after the expected character.\<close>

definition expect :: "char \<Rightarrow> string \<Rightarrow> string option" where
  "expect c s = (case s of [] \<Rightarrow> None | d # t \<Rightarrow> if d = c then Some t else None)"

definition digits1 :: "string \<Rightarrow> (string \<times> string) option" where
  "digits1 s =
     (let d = takeWhile is_digit s in
      if d = [] then None else Some (d, dropWhile is_digit s))"

definition int_part :: "string \<Rightarrow> (string \<times> string) option" where
  "int_part s =
     (case expect (CHR ''0'') s of
        Some t \<Rightarrow> Some (''0'', t)
      | None \<Rightarrow> digits1 s)"

definition frac_part :: "string \<Rightarrow> (string \<times> string) option" where
  "frac_part s =
     (case expect (CHR ''.'') s of
        Some t \<Rightarrow> map_option (\<lambda>(d, r). (CHR ''.'' # d, r)) (digits1 t)
      | None \<Rightarrow> Some ([], s))"

definition exp_part :: "string \<Rightarrow> (string \<times> string) option" where
  "exp_part s =
     (case s of
        e # t \<Rightarrow>
          if e = CHR ''e'' \<or> e = CHR ''E'' then
            (case t of
               g # u \<Rightarrow>
                 if g = CHR ''+'' \<or> g = CHR ''-''
                 then map_option (\<lambda>(d, r). (e # g # d, r)) (digits1 u)
                 else map_option (\<lambda>(d, r). (e # d, r)) (digits1 t)
             | [] \<Rightarrow> None)
          else Some ([], s)
      | [] \<Rightarrow> Some ([], s))"

definition parse_number :: "string \<Rightarrow> (json \<times> string) option" where
  "parse_number s =
     (let (sign, t) = (case expect (CHR ''-'') s of Some t \<Rightarrow> (''-'', t) | None \<Rightarrow> ([], s)) in
      case int_part t of None \<Rightarrow> None
      | Some (i, u) \<Rightarrow>
          (case frac_part u of None \<Rightarrow> None
           | Some (f, v) \<Rightarrow>
               (case exp_part v of None \<Rightarrow> None
                | Some (e, w) \<Rightarrow> Some (JNum (sign @ i @ f @ e), w))))"

definition parse_lit :: "json \<Rightarrow> string \<Rightarrow> string \<Rightarrow> (json \<times> string) option" where
  "parse_lit j l s = map_option (\<lambda>r. (j, r)) (strip_prefix l s)"

fun parse_value :: "nat \<Rightarrow> string \<Rightarrow> (json \<times> string) option"
  and parse_elems :: "nat \<Rightarrow> string \<Rightarrow> (json list \<times> string) option"
  and parse_members :: "nat \<Rightarrow> string \<Rightarrow> ((string \<times> json) list \<times> string) option"
where
  "parse_value 0 s = None"
| "parse_value (Suc f) s =
     (case s of
        [] \<Rightarrow> None
      | c # t \<Rightarrow>
          if c = CHR 0x22 then map_option (\<lambda>(x, r). (JStr x, r)) (unquote t)
          else if c = CHR ''{'' then
            (case expect (CHR ''}'') (skip_ws t) of
               Some r \<Rightarrow> Some (JObj [], r)
             | None \<Rightarrow> map_option (\<lambda>(ms, r). (JObj ms, r)) (parse_members f (skip_ws t)))
          else if c = CHR ''['' then
            (case expect (CHR '']'') (skip_ws t) of
               Some r \<Rightarrow> Some (JArr [], r)
             | None \<Rightarrow> map_option (\<lambda>(js, r). (JArr js, r)) (parse_elems f (skip_ws t)))
          else if c = CHR ''t'' then parse_lit (JBool True) ''true'' s
          else if c = CHR ''f'' then parse_lit (JBool False) ''false'' s
          else if c = CHR ''n'' then parse_lit JNull ''null'' s
          else parse_number s)"
| "parse_elems 0 s = None"
| "parse_elems (Suc f) s =
     (case parse_value f s of None \<Rightarrow> None
      | Some (j, r) \<Rightarrow>
          (case expect (CHR '']'') (skip_ws r) of
             Some r' \<Rightarrow> Some ([j], r')
           | None \<Rightarrow>
               (case expect (CHR '','') (skip_ws r) of None \<Rightarrow> None
                | Some r' \<Rightarrow>
                    map_option (\<lambda>(js, q). (j # js, q)) (parse_elems f (skip_ws r')))))"
| "parse_members 0 s = None"
| "parse_members (Suc f) s =
     (case expect (CHR 0x22) s of None \<Rightarrow> None
      | Some t \<Rightarrow>
          (case unquote t of None \<Rightarrow> None
           | Some (k, r) \<Rightarrow>
               (case expect (CHR '':'') (skip_ws r) of None \<Rightarrow> None
                | Some u \<Rightarrow>
                    (case parse_value f (skip_ws u) of None \<Rightarrow> None
                     | Some (v, w) \<Rightarrow>
                         (case expect (CHR ''}'') (skip_ws w) of
                            Some q \<Rightarrow> Some ([(k, v)], q)
                          | None \<Rightarrow>
                              (case expect (CHR '','') (skip_ws w) of None \<Rightarrow> None
                               | Some q \<Rightarrow>
                                   map_option (\<lambda>(ms, p). ((k, v) # ms, p))
                                     (parse_members f (skip_ws q))))))))"

definition json_parse :: "string \<Rightarrow> json option" where
  "json_parse s =
     (case parse_value (Suc (length s)) (skip_ws s) of
        Some (j, r) \<Rightarrow> if skip_ws r = [] then Some j else None
      | None \<Rightarrow> None)"

section \<open>Reading back what was written\<close>

fun json_sanitize :: "json \<Rightarrow> json" where
  "json_sanitize JNull = JNull"
| "json_sanitize (JBool b) = JBool b"
| "json_sanitize (JNum l) = JNum l"
| "json_sanitize (JStr s) = JStr (sanitize s)"
| "json_sanitize (JArr js) = JArr (map json_sanitize js)"
| "json_sanitize (JObj ms) = JObj (map (\<lambda>(k, v). (sanitize k, json_sanitize v)) ms)"

text \<open>The documents the program writes: every number is an unsigned decimal.\<close>

fun json_wf :: "json \<Rightarrow> bool" where
  "json_wf (JNum l) \<longleftrightarrow> l = dec (nat_of_dec l)"
| "json_wf (JArr js) \<longleftrightarrow> (\<forall>j \<in> set js. json_wf j)"
| "json_wf (JObj ms) \<longleftrightarrow> (\<forall>m \<in> set ms. json_wf (snd m))"
| "json_wf _ \<longleftrightarrow> True"

fun jsize :: "json \<Rightarrow> nat" where
  "jsize (JArr js) = Suc (sum_list (map (\<lambda>j. Suc (jsize j)) js))"
| "jsize (JObj ms) = Suc (sum_list (map (\<lambda>m. Suc (jsize (snd m))) ms))"
| "jsize _ = 1"

lemma expect_simps [simp]:
  "expect c [] = None" "expect c (d # t) = (if d = c then Some t else None)"
  by (simp_all add: expect_def)

text \<open>What can follow a value inside a document.\<close>

definition ends :: "string \<Rightarrow> bool" where
  "ends s \<longleftrightarrow> s = [] \<or> hd s = CHR '','' \<or> hd s = CHR ''}'' \<or> hd s = CHR '']''"

lemma ends_simps [simp]:
  "ends []" "ends (CHR '','' # s)" "ends (CHR ''}'' # s)" "ends (CHR '']'' # s)"
  by (simp_all add: ends_def)

lemma ends_expect:
  assumes "ends s"
  shows "expect (CHR ''.'') s = None" "exp_part s = Some ([], s)" "takeWhile is_digit s = []"
    "skip_ws s = s"
  using assms
  by (cases s; auto simp: ends_def exp_part_def is_digit_def ord_def skip_ws_def is_ws_def)+

lemma is_digit_char:
  "is_digit c \<Longrightarrow> c \<noteq> CHR 0x22 \<and> c \<noteq> CHR ''{'' \<and> c \<noteq> CHR ''['' \<and> c \<noteq> CHR ''t'' \<and>
     c \<noteq> CHR ''f'' \<and> c \<noteq> CHR ''n'' \<and> c \<noteq> CHR ''-'' \<and> \<not> is_ws c \<and> c \<noteq> CHR ''}'' \<and>
     c \<noteq> CHR '']''"
  by (auto simp: is_digit_def ord_def is_ws_def)

lemma int_part_dec: "ends r \<Longrightarrow> int_part (dec n @ r) = Some (dec n, r)"
proof -
  assume r: "ends r"
  obtain c t where d: "dec n = c # t" by (meson dec_nonempty neq_Nil_conv)
  show ?thesis
  proof (cases "c = CHR ''0''")
    case True
    with d have "t = []" by (simp add: dec_head)
    with True d show ?thesis by (simp add: int_part_def)
  next
    case False
    have all: "\<forall>x \<in> set (dec n). is_digit x"
      using list_all_digit_dec [of n] by (simp add: list_all_iff)
    then have "takeWhile is_digit (dec n @ r) = dec n" "dropWhile is_digit (dec n @ r) = r"
      using ends_expect(3) [OF r]
      by (simp_all add: takeWhile_append2 dropWhile_append2, metis append_Nil takeWhile_dropWhile_id)
    with False d show ?thesis by (simp add: int_part_def digits1_def Let_def)
  qed
qed

lemma parse_number_dec: "ends r \<Longrightarrow> parse_number (dec n @ r) = Some (JNum (dec n), r)"
proof -
  assume r: "ends r"
  obtain c t where d: "dec n = c # t" by (meson dec_nonempty neq_Nil_conv)
  have "is_digit c" using list_all_digit_dec [of n] d by simp
  then have "expect (CHR ''-'') (dec n @ r) = None" using d is_digit_char by auto
  with int_part_dec [OF r] ends_expect [OF r] show ?thesis
    by (simp add: parse_number_def frac_part_def)
qed

lemma parse_value_dec: "ends r \<Longrightarrow> parse_value (Suc f) (dec n @ r) = Some (JNum (dec n), r)"
proof -
  assume r: "ends r"
  obtain c t where d: "dec n = c # t" by (meson dec_nonempty neq_Nil_conv)
  have "is_digit c" using list_all_digit_dec [of n] d by simp
  then show ?thesis using d is_digit_char [of c] parse_number_dec [OF r, of n] by auto
qed

lemma json_render_head:
  "json_wf j \<Longrightarrow> \<exists>c t. json_render j = c # t \<and> \<not> is_ws c \<and> c \<noteq> CHR ''}'' \<and> c \<noteq> CHR '']''"
proof (cases j)
  case (JNum l)
  assume "json_wf j"
  with JNum have l: "l = dec (nat_of_dec l)" by simp
  then obtain c t where d: "l = c # t" by (metis dec_nonempty neq_Nil_conv)
  have "is_digit c" using list_all_digit_dec [of "nat_of_dec l"] l d by simp
  with d JNum show ?thesis using is_digit_char [of c] by simp
qed (auto simp: is_ws_def json_quote_def)

lemma skip_ws_render: "json_wf j \<Longrightarrow> skip_ws (json_render j @ r) = json_render j @ r"
  using json_render_head [of j] by (auto simp: skip_ws_def)

lemma skip_ws_simps [simp]:
  "skip_ws [] = []" "\<not> is_ws c \<Longrightarrow> skip_ws (c # s) = c # s"
  by (simp_all add: skip_ws_def)

lemma not_is_ws [simp]:
  "\<not> is_ws (CHR 0x22)" "\<not> is_ws (CHR '','')" "\<not> is_ws (CHR '':'')" "\<not> is_ws (CHR ''}'')"
  "\<not> is_ws (CHR '']'')" "\<not> is_ws (CHR ''{'')" "\<not> is_ws (CHR ''['')"
  by (simp_all add: is_ws_def)

lemma unquote_json_quote: "unquote (quote_body k @ CHR 0x22 # r) = Some (sanitize k, r)"
  by (rule unquote_quote_body)

lemma join_comma_Cons:
  "join_comma (x # xs) = x @ (if xs = [] then [] else CHR '','' # join_comma xs)"
  by (cases xs) simp_all

text \<open>Reading one document back, as the induction over documents needs it.\<close>

definition reads_back :: "json \<Rightarrow> bool" where
  "reads_back j \<longleftrightarrow>
     (\<forall>f r. ends r \<longrightarrow> jsize j \<le> f \<longrightarrow>
        parse_value f (json_render j @ r) = Some (json_sanitize j, r))"

lemma parse_elems_render:
  assumes "js \<noteq> []" "\<forall>j \<in> set js. json_wf j \<and> reads_back j"
    "sum_list (map (\<lambda>j. Suc (jsize j)) js) \<le> f"
  shows "parse_elems f (join_comma (map json_render js) @ CHR '']'' # r)
    = Some (map json_sanitize js, r)"
  using assms
proof (induction js arbitrary: f)
  case Nil
  then show ?case by simp
next
  case (Cons j js)
  from Cons.prems(3) obtain g where f: "f = Suc g" by (cases f) auto
  with Cons.prems(3) have g: "jsize j \<le> g" "sum_list (map (\<lambda>j. Suc (jsize j)) js) \<le> g"
    by simp_all
  from Cons.prems(2) have j: "reads_back j" and js: "\<forall>j \<in> set js. json_wf j \<and> reads_back j"
    by simp_all
  show ?case
  proof (cases "js = []")
    case True
    with j g f show ?thesis by (simp add: reads_back_def join_comma_Cons)
  next
    case False
    then obtain k ks where k: "js = k # ks" by (cases js) auto
    let ?s = "join_comma (map json_render js) @ CHR '']'' # r"
    have "skip_ws ?s = ?s"
      using k js skip_ws_render [of k] by (simp add: join_comma_Cons)
    moreover have "parse_value g (json_render j @ CHR '','' # ?s)
        = Some (json_sanitize j, CHR '','' # ?s)"
      using j g(1) by (simp add: reads_back_def)
    ultimately show ?thesis
      using Cons.IH [OF False js g(2)] False f by (simp add: join_comma_Cons)
  qed
qed

lemma parse_members_render:
  assumes "ms \<noteq> []" "\<forall>m \<in> set ms. json_wf (snd m) \<and> reads_back (snd m)"
    "sum_list (map (\<lambda>m. Suc (jsize (snd m))) ms) \<le> f"
  shows "parse_members f
      (join_comma (map (\<lambda>(k, v). json_quote k @ CHR '':'' # json_render v) ms) @ CHR ''}'' # r)
    = Some (map (\<lambda>(k, v). (sanitize k, json_sanitize v)) ms, r)"
  using assms
proof (induction ms arbitrary: f)
  case Nil
  then show ?case by simp
next
  case (Cons m ms)
  obtain k v where m: "m = (k, v)" by (cases m)
  from Cons.prems(3) obtain g where f: "f = Suc g" by (cases f) auto
  with Cons.prems(3) m
  have g: "jsize v \<le> g" "sum_list (map (\<lambda>m. Suc (jsize (snd m))) ms) \<le> g"
    by simp_all
  from Cons.prems(2) m have v: "json_wf v" "reads_back v"
    and ms: "\<forall>m \<in> set ms. json_wf (snd m) \<and> reads_back (snd m)"
    by simp_all
  note q = unquote_json_quote skip_ws_render [OF v(1)] join_comma_Cons json_quote_def
  show ?case
  proof (cases "ms = []")
    case True
    with v g f m show ?thesis by (simp add: reads_back_def q)
  next
    case False
    let ?s = "join_comma (map (\<lambda>(k, v). json_quote k @ CHR '':'' # json_render v) ms) @
        CHR ''}'' # r"
    have "skip_ws ?s = ?s"
      using False by (cases ms) (auto simp: join_comma_Cons json_quote_def)
    moreover have "parse_value g (json_render v @ CHR '','' # ?s)
        = Some (json_sanitize v, CHR '','' # ?s)"
      using v(2) g(1) by (simp add: reads_back_def)
    ultimately show ?thesis
      using Cons.IH [OF False ms g(2)] False f m by (simp add: q)
  qed
qed

lemma join_comma_head:
  "xs \<noteq> [] \<Longrightarrow> hd xs \<noteq> [] \<Longrightarrow> \<exists>t. join_comma xs = hd (hd xs) # t"
  by (cases xs; cases "hd xs") (auto simp: join_comma_Cons)

lemma jsize_pos: "0 < jsize j"
  by (cases j) simp_all

lemma reads_backI:
  assumes "\<And>g r. ends r \<Longrightarrow> jsize j \<le> Suc g \<Longrightarrow>
    parse_value (Suc g) (json_render j @ r) = Some (json_sanitize j, r)"
  shows "reads_back j"
  unfolding reads_back_def
  using assms jsize_pos [of j] by (metis Suc_le_D Suc_le_eq)

lemma reads_back_all: "json_wf j \<Longrightarrow> reads_back j"
proof (induction j)
  case JNull
  show ?case by (rule reads_backI) (simp add: parse_lit_def)
next
  case (JBool b)
  show ?case by (rule reads_backI) (cases b, simp_all add: parse_lit_def)
next
  case (JNum l)
  then have l: "dec (nat_of_dec l) = l" by simp
  show ?case 
    using parse_value_dec [of _ _ "nat_of_dec l"] l
    by (intro reads_backI) (simp del: parse_value.simps)
next
  case (JStr s)
  show ?case by (rule reads_backI) (simp add: json_quote_def unquote_json_quote)
next
  case (JArr js)
  show ?case
  proof (cases "js = []")
    case True
    then show ?thesis by (intro reads_backI) simp
  next
    case False
    then obtain k ks where k: "js = k # ks" by (cases js) auto
    from JArr have all: "\<forall>j \<in> set js. json_wf j \<and> reads_back j" by simp
    have "json_wf k" using all k by simp
    then obtain c t where c: "json_render k = c # t" "\<not> is_ws c" "c \<noteq> CHR '']''"
      using json_render_head by blast
    have "skip_ws (join_comma (map json_render js) @ CHR '']'' # r)
        = join_comma (map json_render js) @ CHR '']'' # r"
      "expect (CHR '']'') (join_comma (map json_render js) @ CHR '']'' # r) = None" for r
      using k c by (simp_all add: join_comma_Cons)
    then show ?thesis 
      using parse_elems_render [OF False all] by (intro reads_backI) simp
  qed
next
  case (JObj ms)
  show ?case
  proof (cases "ms = []")
    case True
    then show ?thesis by (intro reads_backI) simp
  next
    case False
    from JObj have all: "\<forall>m \<in> set ms. json_wf (snd m) \<and> reads_back (snd m)"
      by (auto simp: snds.simps)
    let ?s = "\<lambda>r. join_comma (map (\<lambda>(k, v). json_quote k @ CHR '':'' # json_render v) ms) @
        CHR ''}'' # r"
    have "skip_ws (?s r) = ?s r" "expect (CHR ''}'') (?s r) = None" for r
      using False by (cases ms; auto simp: join_comma_Cons json_quote_def)+
    then show ?thesis 
      using parse_members_render [OF False all] by (intro reads_backI) simp
  qed
qed

lemma jsize_le_length: "json_wf j \<Longrightarrow> jsize j \<le> length (json_render j)"
proof (induction j)
  case (JNum l)
  then have "l \<noteq> []" by (metis dec_nonempty json_wf.simps(1))
  then show ?case by (simp add: Suc_le_eq)
next
  case (JArr js)
  then have "\<forall>j \<in> set js. jsize j \<le> length (json_render j)" by simp
  then have "sum_list (map (\<lambda>j. Suc (jsize j)) js) \<le> Suc (length (join_comma (map json_render js)))"
    by (induction js) (auto simp: join_comma_Cons)
  then show ?case by simp
next
  case (JObj ms)
  then have "\<forall>m \<in> set ms. jsize (snd m) \<le> length (json_render (snd m))"
    by (auto simp: snds.simps)
  then have "sum_list (map (\<lambda>m. Suc (jsize (snd m))) ms)
      \<le> length (join_comma (map (\<lambda>(k, v). json_quote k @ CHR '':'' # json_render v) ms))"
    by (induction ms) (auto simp: join_comma_Cons json_quote_def)
  then show ?case by simp
qed (auto simp: json_quote_def)

theorem json_parse_render: "json_wf j \<Longrightarrow> json_parse (json_render j) = Some (json_sanitize j)"
proof -
  assume wf: "json_wf j"
  then have "parse_value (Suc (length (json_render j))) (json_render j @ [])
      = Some (json_sanitize j, [])"
    using reads_back_all [OF wf] jsize_le_length [OF wf] unfolding reads_back_def
    by (metis ends_simps(1) le_SucI)
  then show ?thesis using skip_ws_render [OF wf, of "[]"] by (simp add: json_parse_def)
qed

end
