(* ===== verification/Store_Json.thy ===== *)
theory Store_Json
  imports Store Go_Json_Doc
begin

text \<open>
  How \<open>json.Marshal\<close> writes and \<open>json.Unmarshal\<close> reads the structs the backends persist: the
  encryption header with its KEK reference and wrapped DEK, an envelope, and Pebble's stored
  record. A byte slice is standard base64 (an empty one is written as \<open>null\<close>, which is what
  the nil slices of the program give), a field is found by its case-folded name, an unknown field
  is ignored and \<open>null\<close> leaves a string or a number as it was. What is read back is what was
  written but for strings that are not valid UTF-8 (\<open>unmarshal_marshal_header\<close> and its kin).
\<close>

section \<open>Reading a struct\<close>

fun fold_name :: "string \<Rightarrow> string" where
  "fold_name [] = []"
| "fold_name (c # s) =
     (if strip_prefix [CHR 0xE2, CHR 0x84, CHR 0xAA] (c # s) \<noteq> None
      then CHR ''K'' # fold_name (drop 2 s)
      else if strip_prefix [CHR 0xC5, CHR 0xBF] (c # s) \<noteq> None
      then CHR ''S'' # fold_name (drop 1 s)
      else (if 97 \<le> ord c \<and> ord c \<le> 122 then char_of (ord c - 32) else c) # fold_name s)"

declare fold_name.simps [simp del]

definition json_type_error :: go_error where
  "json_type_error = Foreign ''json: cannot unmarshal value into Go struct field''"

definition json_syntax_error :: go_error where
  "json_syntax_error = Foreign ''invalid character in JSON input''"

fun json_u8s :: "json list \<Rightarrow> go_error + bytes" where
  "json_u8s [] = Inr []"
| "json_u8s (j # js) =
     (case (case j of JNum l \<Rightarrow> parse_uint 8 l | JNull \<Rightarrow> Some 0 | _ \<Rightarrow> None) of
        None \<Rightarrow> Inl json_type_error
      | Some n \<Rightarrow> (case json_u8s js of Inl e \<Rightarrow> Inl e | Inr bs \<Rightarrow> Inr (of_nat n # bs)))"

definition json_bytes :: "json \<Rightarrow> go_error + bytes" where
  "json_bytes j =
     (case j of
        JStr s \<Rightarrow>
          (case b64_StdDecode s of
             Some b \<Rightarrow> Inr b
           | None \<Rightarrow> Inl (Foreign ''illegal base64 data''))
      | JNull \<Rightarrow> Inr []
      | JArr js \<Rightarrow> json_u8s js
      | _ \<Rightarrow> Inl json_type_error)"

definition json_string :: "json \<Rightarrow> string \<Rightarrow> go_error + string" where
  "json_string j old =
     (case j of JStr s \<Rightarrow> Inr s | JNull \<Rightarrow> Inr old | _ \<Rightarrow> Inl json_type_error)"

definition json_uint :: "nat \<Rightarrow> json \<Rightarrow> nat \<Rightarrow> go_error + nat" where
  "json_uint bits j old =
     (case j of
        JNum l \<Rightarrow>
          (case parse_uint bits l of Some n \<Rightarrow> Inr n | None \<Rightarrow> Inl json_type_error)
      | JNull \<Rightarrow> Inr old
      | _ \<Rightarrow> Inl json_type_error)"

text \<open>Assign one decoded field.\<close>

definition put_field :: "('a \<Rightarrow> 'r) \<Rightarrow> go_error + 'a \<Rightarrow> go_error + 'r" where
  "put_field f v = (case v of Inl e \<Rightarrow> Inl e | Inr x \<Rightarrow> Inr (f x))"

fun decode_fields ::
    "(string \<Rightarrow> json \<Rightarrow> 'r \<Rightarrow> go_error + 'r) \<Rightarrow> (string \<times> json) list \<Rightarrow> 'r \<Rightarrow> go_error + 'r" where
  "decode_fields f [] r = Inr r"
| "decode_fields f ((k, v) # ms) r =
     (case f (fold_name k) v r of Inl e \<Rightarrow> Inl e | Inr r' \<Rightarrow> decode_fields f ms r')"

definition decode_struct ::
    "(string \<Rightarrow> json \<Rightarrow> 'r \<Rightarrow> go_error + 'r) \<Rightarrow> json \<Rightarrow> 'r \<Rightarrow> go_error + 'r" where
  "decode_struct f j r =
     (case j of
        JObj ms \<Rightarrow> decode_fields f ms r
      | JNull \<Rightarrow> Inr r
      | _ \<Rightarrow> Inl json_type_error)"

definition json_Unmarshal ::
    "(string \<Rightarrow> json \<Rightarrow> 'r \<Rightarrow> go_error + 'r) \<Rightarrow> 'r \<Rightarrow> bytes \<Rightarrow> go_error + 'r" where
  "json_Unmarshal f zero body =
     (case json_parse (str_of body) of
        None \<Rightarrow> Inl json_syntax_error
      | Some j \<Rightarrow> decode_struct f j zero)"

definition json_of_bytes :: "bytes \<Rightarrow> json" where
  "json_of_bytes b = (if b = [] then JNull else JStr (b64_StdEncode b))"

lemma foreign_json_errors [simp]:
  "\<not> errors_is json_type_error t" "\<not> errors_is json_syntax_error t"
  "\<not> is_panic json_type_error" "\<not> is_panic json_syntax_error"
  by (simp_all add: json_type_error_def json_syntax_error_def)

section \<open>Envelopes\<close>

definition blob_zero :: encrypted_blob where
  "blob_zero = \<lparr>blob_Version = 0, blob_Algorithm = [], blob_Nonce = [], blob_Ciphertext = []\<rparr>"

definition blob_json :: "encrypted_blob \<Rightarrow> json" where
  "blob_json b = JObj
     [(''Version'', JNum (dec (unat (blob_Version b)))),
      (''Algorithm'', JStr (blob_Algorithm b)),
      (''Nonce'', json_of_bytes (blob_Nonce b)),
      (''Ciphertext'', json_of_bytes (blob_Ciphertext b))]"

definition blob_field :: "string \<Rightarrow> json \<Rightarrow> encrypted_blob \<Rightarrow> go_error + encrypted_blob" where
  "blob_field k j b =
     (if k = ''VERSION'' then
        put_field (\<lambda>n. b\<lparr>blob_Version := of_nat n\<rparr>) (json_uint 16 j (unat (blob_Version b)))
      else if k = ''ALGORITHM'' then
        put_field (\<lambda>s. b\<lparr>blob_Algorithm := s\<rparr>) (json_string j (blob_Algorithm b))
      else if k = ''NONCE'' then put_field (\<lambda>x. b\<lparr>blob_Nonce := x\<rparr>) (json_bytes j)
      else if k = ''CIPHERTEXT'' then put_field (\<lambda>x. b\<lparr>blob_Ciphertext := x\<rparr>) (json_bytes j)
      else Inr b)"

definition marshal_blob :: "encrypted_blob \<Rightarrow> bytes" where
  "marshal_blob b = bytes_of (json_render (blob_json b))"

definition unmarshal_blob :: "bytes \<Rightarrow> go_error + encrypted_blob" where
  "unmarshal_blob body = json_Unmarshal blob_field blob_zero body"

section \<open>Headers\<close>

definition ref_zero :: kek_reference where
  "ref_zero = \<lparr>ref_CredentialID = [], ref_Salt = [], ref_RPID = []\<rparr>"

definition ref_json :: "kek_reference \<Rightarrow> json" where
  "ref_json r = JObj
     [(''CredentialID'', json_of_bytes (ref_CredentialID r)),
      (''Salt'', json_of_bytes (ref_Salt r)),
      (''RPID'', JStr (ref_RPID r))]"

definition ref_field :: "string \<Rightarrow> json \<Rightarrow> kek_reference \<Rightarrow> go_error + kek_reference" where
  "ref_field k j r =
     (if k = ''CREDENTIALID'' then put_field (\<lambda>x. r\<lparr>ref_CredentialID := x\<rparr>) (json_bytes j)
      else if k = ''SALT'' then put_field (\<lambda>x. r\<lparr>ref_Salt := x\<rparr>) (json_bytes j)
      else if k = ''RPID'' then put_field (\<lambda>s. r\<lparr>ref_RPID := s\<rparr>) (json_string j (ref_RPID r))
      else Inr r)"

definition header_zero :: encryption_header where
  "header_zero =
     \<lparr>hdr_Version = 0, hdr_Revision = 0, hdr_StoreID = [], hdr_KEK = ref_zero,
      hdr_WrappedDEK = blob_zero\<rparr>"

definition header_json :: "encryption_header \<Rightarrow> json" where
  "header_json h = JObj
     [(''Version'', JNum (dec (unat (hdr_Version h)))),
      (''Revision'', JNum (dec (unat (hdr_Revision h)))),
      (''StoreID'', json_of_bytes (hdr_StoreID h)),
      (''KEK'', ref_json (hdr_KEK h)),
      (''WrappedDEK'', blob_json (hdr_WrappedDEK h))]"

definition header_field :: "string \<Rightarrow> json \<Rightarrow> encryption_header \<Rightarrow> go_error + encryption_header"
where
  "header_field k j h =
     (if k = ''VERSION'' then
        put_field (\<lambda>n. h\<lparr>hdr_Version := of_nat n\<rparr>) (json_uint 16 j (unat (hdr_Version h)))
      else if k = ''REVISION'' then
        put_field (\<lambda>n. h\<lparr>hdr_Revision := of_nat n\<rparr>) (json_uint 64 j (unat (hdr_Revision h)))
      else if k = ''STOREID'' then put_field (\<lambda>x. h\<lparr>hdr_StoreID := x\<rparr>) (json_bytes j)
      else if k = ''KEK'' then
        put_field (\<lambda>x. h\<lparr>hdr_KEK := x\<rparr>) (decode_struct ref_field j (hdr_KEK h))
      else if k = ''WRAPPEDDEK'' then
        put_field (\<lambda>x. h\<lparr>hdr_WrappedDEK := x\<rparr>) (decode_struct blob_field j (hdr_WrappedDEK h))
      else Inr h)"

definition marshal_header :: "encryption_header \<Rightarrow> bytes" where
  "marshal_header h = bytes_of (json_render (header_json h))"

definition unmarshal_header :: "bytes \<Rightarrow> go_error + encryption_header" where
  "unmarshal_header body = json_Unmarshal header_field header_zero body"

section \<open>Pebble's stored record\<close>

record stored_record =
  sr_CredentialID :: bytes
  sr_Salt :: bytes
  sr_RPID :: string

definition stored_zero :: stored_record where
  "stored_zero = \<lparr>sr_CredentialID = [], sr_Salt = [], sr_RPID = []\<rparr>"

definition stored_json :: "stored_record \<Rightarrow> json" where
  "stored_json r = JObj
     [(''credential_id'', json_of_bytes (sr_CredentialID r)),
      (''salt'', json_of_bytes (sr_Salt r)),
      (''rp_id'', JStr (sr_RPID r))]"

definition stored_field :: "string \<Rightarrow> json \<Rightarrow> stored_record \<Rightarrow> go_error + stored_record" where
  "stored_field k j r =
     (if k = ''CREDENTIAL_ID'' then put_field (\<lambda>x. r\<lparr>sr_CredentialID := x\<rparr>) (json_bytes j)
      else if k = ''SALT'' then put_field (\<lambda>x. r\<lparr>sr_Salt := x\<rparr>) (json_bytes j)
      else if k = ''RP_ID'' then put_field (\<lambda>s. r\<lparr>sr_RPID := s\<rparr>) (json_string j (sr_RPID r))
      else Inr r)"

definition marshal_stored :: "stored_record \<Rightarrow> bytes" where
  "marshal_stored r = bytes_of (json_render (stored_json r))"

definition unmarshal_stored :: "bytes \<Rightarrow> go_error + stored_record" where
  "unmarshal_stored body = json_Unmarshal stored_field stored_zero body"

section \<open>Reading back\<close>

definition kept_blob_json :: "encrypted_blob \<Rightarrow> encrypted_blob" where
  "kept_blob_json b = b\<lparr>blob_Algorithm := sanitize (blob_Algorithm b)\<rparr>"

definition kept_ref_json :: "kek_reference \<Rightarrow> kek_reference" where
  "kept_ref_json r = r\<lparr>ref_RPID := sanitize (ref_RPID r)\<rparr>"

definition kept_header_json :: "encryption_header \<Rightarrow> encryption_header" where
  "kept_header_json h =
     h\<lparr>hdr_KEK := kept_ref_json (hdr_KEK h), hdr_WrappedDEK := kept_blob_json (hdr_WrappedDEK h)\<rparr>"

lemma json_Unmarshal_render:
  "json_wf j \<Longrightarrow>
     json_Unmarshal f zero (bytes_of (json_render j)) = decode_struct f (json_sanitize j) zero"
  by (simp add: json_Unmarshal_def json_parse_render)

lemma sanitize_ascii: "list_all (\<lambda>c. ord c < 128) s \<Longrightarrow> sanitize s = s"
  by (simp add: list_all_iff valid_utf8_ascii)

lemma b64_std_ascii: "list_all (\<lambda>c. ord c < 128) b64_std"
  by code_simp

lemma ord_b64_std: "c \<in> set b64_std \<Longrightarrow> ord c < 128"
  using b64_std_ascii by (simp add: list_all_iff)

lemma set_b64_enc:
  "\<forall>x \<in> set ns. x < 256 \<Longrightarrow> c \<in> set (b64_enc b64_std ''='' ns) \<Longrightarrow> ord c < 128"
proof (induction b64_std "''=''" ns rule: b64_enc.induct)
  case 1
  then show ?case by simp
next
  case (2 a)
  then show ?case by (auto simp: div_bounds b64_digits ord_b64_std) (simp add: ord_def)
next
  case (3 a b)
  then show ?case by (auto simp: div_bounds b64_digits ord_b64_std) (simp add: ord_def)
next
  case (4 a b d r)
  then show ?case by (auto simp: div_bounds b64_digits ord_b64_std)
qed

lemma sanitize_b64 [simp]: "sanitize (b64_StdEncode b) = b64_StdEncode b"
proof -
  have "\<forall>x \<in> set (map unat b). x < 256"
    using unsigned_less [where ?'b = 8 and ?'a = nat] by auto
  then have "\<forall>c \<in> set (b64_StdEncode b). ord c < 128"
    unfolding b64_StdEncode_def by (metis set_b64_enc)
  then show ?thesis by (intro sanitize_valid valid_utf8_ascii)
qed

lemma json_sanitize_bytes [simp]: "json_sanitize (json_of_bytes b) = json_of_bytes b"
  by (simp add: json_of_bytes_def)

lemma json_wf_bytes [simp]: "json_wf (json_of_bytes b)"
  by (simp add: json_of_bytes_def)

lemma json_bytes_of_bytes [simp]: "json_bytes (json_of_bytes b) = Inr b"
  by (simp add: json_of_bytes_def json_bytes_def)

lemma json_string_JStr [simp]: "json_string (JStr s) old = Inr s"
  by (simp add: json_string_def)

lemma json_uint_dec [simp]: "n < 2 ^ bits \<Longrightarrow> json_uint bits (JNum (dec n)) old = Inr n"
  by (simp add: json_uint_def)

lemma put_field_Inr [simp]: "put_field f (Inr x) = Inr (f x)"
  by (simp add: put_field_def)

lemma unat16_less [simp]: "unat (w :: 16 word) < 65536"
  using unsigned_less [of w] by simp

lemma unat64_less [simp]: "unat (w :: 64 word) < 18446744073709551616"
  using unsigned_less [of w] by simp

text \<open>The member names are ASCII, and fold to upper case.\<close>

lemma key_sanitize [simp]:
  "sanitize ''Version'' = ''Version''" "sanitize ''Algorithm'' = ''Algorithm''"
  "sanitize ''Nonce'' = ''Nonce''" "sanitize ''Ciphertext'' = ''Ciphertext''"
  "sanitize ''Revision'' = ''Revision''" "sanitize ''StoreID'' = ''StoreID''"
  "sanitize ''KEK'' = ''KEK''" "sanitize ''WrappedDEK'' = ''WrappedDEK''"
  "sanitize ''CredentialID'' = ''CredentialID''" "sanitize ''Salt'' = ''Salt''"
  "sanitize ''RPID'' = ''RPID''" "sanitize ''credential_id'' = ''credential_id''"
  "sanitize ''salt'' = ''salt''" "sanitize ''rp_id'' = ''rp_id''"
  by (rule sanitize_ascii, simp add: ord_def)+

lemma key_fold [simp]:
  "fold_name ''Version'' = ''VERSION''" "fold_name ''Algorithm'' = ''ALGORITHM''"
  "fold_name ''Nonce'' = ''NONCE''" "fold_name ''Ciphertext'' = ''CIPHERTEXT''"
  "fold_name ''Revision'' = ''REVISION''" "fold_name ''StoreID'' = ''STOREID''"
  "fold_name ''KEK'' = ''KEK''" "fold_name ''WrappedDEK'' = ''WRAPPEDDEK''"
  "fold_name ''CredentialID'' = ''CREDENTIALID''" "fold_name ''Salt'' = ''SALT''"
  "fold_name ''RPID'' = ''RPID''" "fold_name ''credential_id'' = ''CREDENTIAL_ID''"
  "fold_name ''salt'' = ''SALT''" "fold_name ''rp_id'' = ''RP_ID''"
  by code_simp+

lemma decode_blob_json:
  "decode_struct blob_field (json_sanitize (blob_json b)) blob_zero = Inr (kept_blob_json b)"
  by (simp add: blob_json_def decode_struct_def blob_field_def kept_blob_json_def blob_zero_def)

lemma decode_ref_json:
  "decode_struct ref_field (json_sanitize (ref_json r)) ref_zero = Inr (kept_ref_json r)"
  by (simp add: ref_json_def decode_struct_def ref_field_def kept_ref_json_def ref_zero_def)

lemma decode_header_json:
  "decode_struct header_field (json_sanitize (header_json h)) header_zero
     = Inr (kept_header_json h)"
  by (simp add: header_json_def decode_struct_def [of header_field] header_field_def
      header_zero_def kept_header_json_def decode_blob_json decode_ref_json)

lemma unmarshal_marshal_blob [simp]:
  "unmarshal_blob (marshal_blob b) = Inr (kept_blob_json b)"
proof -
  have "json_wf (blob_json b)" by (simp add: blob_json_def)
  then show ?thesis
    by (simp add: unmarshal_blob_def marshal_blob_def json_Unmarshal_render decode_blob_json)
qed

lemma unmarshal_marshal_header [simp]:
  "unmarshal_header (marshal_header h) = Inr (kept_header_json h)"
proof -
  have "json_wf (header_json h)" by (simp add: header_json_def blob_json_def ref_json_def)
  then show ?thesis
    by (simp add: unmarshal_header_def marshal_header_def json_Unmarshal_render
        decode_header_json)
qed

lemma unmarshal_marshal_stored [simp]:
  "unmarshal_stored (marshal_stored r) = Inr (r\<lparr>sr_RPID := sanitize (sr_RPID r)\<rparr>)"
proof -
  have "json_wf (stored_json r)" by (simp add: stored_json_def)
  moreover have "decode_struct stored_field (json_sanitize (stored_json r)) stored_zero
      = Inr (r\<lparr>sr_RPID := sanitize (sr_RPID r)\<rparr>)"
    by (simp add: stored_json_def decode_struct_def stored_field_def stored_zero_def)
  ultimately show ?thesis
    by (simp add: unmarshal_stored_def marshal_stored_def json_Unmarshal_render)
qed

lemma kept_blob_json_clean: "clean_blob b \<Longrightarrow> kept_blob_json b = b"
  by (simp add: clean_blob_def kept_blob_json_def)

lemma kept_header_json_clean: "clean_header h \<Longrightarrow> kept_header_json h = h"
  by (simp add: clean_header_def kept_header_json_def kept_ref_json_def kept_blob_json_clean)

lemma kept_header_json_sel [simp]:
  "hdr_Version (kept_header_json h) = hdr_Version h"
  "hdr_Revision (kept_header_json h) = hdr_Revision h"
  "hdr_StoreID (kept_header_json h) = hdr_StoreID h"
  "hdr_KEK (kept_header_json h) = kept_ref_json (hdr_KEK h)"
  "hdr_WrappedDEK (kept_header_json h) = kept_blob_json (hdr_WrappedDEK h)"
  by (simp_all add: kept_header_json_def)

end
