(* ===== verification/Pebble_Store.thy ===== *)
theory Pebble_Store
  imports Store_Json "HOL-Library.List_Lexorder"
begin

text \<open>
  The Pebble backend of \<open>pkg/store/pebble/pebble.go\<close>: plain records under their alias, the
  encryption header under a fixed key and envelopes under a prefix, all as JSON.

  The database is a parameter, \<open>pebble_api\<close>: an instance of \<open>*pebble.DB\<close> is a value that the
  writes return updated, keys and values are byte lists, and an iterator is the list of keys it
  visits with the error it ends with. A closed store has no database, and using it is a nil
  dereference. A section under the store's mutex is one step.
\<close>

section \<open>The database\<close>

record 'db pebble_api =
  pb_Open :: "string \<Rightarrow> go_error + 'db"
  pb_Get :: "'db \<Rightarrow> bytes \<Rightarrow> go_error + bytes"
  pb_Set :: "'db \<Rightarrow> bytes \<Rightarrow> bytes \<Rightarrow> go_error option \<times> 'db"
  pb_Delete :: "'db \<Rightarrow> bytes \<Rightarrow> go_error option \<times> 'db"
  pb_Iter :: "'db \<Rightarrow> bytes \<Rightarrow> bytes option \<Rightarrow> go_error + bytes list \<times> go_error option"
  pb_Close :: "'db \<Rightarrow> go_error option"

section \<open>Keys\<close>

definition encryptionHeaderKey :: bytes where
  "encryptionHeaderKey = 0 # bytes_of ''hmacsecret/header''"

definition envelopePrefix :: bytes where
  "envelopePrefix = 0 # bytes_of ''hmacsecret/record/''"

definition envelopeKey :: "string \<Rightarrow> bytes" where
  "envelopeKey alias = envelopePrefix @ bytes_of alias"

text \<open>The loop of \<open>prefixUpperBound\<close>, with \<open>i + 1\<close> bytes left to look at.\<close>

fun upper_loop :: "bytes \<Rightarrow> nat \<Rightarrow> bytes option" where
  "upper_loop upper 0 = None"
| "upper_loop upper (Suc i) =
     (if upper ! i \<noteq> 0xff then Some (take (Suc i) (upper[i := upper ! i + 1]))
      else upper_loop upper i)"

definition prefixUpperBound :: "bytes \<Rightarrow> bytes option" where
  "prefixUpperBound p = upper_loop p (length p)"

section \<open>Calls of the database\<close>

definition db_read :: "'db option \<Rightarrow> ('db \<Rightarrow> go_error + 'r) \<Rightarrow> go_error + 'r" where
  "db_read s f = (case s of None \<Rightarrow> Inl nil_deref | Some db \<Rightarrow> f db)"

definition db_write ::
  "'db option \<Rightarrow> ('db \<Rightarrow> go_error option \<times> 'db) \<Rightarrow> go_error option \<times> 'db option" where
  "db_write s f =
     (case s of None \<Rightarrow> (Some nil_deref, None)
      | Some db \<Rightarrow> (case f db of (e, db') \<Rightarrow> (e, Some db')))"

section \<open>Plain records\<close>

definition pebble_Open :: "'db pebble_api \<Rightarrow> string \<Rightarrow> go_error + 'db option" where
  "pebble_Open P path =
     (if trim_space path = [] then Inl (Errorf ''pebble store: empty path'')
      else (case pb_Open P path of
              Inl e \<Rightarrow> Inl (errorf ''pebble open: %w'' e)
            | Inr db \<Rightarrow> Inr (Some db)))"

definition pebble_Put ::
  "'db pebble_api \<Rightarrow> go_context \<Rightarrow> store_record \<Rightarrow> 'db option \<Rightarrow> go_error option \<times> 'db option" where
  "pebble_Put P ctx r s =
     (case ctx_Err ctx of Some e \<Rightarrow> (Some e, s)
      | None \<Rightarrow>
     (let r = r\<lparr>rec_Alias := trim_space (rec_Alias r)\<rparr>;
          r = r\<lparr>rec_RPID := trim_space (rec_RPID r)\<rparr> in
      case ValidateRecord r of Some e \<Rightarrow> (Some e, s)
      | None \<Rightarrow>
     (let key = bytes_of (rec_Alias r) in
      case db_read s (\<lambda>db. pb_Get P db key) of
        Inr _ \<Rightarrow> (Some (Sentinel StoreErrExists), s)
      | Inl e \<Rightarrow>
          if e \<noteq> Sentinel PebbleErrNotFound then (Some (errorf ''pebble get: %w'' e), s)
          else
         (let body = marshal_stored \<lparr>sr_CredentialID = rec_CredentialID r, sr_Salt = rec_Salt r,
                sr_RPID = rec_RPID r\<rparr> in
          case db_write s (\<lambda>db. pb_Set P db key body) of
            (Some e, s') \<Rightarrow> (Some (errorf ''pebble set: %w'' e), s')
          | (None, s') \<Rightarrow> (None, s')))))"

definition pebble_Get ::
  "'db pebble_api \<Rightarrow> go_context \<Rightarrow> string \<Rightarrow> 'db option \<Rightarrow> go_error + store_record" where
  "pebble_Get P ctx alias s =
     (case ctx_Err ctx of Some e \<Rightarrow> Inl e
      | None \<Rightarrow>
     (let alias = trim_space alias in
      case ValidateAlias alias of Some e \<Rightarrow> Inl e
      | None \<Rightarrow>
     (case db_read s (\<lambda>db. pb_Get P db (bytes_of alias)) of
        Inl e \<Rightarrow>
          if e = Sentinel PebbleErrNotFound then Inl (Sentinel StoreErrNotFound)
          else Inl (errorf ''pebble get: %w'' e)
      | Inr val \<Rightarrow>
     (case unmarshal_stored val of Inl e \<Rightarrow> Inl (errorf ''pebble unmarshal: %w'' e)
      | Inr body \<Rightarrow>
     (let r = \<lparr>rec_Alias = alias, rec_CredentialID = [] @ sr_CredentialID body,
            rec_Salt = [] @ sr_Salt body, rec_RPID = sr_RPID body\<rparr> in
      case ValidateRecord r of Some e \<Rightarrow> Inl e | None \<Rightarrow> Inr r)))))"

definition pebble_Delete ::
  "'db pebble_api \<Rightarrow> go_context \<Rightarrow> string \<Rightarrow> 'db option \<Rightarrow> go_error option \<times> 'db option" where
  "pebble_Delete P ctx alias s =
     (case ctx_Err ctx of Some e \<Rightarrow> (Some e, s)
      | None \<Rightarrow>
     (let alias = trim_space alias in
      case ValidateAlias alias of Some e \<Rightarrow> (Some e, s)
      | None \<Rightarrow>
     (let key = bytes_of alias in
      case db_read s (\<lambda>db. pb_Get P db key) of
        Inl e \<Rightarrow>
          if e = Sentinel PebbleErrNotFound then (Some (Sentinel StoreErrNotFound), s)
          else (Some (errorf ''pebble get: %w'' e), s)
      | Inr _ \<Rightarrow>
         (case db_write s (\<lambda>db. pb_Delete P db key) of
            (Some e, s') \<Rightarrow> (Some (errorf ''pebble delete: %w'' e), s')
          | (None, s') \<Rightarrow> (None, s')))))"

definition pebble_Has ::
  "'db pebble_api \<Rightarrow> go_context \<Rightarrow> string \<Rightarrow> 'db option \<Rightarrow> go_error + bool" where
  "pebble_Has P ctx alias s =
     (case ctx_Err ctx of Some e \<Rightarrow> Inl e
      | None \<Rightarrow>
     (let alias = trim_space alias in
      case ValidateAlias alias of Some e \<Rightarrow> Inl e
      | None \<Rightarrow>
     (case db_read s (\<lambda>db. pb_Get P db (bytes_of alias)) of
        Inl e \<Rightarrow>
          if e = Sentinel PebbleErrNotFound then Inr False
          else Inl (errorf ''pebble get: %w'' e)
      | Inr _ \<Rightarrow> Inr True)))"

definition pebble_List ::
  "'db pebble_api \<Rightarrow> go_context \<Rightarrow> 'db option \<Rightarrow> go_error + string list" where
  "pebble_List P ctx s =
     (case ctx_Err ctx of Some e \<Rightarrow> Inl e
      | None \<Rightarrow>
     (case db_read s (\<lambda>db. pb_Iter P db [] None) of
        Inl e \<Rightarrow> Inl (errorf ''pebble iter: %w'' e)
      | Inr (ks, err) \<Rightarrow>
          (let out = map str_of ks in
           case err of Some e \<Rightarrow> Inl (errorf ''pebble iter: %w'' e) | None \<Rightarrow> Inr out)))"

definition pebble_Close ::
  "'db pebble_api \<Rightarrow> 'db option option \<Rightarrow> go_error option \<times> 'db option option" where
  "pebble_Close P s =
     (case s of None \<Rightarrow> (None, None)
      | Some None \<Rightarrow> (None, Some None)
      | Some (Some db) \<Rightarrow> (pb_Close P db, Some None))"

section \<open>Header and envelopes\<close>

definition pebble_CreateHeader ::
  "'db pebble_api \<Rightarrow> go_context \<Rightarrow> encryption_header \<Rightarrow> 'db option
     \<Rightarrow> go_error option \<times> 'db option" where
  "pebble_CreateHeader P ctx header s =
     (case ctx_Err ctx of Some e \<Rightarrow> (Some e, s)
      | None \<Rightarrow>
     (let body = marshal_header header in
      case db_read s (\<lambda>db. pb_Get P db encryptionHeaderKey) of
        Inr _ \<Rightarrow> (Some (Sentinel StoreErrExists), s)
      | Inl e \<Rightarrow>
          if e \<noteq> Sentinel PebbleErrNotFound
          then (Some (errorf ''pebble get encryption header: %w'' e), s)
          else
         (case db_write s (\<lambda>db. pb_Set P db encryptionHeaderKey body) of
            (Some e, s') \<Rightarrow> (Some (errorf ''pebble set encryption header: %w'' e), s')
          | (None, s') \<Rightarrow> (None, s'))))"

definition pebble_LoadHeader ::
  "'db pebble_api \<Rightarrow> go_context \<Rightarrow> 'db option \<Rightarrow> go_error + encryption_header" where
  "pebble_LoadHeader P ctx s =
     (case ctx_Err ctx of Some e \<Rightarrow> Inl e
      | None \<Rightarrow>
     (case db_read s (\<lambda>db. pb_Get P db encryptionHeaderKey) of
        Inl e \<Rightarrow>
          if e = Sentinel PebbleErrNotFound then Inl (Sentinel ErrNotInitialized)
          else Inl (errorf ''pebble get encryption header: %w'' e)
      | Inr body \<Rightarrow>
     (case unmarshal_header body of
        Inl e \<Rightarrow> Inl (errorf ''pebble unmarshal encryption header: %w'' e)
      | Inr header \<Rightarrow> Inr header)))"

definition pebble_CompareAndSwapHeader ::
  "'db pebble_api \<Rightarrow> go_context \<Rightarrow> 64 word \<Rightarrow> encryption_header \<Rightarrow> 'db option
     \<Rightarrow> go_error option \<times> 'db option" where
  "pebble_CompareAndSwapHeader P ctx expectedRevision nxt s =
     (case ctx_Err ctx of Some e \<Rightarrow> (Some e, s)
      | None \<Rightarrow>
     (let body = marshal_header nxt in
      case db_read s (\<lambda>db. pb_Get P db encryptionHeaderKey) of
        Inl e \<Rightarrow>
          if e = Sentinel PebbleErrNotFound then (Some (Sentinel ErrNotInitialized), s)
          else (Some (errorf ''pebble get encryption header: %w'' e), s)
      | Inr currentBody \<Rightarrow>
     (case unmarshal_header currentBody of
        Inl e \<Rightarrow> (Some (errorf ''pebble unmarshal encryption header: %w'' e), s)
      | Inr current \<Rightarrow>
          if hdr_Revision current \<noteq> expectedRevision then (Some (Sentinel ErrConflict), s)
          else
         (case db_write s (\<lambda>db. pb_Set P db encryptionHeaderKey body) of
            (Some e, s') \<Rightarrow> (Some (errorf ''pebble set encryption header: %w'' e), s')
          | (None, s') \<Rightarrow> (None, s')))))"

definition pebble_PutEnvelope ::
  "'db pebble_api \<Rightarrow> go_context \<Rightarrow> string \<Rightarrow> encrypted_blob \<Rightarrow> 'db option
     \<Rightarrow> go_error option \<times> 'db option" where
  "pebble_PutEnvelope P ctx alias blob s =
     (case ctx_Err ctx of Some e \<Rightarrow> (Some e, s)
      | None \<Rightarrow>
     (let alias = trim_space alias in
      case ValidateAlias alias of Some e \<Rightarrow> (Some e, s)
      | None \<Rightarrow>
     (let body = marshal_blob blob; key = envelopeKey alias in
      case db_read s (\<lambda>db. pb_Get P db key) of
        Inr _ \<Rightarrow> (Some (Sentinel StoreErrExists), s)
      | Inl e \<Rightarrow>
          if e \<noteq> Sentinel PebbleErrNotFound then (Some (errorf ''pebble get envelope: %w'' e), s)
          else
         (case db_write s (\<lambda>db. pb_Set P db key body) of
            (Some e, s') \<Rightarrow> (Some (errorf ''pebble set envelope: %w'' e), s')
          | (None, s') \<Rightarrow> (None, s')))))"

definition pebble_GetEnvelope ::
  "'db pebble_api \<Rightarrow> go_context \<Rightarrow> string \<Rightarrow> 'db option \<Rightarrow> go_error + encrypted_blob" where
  "pebble_GetEnvelope P ctx alias s =
     (case ctx_Err ctx of Some e \<Rightarrow> Inl e
      | None \<Rightarrow>
     (let alias = trim_space alias in
      case ValidateAlias alias of Some e \<Rightarrow> Inl e
      | None \<Rightarrow>
     (case db_read s (\<lambda>db. pb_Get P db (envelopeKey alias)) of
        Inl e \<Rightarrow>
          if e = Sentinel PebbleErrNotFound then Inl (Sentinel StoreErrNotFound)
          else Inl (errorf ''pebble get envelope: %w'' e)
      | Inr body \<Rightarrow>
     (case unmarshal_blob body of
        Inl e \<Rightarrow> Inl (errorf ''pebble unmarshal envelope: %w'' e)
      | Inr blob \<Rightarrow> Inr blob))))"

definition pebble_DeleteEnvelope ::
  "'db pebble_api \<Rightarrow> go_context \<Rightarrow> string \<Rightarrow> 'db option \<Rightarrow> go_error option \<times> 'db option" where
  "pebble_DeleteEnvelope P ctx alias s =
     (case ctx_Err ctx of Some e \<Rightarrow> (Some e, s)
      | None \<Rightarrow>
     (let alias = trim_space alias in
      case ValidateAlias alias of Some e \<Rightarrow> (Some e, s)
      | None \<Rightarrow>
     (let key = envelopeKey alias in
      case db_read s (\<lambda>db. pb_Get P db key) of
        Inl e \<Rightarrow>
          if e = Sentinel PebbleErrNotFound then (Some (Sentinel StoreErrNotFound), s)
          else (Some (errorf ''pebble get envelope: %w'' e), s)
      | Inr _ \<Rightarrow>
         (case db_write s (\<lambda>db. pb_Delete P db key) of
            (Some e, s') \<Rightarrow> (Some (errorf ''pebble delete envelope: %w'' e), s')
          | (None, s') \<Rightarrow> (None, s')))))"

definition pebble_HasEnvelope ::
  "'db pebble_api \<Rightarrow> go_context \<Rightarrow> string \<Rightarrow> 'db option \<Rightarrow> go_error + bool" where
  "pebble_HasEnvelope P ctx alias s =
     (case ctx_Err ctx of Some e \<Rightarrow> Inl e
      | None \<Rightarrow>
     (let alias = trim_space alias in
      case ValidateAlias alias of Some e \<Rightarrow> Inl e
      | None \<Rightarrow>
     (case db_read s (\<lambda>db. pb_Get P db (envelopeKey alias)) of
        Inl e \<Rightarrow>
          if e = Sentinel PebbleErrNotFound then Inr False
          else Inl (errorf ''pebble get envelope: %w'' e)
      | Inr _ \<Rightarrow> Inr True)))"

text \<open>The iteration of \<open>ListEnvelopes\<close>, which stops at the first key without the prefix.\<close>

fun envelope_aliases :: "bytes list \<Rightarrow> string list" where
  "envelope_aliases [] = []"
| "envelope_aliases (key # ks) =
     (if take (length envelopePrefix) key \<noteq> envelopePrefix then []
      else str_of (drop (length envelopePrefix) key) # envelope_aliases ks)"

definition pebble_ListEnvelopes ::
  "'db pebble_api \<Rightarrow> go_context \<Rightarrow> 'db option \<Rightarrow> go_error + string list" where
  "pebble_ListEnvelopes P ctx s =
     (case ctx_Err ctx of Some e \<Rightarrow> Inl e
      | None \<Rightarrow>
     (let upperBound = prefixUpperBound envelopePrefix in
      case db_read s (\<lambda>db. pb_Iter P db envelopePrefix upperBound) of
        Inl e \<Rightarrow> Inl (errorf ''pebble envelope iter: %w'' e)
      | Inr (ks, err) \<Rightarrow>
          (let aliases = envelope_aliases ks in
           case err of Some e \<Rightarrow> Inl (errorf ''pebble envelope iter: %w'' e)
           | None \<Rightarrow> Inr aliases)))"

definition pebble_ops :: "'db pebble_api \<Rightarrow> 'db option store_ops" where
  "pebble_ops P =
     \<lparr>st_Put = pebble_Put P, st_Get = pebble_Get P, st_Delete = pebble_Delete P,
      st_Has = pebble_Has P, st_List = pebble_List P,
      st_Close = (\<lambda>s. case pebble_Close P (Some s) of
        (e, s') \<Rightarrow> (e, (case s' of None \<Rightarrow> s | Some s' \<Rightarrow> s')))\<rparr>"

definition pebble_envelope_ops :: "'db pebble_api \<Rightarrow> 'db option envelope_ops" where
  "pebble_envelope_ops P =
     \<lparr>be_CreateHeader = pebble_CreateHeader P, be_LoadHeader = pebble_LoadHeader P,
      be_CompareAndSwapHeader = pebble_CompareAndSwapHeader P,
      be_PutEnvelope = pebble_PutEnvelope P, be_GetEnvelope = pebble_GetEnvelope P,
      be_DeleteEnvelope = pebble_DeleteEnvelope P, be_HasEnvelope = pebble_HasEnvelope P,
      be_ListEnvelopes = pebble_ListEnvelopes P,
      be_Close = (\<lambda>s. case pebble_Close P (Some s) of
        (e, s') \<Rightarrow> (e, (case s' of None \<Rightarrow> s | Some s' \<Rightarrow> s')))\<rparr>"

lemmas pebble_env_defs = pebble_envelope_ops_def pebble_CreateHeader_def pebble_LoadHeader_def
  pebble_CompareAndSwapHeader_def pebble_PutEnvelope_def pebble_GetEnvelope_def
  pebble_DeleteEnvelope_def pebble_HasEnvelope_def pebble_ListEnvelopes_def

lemmas pebble_rec_defs = pebble_ops_def pebble_Put_def pebble_Get_def pebble_Delete_def
  pebble_Has_def pebble_List_def

end
