(* ===== verification/Pebble_Contract.thy ===== *)
theory Pebble_Contract
  imports Pebble_Store
begin

text \<open>
  The Pebble backend keeps the contracts of \<open>lib/store\<close>: what the laws of the database
  (\<open>pebble_db\<close>) make of the key space, the range that \<open>ListEnvelopes\<close> scans, and the
  interpretations of \<open>envelope_backend\<close> and \<open>store_contract\<close> on the model of the code.
\<close>

section \<open>The range of a prefix\<close>

definition in_range :: "bytes \<Rightarrow> bytes option \<Rightarrow> bytes \<Rightarrow> bool" where
  "in_range lo hi k \<longleftrightarrow> lo \<le> k \<and> (case hi of None \<Rightarrow> True | Some u \<Rightarrow> k < u)"

lemma byte_le_max: "(c :: byte) \<le> 0xff"
proof -
  have "unat c < 256" using unsigned_less [of c] by simp
  then show ?thesis by (simp add: word_le_nat_alt)
qed

lemma byte_succ: "(c :: byte) \<noteq> 0xff \<Longrightarrow> d < c + 1 \<longleftrightarrow> d \<le> c"
proof -
  assume "c \<noteq> 0xff"
  then have "c < 0xff" using byte_le_max [of c] by (simp add: less_le)
  then have "unat c < 255" by (simp add: word_less_nat_alt)
  then have "unat (c + 1) = unat c + 1" by (simp add: unat_word_ariths)
  then show ?thesis by (simp add: word_less_nat_alt word_le_nat_alt less_Suc_eq_le)
qed

lemma le_append: "(p :: bytes) \<le> p @ s"
  by (induction p) simp_all

lemma all_ff_le: "replicate m (0xff :: byte) \<le> k \<Longrightarrow> \<exists>s. k = replicate m 0xff @ s"
proof (induction m arbitrary: k)
  case (Suc m)
  then obtain d k' where k: "k = d # k'" "d = 0xff" "replicate m 0xff \<le> k'"
    using byte_le_max by (cases k) (auto simp: leD)
  with Suc.IH show ?case by fastforce
qed simp

lemma upper_loop_cases:
  assumes "n \<le> length p"
  shows "(upper_loop p n = None \<and> take n p = replicate n 0xff) \<or>
    (\<exists>q c j. take n p = q @ c # replicate j 0xff \<and> c \<noteq> 0xff \<and> upper_loop p n = Some (q @ [c + 1]))"
  using assms
proof (induction n)
  case (Suc n)
  then have tk: "take (Suc n) p = take n p @ [p ! n]" and n: "n < length p"
    by (simp_all add: take_Suc_conv_app_nth)
  show ?case
  proof (cases "p ! n = 0xff")
    case True
    from Suc n consider "upper_loop p n = None" "take n p = replicate n 0xff"
      | q c j where "take n p = q @ c # replicate j 0xff" "c \<noteq> 0xff"
        "upper_loop p n = Some (q @ [c + 1])"
      by auto
    then show ?thesis
    proof cases
      case 1
      with True tk have "take (Suc n) p = replicate (Suc n) 0xff"
        by (simp add: replicate_append_same)
      with 1 True show ?thesis by simp
    next
      case 2
      with True tk have "take (Suc n) p = q @ c # replicate (Suc j) 0xff"
        by (simp add: replicate_append_same)
      with 2 True show ?thesis by (metis upper_loop.simps(2))
    qed
  next
    case False
    then have "upper_loop p (Suc n) = Some (take n p @ [p ! n + 1])"
      using n by (simp add: take_Suc_conv_app_nth)
    with False tk show ?thesis by (metis append_Cons append_Nil replicate_0)
  qed
qed simp

lemma between_prefix:
  assumes "c \<noteq> (0xff :: byte)"
  shows "q @ c # replicate j 0xff \<le> k \<and> k < q @ [c + 1] \<longleftrightarrow>
    (\<exists>s. k = (q @ c # replicate j 0xff) @ s)"
proof (induction q arbitrary: k)
  case Nil
  show ?case
  proof (cases k)
    case (Cons d k')
    then show ?thesis
      using byte_succ [OF assms, of d] byte_succ [OF assms, of c] all_ff_le [of j k'] le_append
      by auto
  qed simp
next
  case (Cons a q)
  then show ?case by (cases k) auto
qed

lemma prefix_range:
  "in_range p (prefixUpperBound p) k \<longleftrightarrow> (\<exists>s. k = p @ s)"
proof -
  consider (none) "prefixUpperBound p = None" "p = replicate (length p) 0xff"
    | (some) q c j where "p = q @ c # replicate j 0xff" "c \<noteq> 0xff"
        "prefixUpperBound p = Some (q @ [c + 1])"
    using upper_loop_cases [of "length p" p] by (auto simp: prefixUpperBound_def)
  then show ?thesis
  proof cases
    case none
    then show ?thesis using all_ff_le [of "length p" k] le_append
      by (auto simp: in_range_def)
  next
    case some
    then show ?thesis using between_prefix by (simp add: in_range_def)
  qed
qed

section \<open>What the keys hold\<close>

definition hdr_in :: "(bytes \<Rightarrow> bytes option) \<Rightarrow> encryption_header option" where
  "hdr_in m =
     (case m encryptionHeaderKey of None \<Rightarrow> None
      | Some v \<Rightarrow> (case unmarshal_header v of Inl _ \<Rightarrow> None | Inr h \<Rightarrow> Some h))"

definition envs_in :: "(bytes \<Rightarrow> bytes option) \<Rightarrow> string \<Rightarrow> encrypted_blob option" where
  "envs_in m a =
     (case m (envelopeKey a) of None \<Rightarrow> None
      | Some v \<Rightarrow> (case unmarshal_blob v of Inl _ \<Rightarrow> None | Inr e \<Rightarrow> Some e))"

definition good_in :: "(bytes \<Rightarrow> bytes option) \<Rightarrow> bool" where
  "good_in m \<longleftrightarrow>
     (\<forall>v. m encryptionHeaderKey = Some v \<longrightarrow> isl (unmarshal_header v) = False) \<and>
     (\<forall>a v. m (envelopeKey a) = Some v \<longrightarrow> isl (unmarshal_blob v) = False)"

lemma envelopeKey_eq [simp]: "envelopeKey a = envelopeKey b \<longleftrightarrow> a = b"
  by (simp add: envelopeKey_def)

lemma header_not_envelope [simp]:
  "encryptionHeaderKey \<noteq> envelopeKey a" "envelopeKey a \<noteq> encryptionHeaderKey"
  by (auto simp: encryptionHeaderKey_def envelopeKey_def envelopePrefix_def bytes_of_def
      byte_of_char_def)

lemma hdr_in_None: "good_in m \<Longrightarrow> hdr_in m = None \<longleftrightarrow> m encryptionHeaderKey = None"
  by (auto simp: hdr_in_def good_in_def split: option.splits sum.splits)

lemma envs_in_None: "good_in m \<Longrightarrow> envs_in m a = None \<longleftrightarrow> m (envelopeKey a) = None"
  by (fastforce simp: envs_in_def good_in_def split: option.splits sum.splits)

lemma put_header_in:
  "good_in m \<Longrightarrow> hdr_in (m(encryptionHeaderKey \<mapsto> marshal_header h)) = Some (kept_header_json h)"
  "good_in m \<Longrightarrow> envs_in (m(encryptionHeaderKey \<mapsto> marshal_header h)) = envs_in m"
  "good_in m \<Longrightarrow> good_in (m(encryptionHeaderKey \<mapsto> marshal_header h))"
  by (auto simp: hdr_in_def envs_in_def good_in_def fun_eq_iff)

lemma put_envelope_in:
  "good_in m \<Longrightarrow> hdr_in (m(envelopeKey a \<mapsto> marshal_blob e)) = hdr_in m"
  "good_in m \<Longrightarrow> envs_in (m(envelopeKey a \<mapsto> marshal_blob e)) = (envs_in m)(a \<mapsto> kept_blob_json e)"
  "good_in m \<Longrightarrow> good_in (m(envelopeKey a \<mapsto> marshal_blob e))"
  by (auto simp: hdr_in_def envs_in_def good_in_def fun_eq_iff)

lemma delete_envelope_in:
  "good_in m \<Longrightarrow> hdr_in (m(envelopeKey a := None)) = hdr_in m"
  "good_in m \<Longrightarrow> envs_in (m(envelopeKey a := None)) = (envs_in m)(a := None)"
  "good_in m \<Longrightarrow> good_in (m(envelopeKey a := None))"
  by (auto simp: hdr_in_def envs_in_def good_in_def fun_eq_iff)

section \<open>The laws of the database\<close>

locale pebble_db =
  fixes P :: "'db pebble_api"
    and kv :: "'db \<Rightarrow> bytes \<Rightarrow> bytes option"
  assumes get_ok: "pb_Get P d k = Inr v \<Longrightarrow> kv d k = Some v"
    and get_absent: "pb_Get P d k = Inl (Sentinel PebbleErrNotFound) \<Longrightarrow> kv d k = None"
    and get_foreign: "pb_Get P d k = Inl e \<Longrightarrow> e \<noteq> Sentinel PebbleErrNotFound \<Longrightarrow> \<not> errors_is e t"
    and set_ok: "pb_Set P d k v = (None, d') \<Longrightarrow> kv d' = (kv d)(k \<mapsto> v)"
    and set_err: "pb_Set P d k v = (Some e, d') \<Longrightarrow>
      (kv d' = kv d \<or> kv d' = (kv d)(k \<mapsto> v)) \<and> \<not> errors_is e t"
    and del_ok: "pb_Delete P d k = (None, d') \<Longrightarrow> kv d' = (kv d)(k := None)"
    and del_err: "pb_Delete P d k = (Some e, d') \<Longrightarrow>
      (kv d' = kv d \<or> kv d' = (kv d)(k := None)) \<and> \<not> errors_is e t"
    and iter_ok: "pb_Iter P d lo hi = Inr (ks, None) \<Longrightarrow>
      sorted ks \<and> distinct ks \<and> set ks = {k \<in> dom (kv d). in_range lo hi k}"

text \<open>The section of the code that inserts a key that is not there, and the one that removes
  a key that is.\<close>

definition insert_new ::
  "'db pebble_api \<Rightarrow> bytes \<Rightarrow> bytes \<Rightarrow> string \<Rightarrow> string \<Rightarrow> 'db option \<Rightarrow> go_error option \<times> 'db option"
  where
  "insert_new P k body m1 m2 s =
     (case db_read s (\<lambda>db. pb_Get P db k) of
        Inr _ \<Rightarrow> (Some (Sentinel StoreErrExists), s)
      | Inl e \<Rightarrow>
          if e \<noteq> Sentinel PebbleErrNotFound then (Some (errorf m1 e), s)
          else
         (case db_write s (\<lambda>db. pb_Set P db k body) of
            (Some e, s') \<Rightarrow> (Some (errorf m2 e), s')
          | (None, s') \<Rightarrow> (None, s')))"

definition remove_old ::
  "'db pebble_api \<Rightarrow> bytes \<Rightarrow> string \<Rightarrow> string \<Rightarrow> 'db option \<Rightarrow> go_error option \<times> 'db option"
  where
  "remove_old P k m1 m2 s =
     (case db_read s (\<lambda>db. pb_Get P db k) of
        Inl e \<Rightarrow>
          if e = Sentinel PebbleErrNotFound then (Some (Sentinel StoreErrNotFound), s)
          else (Some (errorf m1 e), s)
      | Inr _ \<Rightarrow>
         (case db_write s (\<lambda>db. pb_Delete P db k) of
            (Some e, s') \<Rightarrow> (Some (errorf m2 e), s')
          | (None, s') \<Rightarrow> (None, s')))"

context pebble_db
begin

lemma insert_new_cases:
  assumes "insert_new P k body m1 m2 (Some d) = (e, s')"
  shows "\<exists>d'. s' = Some d' \<and>
    (kv d' = kv d \<and> (\<exists>x. e = Some x \<and> (\<forall>t. errors_is x t \<longrightarrow> t = StoreErrExists \<and> kv d k \<noteq> None)) \<or>
     kv d k = None \<and> kv d' = (kv d)(k \<mapsto> body) \<and> (\<forall>x t. e = Some x \<longrightarrow> \<not> errors_is x t))"
proof (cases "pb_Get P d k")
  case (Inr v)
  then show ?thesis using assms get_ok by (auto simp: insert_new_def db_read_def)
next
  case (Inl x)
  show ?thesis
  proof (cases "x = Sentinel PebbleErrNotFound")
    case True
    obtain y d' where s: "pb_Set P d k body = (y, d')" by fastforce
    then have "s' = Some d'" "e = map_option (errorf m2) y"
      using assms Inl True by (auto simp: insert_new_def db_read_def db_write_def split: option.splits)
    then show ?thesis
      using s set_ok set_err get_absent Inl True by (cases y) auto
  next
    case False
    then show ?thesis using assms Inl get_foreign by (auto simp: insert_new_def db_read_def)
  qed
qed

lemma remove_old_cases:
  assumes "remove_old P k m1 m2 (Some d) = (e, s')"
  shows "\<exists>d'. s' = Some d' \<and>
    (kv d' = kv d \<and> (\<exists>x. e = Some x \<and> (\<forall>t. errors_is x t \<longrightarrow> t = StoreErrNotFound \<and> kv d k = None)) \<or>
     kv d k \<noteq> None \<and> kv d' = (kv d)(k := None) \<and> (\<forall>x t. e = Some x \<longrightarrow> \<not> errors_is x t))"
proof (cases "pb_Get P d k")
  case (Inl x)
  then show ?thesis using assms get_absent get_foreign
    by (auto simp: remove_old_def db_read_def split: if_splits)
next
  case (Inr v)
  obtain y d' where s: "pb_Delete P d k = (y, d')" by fastforce
  then have "s' = Some d'" "e = map_option (errorf m2) y"
    using assms Inr by (auto simp: remove_old_def db_read_def db_write_def split: option.splits)
  then show ?thesis
    using s del_ok del_err get_ok Inr by (cases y) auto
qed

end

section \<open>The envelope backend\<close>

definition pebble_hdr :: "('db \<Rightarrow> bytes \<Rightarrow> bytes option) \<Rightarrow> 'db option \<Rightarrow> encryption_header option" where
  "pebble_hdr kv s = (case s of None \<Rightarrow> None | Some d \<Rightarrow> hdr_in (kv d))"

definition pebble_envs ::
  "('db \<Rightarrow> bytes \<Rightarrow> bytes option) \<Rightarrow> 'db option \<Rightarrow> string \<Rightarrow> encrypted_blob option" where
  "pebble_envs kv s = (case s of None \<Rightarrow> (\<lambda>_. None) | Some d \<Rightarrow> envs_in (kv d))"

definition pebble_good :: "('db \<Rightarrow> bytes \<Rightarrow> bytes option) \<Rightarrow> 'db option \<Rightarrow> bool" where
  "pebble_good kv s = (case s of None \<Rightarrow> False | Some d \<Rightarrow> good_in (kv d))"

lemma pebble_abs [simp]:
  "pebble_hdr kv (Some d) = hdr_in (kv d)" "pebble_envs kv (Some d) = envs_in (kv d)"
  "pebble_good kv (Some d) = good_in (kv d)"
  by (simp_all add: pebble_hdr_def pebble_envs_def pebble_good_def)

lemma pebble_goodE: "pebble_good kv s \<Longrightarrow> (\<And>d. s = Some d \<Longrightarrow> good_in (kv d) \<Longrightarrow> R) \<Longrightarrow> R"
  by (cases s) (auto simp: pebble_good_def)

lemma envelope_aliases_prefixed:
  "(\<forall>k \<in> set ks. \<exists>s. k = envelopePrefix @ s) \<Longrightarrow>
     envelope_aliases ks = map (str_of \<circ> drop (length envelopePrefix)) ks"
  by (induction ks) auto

lemma list_aliases:
  assumes "distinct ks" "set ks = {k \<in> dom m. in_range envelopePrefix (prefixUpperBound envelopePrefix) k}"
  shows "distinct (envelope_aliases ks) \<and> set (envelope_aliases ks) = {a. m (envelopeKey a) \<noteq> None}"
proof -
  have ks: "set ks = {k. m k \<noteq> None \<and> (\<exists>s. k = envelopePrefix @ s)}"
    using assms(2) by (auto simp: prefix_range)
  then have al: "envelope_aliases ks = map (str_of \<circ> drop (length envelopePrefix)) ks"
    by (intro envelope_aliases_prefixed) auto
  have key: "envelopeKey ((str_of \<circ> drop (length envelopePrefix)) k) = k" if "k \<in> set ks" for k
    using that ks by (auto simp: envelopeKey_def)
  have "inj_on (str_of \<circ> drop (length envelopePrefix)) (set ks)"
    by (rule inj_on_inverseI [of _ envelopeKey]) (rule key)
  then have "distinct (envelope_aliases ks)" using assms(1) al by (simp add: distinct_map)
  moreover have "a \<in> set (envelope_aliases ks) \<longleftrightarrow> m (envelopeKey a) \<noteq> None" for a
  proof
    assume "a \<in> set (envelope_aliases ks)"
    then obtain k where "k \<in> set ks" "a = (str_of \<circ> drop (length envelopePrefix)) k"
      using al by auto
    then show "m (envelopeKey a) \<noteq> None" using key ks by auto
  next
    assume "m (envelopeKey a) \<noteq> None"
    then have "envelopeKey a \<in> set ks" using ks by (auto simp: envelopeKey_def)
    moreover have "a = (str_of \<circ> drop (length envelopePrefix)) (envelopeKey a)"
      by (simp add: envelopeKey_def)
    ultimately show "a \<in> set (envelope_aliases ks)" using al by auto
  qed
  ultimately show ?thesis by blast
qed

end
