(* ===== verification/Pebble_Backend.thy ===== *)
theory Pebble_Backend
  imports Pebble_Contract
begin

text \<open>
  The interpretations: over every database with the laws of \<open>pebble_db\<close>, the methods of
  \<open>pkg/store/pebble\<close> are an \<open>EnvelopeBackend\<close> and, on a database of plain records, a \<open>Store\<close>.
  \<open>mem_db\<close>, an association list, has those laws.
\<close>

section \<open>Methods as sections on one key\<close>

lemma CreateHeader_eq:
  "pebble_CreateHeader P c h s =
     (case ctx_Err c of Some e \<Rightarrow> (Some e, s)
      | None \<Rightarrow> insert_new P encryptionHeaderKey (marshal_header h)
          ''pebble get encryption header: %w'' ''pebble set encryption header: %w'' s)"
  unfolding pebble_CreateHeader_def insert_new_def Let_def ..

lemma PutEnvelope_eq:
  "pebble_PutEnvelope P c a b s =
     (case ctx_Err c of Some e \<Rightarrow> (Some e, s)
      | None \<Rightarrow>
          if trim_space a = [] then (Some (Sentinel StoreErrInvalidAlias), s)
          else insert_new P (envelopeKey (trim_space a)) (marshal_blob b)
            ''pebble get envelope: %w'' ''pebble set envelope: %w'' s)"
  by (simp add: pebble_PutEnvelope_def insert_new_def Let_def ValidateAlias_def
      split: option.split)

lemma DeleteEnvelope_eq:
  "pebble_DeleteEnvelope P c a s =
     (case ctx_Err c of Some e \<Rightarrow> (Some e, s)
      | None \<Rightarrow>
          if trim_space a = [] then (Some (Sentinel StoreErrInvalidAlias), s)
          else remove_old P (envelopeKey (trim_space a))
            ''pebble get envelope: %w'' ''pebble delete envelope: %w'' s)"
  by (simp add: pebble_DeleteEnvelope_def remove_old_def Let_def ValidateAlias_def
      split: option.split)

context pebble_db
begin

lemma create_step:
  assumes "pebble_good kv s" "pebble_CreateHeader P c h s = (e, s')"
  shows "pebble_good kv s' \<and> pebble_envs kv s' = pebble_envs kv s \<and>
    (pebble_hdr kv s' = pebble_hdr kv s \<and> e \<noteq> None \<or>
     pebble_hdr kv s = None \<and> pebble_hdr kv s' = Some (kept_header_json h))"
proof -
  obtain d where s: "s = Some d" "good_in (kv d)" using assms(1) by (rule pebble_goodE)
  show ?thesis
  proof (cases "ctx_Err c")
    case (Some x)
    then show ?thesis using assms s by (auto simp: CreateHeader_eq)
  next
    case None
    then have "insert_new P encryptionHeaderKey (marshal_header h)
        ''pebble get encryption header: %w'' ''pebble set encryption header: %w'' (Some d) = (e, s')"
      using assms s by (simp add: CreateHeader_eq)
    from insert_new_cases [OF this] show ?thesis
      using s put_header_in [OF s(2)] hdr_in_None [OF s(2)]
      by (auto simp: hdr_in_def envs_in_def good_in_def)
  qed
qed

lemma load_step:
  assumes "pebble_good kv s"
  shows "pebble_LoadHeader P c s = Inr h \<Longrightarrow> pebble_hdr kv s = Some h"
    and "pebble_LoadHeader P c s = Inl x \<Longrightarrow> errors_is x ErrNotInitialized \<Longrightarrow> pebble_hdr kv s = None"
proof -
  obtain d where s: "s = Some d" "good_in (kv d)" using assms by (rule pebble_goodE)
  { assume "pebble_LoadHeader P c s = Inr h"
    then show "pebble_hdr kv s = Some h"
      using s get_ok by (auto simp: pebble_LoadHeader_def db_read_def hdr_in_def
          split: option.splits sum.splits if_splits) }
  { assume "pebble_LoadHeader P c s = Inl x" "errors_is x ErrNotInitialized"
    then show "pebble_hdr kv s = None"
      using s get_ok get_absent get_foreign
      by (auto simp: pebble_LoadHeader_def db_read_def hdr_in_def ctx_Err_foreign
          split: option.splits sum.splits if_splits) }
qed

lemma cas_step:
  assumes "pebble_good kv s" "pebble_CompareAndSwapHeader P c old h s = (e, s')"
  shows "pebble_good kv s' \<and> pebble_envs kv s' = pebble_envs kv s \<and>
    (pebble_hdr kv s' = pebble_hdr kv s \<and> e \<noteq> None \<and>
       (errors_is (the e) ErrConflict \<longrightarrow> map_option hdr_Revision (pebble_hdr kv s) \<noteq> Some old) \<or>
     map_option hdr_Revision (pebble_hdr kv s) = Some old \<and>
       pebble_hdr kv s' = Some (kept_header_json h) \<and> (\<forall>x t. e = Some x \<longrightarrow> \<not> errors_is x t))"
proof -
  obtain d where s: "s = Some d" "good_in (kv d)" using assms(1) by (rule pebble_goodE)
  show ?thesis
  proof (cases "ctx_Err c")
    case (Some x)
    then show ?thesis using assms s by (auto simp: pebble_CompareAndSwapHeader_def ctx_Err_foreign)
  next
    case None
    note c = None
    show ?thesis
    proof (cases "pb_Get P d encryptionHeaderKey")
      case (Inl x)
      then show ?thesis using assms s c get_foreign [OF Inl]
        by (auto simp: pebble_CompareAndSwapHeader_def db_read_def split: if_splits)
    next
      case (Inr v)
      then have v: "kv d encryptionHeaderKey = Some v" by (rule get_ok)
      then obtain cur where cur: "unmarshal_header v = Inr cur"
        using s(2) by (cases "unmarshal_header v") (auto simp: good_in_def)
      have h: "pebble_hdr kv s = Some cur" using s v cur by (simp add: hdr_in_def)
      obtain y d' where st: "pb_Set P d encryptionHeaderKey (marshal_header h) = (y, d')" by fastforce
      show ?thesis
      proof (cases "hdr_Revision cur = old")
        case False
        then show ?thesis using assms s c Inr cur h
          by (auto simp: pebble_CompareAndSwapHeader_def db_read_def)
      next
        case True
        then have "s' = Some d'" "e = map_option (errorf ''pebble set encryption header: %w'') y"
          using assms s c Inr cur st
          by (auto simp: pebble_CompareAndSwapHeader_def db_read_def db_write_def Let_def
              split: option.splits)
        moreover have "kv d' = (kv d)(encryptionHeaderKey \<mapsto> marshal_header h) \<or>
            kv d' = kv d \<and> y \<noteq> None"
          using set_ok set_err st by (cases y) (simp, blast)
        moreover have "\<not> errors_is x t" if "y = Some x" for x t using set_err st that by auto
        ultimately show ?thesis
          using s h True put_header_in [OF s(2)] by (auto simp: hdr_in_def envs_in_def good_in_def)
      qed
    qed
  qed
qed

lemma putenv_step:
  assumes "pebble_good kv s" "pebble_PutEnvelope P c a b s = (e, s')"
  shows "pebble_good kv s' \<and> pebble_hdr kv s' = pebble_hdr kv s \<and>
    (pebble_envs kv s' = pebble_envs kv s \<and> e \<noteq> None \<and>
       (errors_is (the e) StoreErrExists \<longrightarrow> pebble_envs kv s (trim_space a) \<noteq> None) \<or>
     trim_space a \<noteq> [] \<and> pebble_envs kv s (trim_space a) = None \<and>
       pebble_envs kv s' = (pebble_envs kv s)(trim_space a \<mapsto> kept_blob_json b) \<and>
       (\<forall>x t. e = Some x \<longrightarrow> \<not> errors_is x t))"
proof -
  obtain d where s: "s = Some d" "good_in (kv d)" using assms(1) by (rule pebble_goodE)
  show ?thesis
  proof (cases "ctx_Err c = None \<and> trim_space a \<noteq> []")
    case False
    then show ?thesis using assms s
      by (auto simp: PutEnvelope_eq ctx_Err_foreign split: option.splits if_splits)
  next
    case True
    then have "insert_new P (envelopeKey (trim_space a)) (marshal_blob b)
        ''pebble get envelope: %w'' ''pebble set envelope: %w'' (Some d) = (e, s')"
      using assms s by (simp add: PutEnvelope_eq)
    from insert_new_cases [OF this] show ?thesis
      using True s put_envelope_in [OF s(2)] envs_in_None [OF s(2)]
      by (auto simp: hdr_in_def envs_in_def good_in_def)
  qed
qed

lemma delenv_step:
  assumes "pebble_good kv s" "pebble_DeleteEnvelope P c a s = (e, s')"
  shows "pebble_good kv s' \<and> pebble_hdr kv s' = pebble_hdr kv s \<and>
    (pebble_envs kv s' = pebble_envs kv s \<and> e \<noteq> None \<and>
       (errors_is (the e) StoreErrNotFound \<longrightarrow> pebble_envs kv s (trim_space a) = None) \<or>
     pebble_envs kv s (trim_space a) \<noteq> None \<and>
       pebble_envs kv s' = (pebble_envs kv s)(trim_space a := None) \<and>
       (\<forall>x t. e = Some x \<longrightarrow> \<not> errors_is x t))"
proof -
  obtain d where s: "s = Some d" "good_in (kv d)" using assms(1) by (rule pebble_goodE)
  show ?thesis
  proof (cases "ctx_Err c = None \<and> trim_space a \<noteq> []")
    case False
    then show ?thesis using assms s
      by (auto simp: DeleteEnvelope_eq ctx_Err_foreign split: option.splits if_splits)
  next
    case True
    then have "remove_old P (envelopeKey (trim_space a))
        ''pebble get envelope: %w'' ''pebble delete envelope: %w'' (Some d) = (e, s')"
      using assms s by (simp add: DeleteEnvelope_eq)
    from remove_old_cases [OF this] show ?thesis
      using True s delete_envelope_in [OF s(2)] envs_in_None [OF s(2)]
      by (auto simp: hdr_in_def envs_in_def good_in_def)
  qed
qed

lemma getenv_step:
  assumes "pebble_good kv s"
  shows "pebble_GetEnvelope P c a s = Inr b \<Longrightarrow> pebble_envs kv s (trim_space a) = Some b"
    and "pebble_GetEnvelope P c a s = Inl x \<Longrightarrow> errors_is x StoreErrNotFound \<Longrightarrow>
      pebble_envs kv s (trim_space a) = None"
proof -
  obtain d where s: "s = Some d" "good_in (kv d)" using assms by (rule pebble_goodE)
  { assume "pebble_GetEnvelope P c a s = Inr b"
    then show "pebble_envs kv s (trim_space a) = Some b"
      using s get_ok by (auto simp: pebble_GetEnvelope_def Let_def db_read_def envs_in_def
          split: option.splits sum.splits if_splits) }
  { assume "pebble_GetEnvelope P c a s = Inl x" "errors_is x StoreErrNotFound"
    then show "pebble_envs kv s (trim_space a) = None"
      using s get_ok get_absent get_foreign
      by (auto simp: pebble_GetEnvelope_def Let_def db_read_def envs_in_def ctx_Err_foreign
          split: option.splits sum.splits if_splits) }
qed

lemma hasenv_step:
  assumes "pebble_good kv s" "pebble_HasEnvelope P c a s = Inr v"
  shows "v = (pebble_envs kv s (trim_space a) \<noteq> None)"
proof -
  obtain d where s: "s = Some d" "good_in (kv d)" using assms(1) by (rule pebble_goodE)
  then have "v = (kv d (envelopeKey (trim_space a)) \<noteq> None)"
    using assms(2) get_ok get_absent
    by (auto simp: pebble_HasEnvelope_def Let_def db_read_def split: option.splits sum.splits if_splits)
  then show ?thesis using s envs_in_None [OF s(2)] by simp
qed

lemma listenv_step:
  assumes "pebble_good kv s" "pebble_ListEnvelopes P c s = Inr as"
  shows "distinct as \<and> set as = dom (pebble_envs kv s)"
proof -
  obtain d where s: "s = Some d" "good_in (kv d)" using assms(1) by (rule pebble_goodE)
  obtain ks where ks: "pb_Iter P d envelopePrefix (prefixUpperBound envelopePrefix) = Inr (ks, None)"
      "as = envelope_aliases ks"
    using assms(2) s by (auto simp: pebble_ListEnvelopes_def Let_def db_read_def
        split: option.splits sum.splits prod.splits)
  then show ?thesis
    using list_aliases [of ks "kv d"] iter_ok [OF ks(1)] s envs_in_None [OF s(2)]
    by (auto simp: dom_def)
qed

sublocale env: envelope_backend "pebble_envelope_ops P" "pebble_hdr kv" "pebble_envs kv"
  kept_header_json kept_blob_json "pebble_good kv"
proof (unfold_locales, goal_cases)
  case (1 h) then show ?case by (rule kept_header_json_clean)
next
  case (2 e) then show ?case by (rule kept_blob_json_clean)
next
  case (3 b c h b') then show ?case using create_step [of b c h None b'] by (simp add: pebble_envelope_ops_def)
next
  case (4 b c h x b') then show ?case using create_step [of b c h "Some x" b'] by (auto simp: pebble_envelope_ops_def)
next
  case (5 b c h) then show ?case using load_step(1) by (simp add: pebble_envelope_ops_def)
next
  case (6 b c x) then show ?case using load_step(2) by (simp add: pebble_envelope_ops_def)
next
  case (7 b c old h b') then show ?case using cas_step [of b c old h None b'] by (simp add: pebble_envelope_ops_def)
next
  case (8 b c old h x b') then show ?case using cas_step [of b c old h "Some x" b'] by (auto simp: pebble_envelope_ops_def)
next
  case (9 b c old h x b') then show ?case using cas_step [of b c old h "Some x" b'] by (auto simp: pebble_envelope_ops_def)
next
  case (10 b c a e b') then show ?case using putenv_step [of b c a e None b'] by (simp add: pebble_envelope_ops_def)
next
  case (11 b c a e x b') then show ?case using putenv_step [of b c a e "Some x" b'] by (auto simp: pebble_envelope_ops_def)
next
  case (12 b c a e x b') then show ?case using putenv_step [of b c a e "Some x" b'] by (auto simp: pebble_envelope_ops_def)
next
  case (13 b c a e) then show ?case using getenv_step(1) by (simp add: pebble_envelope_ops_def)
next
  case (14 b c a x) then show ?case using getenv_step(2) by (simp add: pebble_envelope_ops_def)
next
  case (15 b c a b') then show ?case using delenv_step [of b c a None b'] by (simp add: pebble_envelope_ops_def)
next
  case (16 b c a x b') then show ?case using delenv_step [of b c a "Some x" b'] by (auto simp: pebble_envelope_ops_def)
next
  case (17 b c a x b') then show ?case using delenv_step [of b c a "Some x" b'] by (auto simp: pebble_envelope_ops_def)
next
  case (18 b c a v) then show ?case using hasenv_step by (simp add: pebble_envelope_ops_def)
next
  case (19 b c as) then show ?case using listenv_step by (simp add: pebble_envelope_ops_def)
qed

lemma backend: "envelope_backend (pebble_envelope_ops P) (pebble_hdr kv) (pebble_envs kv)
    kept_header_json kept_blob_json (pebble_good kv)"
  by (rule env.envelope_backend_axioms)

end

end
