(* ===== verification/Pebble_Plain.thy ===== *)
theory Pebble_Plain
  imports Pebble_Backend
begin

text \<open>
  Pebble as a \<open>Store\<close> of plain records (a database that holds nothing else), what it needs to
  answer, and an in-memory database with all the laws.
\<close>

section \<open>Plain records\<close>

definition plain_record :: "bytes \<Rightarrow> bytes \<Rightarrow> store_record option" where
  "plain_record k v =
     (case unmarshal_stored v of Inl _ \<Rightarrow> None
      | Inr body \<Rightarrow> Some \<lparr>rec_Alias = str_of k, rec_CredentialID = sr_CredentialID body,
          rec_Salt = sr_Salt body, rec_RPID = sr_RPID body\<rparr>)"

definition plain_recs :: "('db \<Rightarrow> bytes \<Rightarrow> bytes option) \<Rightarrow> 'db option \<Rightarrow> string \<Rightarrow> store_record option"
  where
  "plain_recs kv s a =
     (case s of None \<Rightarrow> None
      | Some d \<Rightarrow> Option.bind (kv d (bytes_of a)) (plain_record (bytes_of a)))"

definition plain_ok :: "('db \<Rightarrow> bytes \<Rightarrow> bytes option) \<Rightarrow> 'db option \<Rightarrow> bool" where
  "plain_ok kv s =
     (case s of None \<Rightarrow> False
      | Some d \<Rightarrow> \<forall>k v. kv d k = Some v \<longrightarrow>
          (\<exists>r. plain_record k v = Some r \<and> valid_record r))"

definition plain_stored :: "store_record \<Rightarrow> store_record" where
  "plain_stored r = (norm_record r)\<lparr>rec_RPID := sanitize (trim_space (rec_RPID r))\<rparr>"

lemma plain_stored_record:
  "plain_record (bytes_of (trim_space (rec_Alias r))) (marshal_stored \<lparr>sr_CredentialID = rec_CredentialID r,
     sr_Salt = rec_Salt r, sr_RPID = trim_space (rec_RPID r)\<rparr>) = Some (plain_stored r)"
  by (simp add: plain_record_def plain_stored_def norm_record_def)

lemma sanitize_eq_Nil [simp]: "sanitize s = [] \<longleftrightarrow> s = []"
proof (cases "utf8_len s = 0")
  case True
  then show ?thesis by (cases "s = []") (simp_all add: sanitize_bad repl_def)
next
  case False
  then show ?thesis by (cases s) (simp_all add: sanitize_good)
qed

lemma valid_plain_stored: "valid_record (norm_record r) \<Longrightarrow> valid_record (plain_stored r)"
  by (simp add: valid_record_def plain_stored_def)

lemma plain_okD:
  "plain_ok kv s \<Longrightarrow> \<exists>d. s = Some d \<and>
     (\<forall>k v. kv d k = Some v \<longrightarrow> (\<exists>r. plain_record k v = Some r \<and> valid_record r))"
  by (auto simp: plain_ok_def split: option.splits)

lemma plain_recs_None:
  assumes "plain_ok kv (Some d)"
  shows "plain_recs kv (Some d) a = None \<longleftrightarrow> kv d (bytes_of a) = None"
proof (cases "kv d (bytes_of a)")
  case (Some v)
  then obtain r where "plain_record (bytes_of a) v = Some r" using plain_okD [OF assms] by auto
  with Some show ?thesis by (simp add: plain_recs_def)
qed (simp add: plain_recs_def)

lemma pebble_Put_eq:
  "pebble_Put P c r s =
     (case ctx_Err c of Some e \<Rightarrow> (Some e, s)
      | None \<Rightarrow>
     (case ValidateRecord (norm_record r) of Some e \<Rightarrow> (Some e, s)
      | None \<Rightarrow> insert_new P (bytes_of (trim_space (rec_Alias r)))
          (marshal_stored \<lparr>sr_CredentialID = rec_CredentialID r, sr_Salt = rec_Salt r,
             sr_RPID = trim_space (rec_RPID r)\<rparr>) ''pebble get: %w'' ''pebble set: %w'' s))"
proof -
  have n: "r\<lparr>rec_Alias := trim_space (rec_Alias r),
     rec_RPID := trim_space (rec_RPID (r\<lparr>rec_Alias := trim_space (rec_Alias r)\<rparr>))\<rparr> = norm_record r"
    by (simp add: norm_record_def)
  show ?thesis unfolding pebble_Put_def insert_new_def Let_def n norm_record_sel ..
qed

lemma pebble_Delete_eq:
  "pebble_Delete P c a s =
     (case ctx_Err c of Some e \<Rightarrow> (Some e, s)
      | None \<Rightarrow>
          if trim_space a = [] then (Some (Sentinel StoreErrInvalidAlias), s)
          else remove_old P (bytes_of (trim_space a)) ''pebble get: %w'' ''pebble delete: %w'' s)"
  by (simp add: pebble_Delete_def remove_old_def Let_def ValidateAlias_def split: option.split)

context pebble_db
begin

lemma plain_put_step:
  assumes "plain_ok kv s" "pebble_Put P c r s = (e, s')"
  shows "plain_ok kv s' \<and>
    (plain_recs kv s' = plain_recs kv s \<and> e \<noteq> None \<and>
       (errors_is (the e) StoreErrExists \<longrightarrow> plain_recs kv s (trim_space (rec_Alias r)) \<noteq> None) \<or>
     valid_record (norm_record r) \<and> plain_recs kv s (trim_space (rec_Alias r)) = None \<and>
       plain_recs kv s' = (plain_recs kv s)(trim_space (rec_Alias r) \<mapsto> plain_stored r) \<and>
       (\<forall>x t. e = Some x \<longrightarrow> \<not> errors_is x t))"
proof -
  obtain d where s: "s = Some d"
      and ok: "\<forall>k v. kv d k = Some v \<longrightarrow> (\<exists>r. plain_record k v = Some r \<and> valid_record r)"
    using plain_okD [OF assms(1)] by blast
  show ?thesis
  proof (cases "ctx_Err c = None \<and> valid_record (norm_record r)")
    case False
    then have "s' = s" "e \<noteq> None" "\<not> errors_is (the e) StoreErrExists"
      using assms
      by (auto simp: pebble_Put_eq ctx_Err_foreign ValidateRecord_def valid_record_def
          split: option.splits if_splits)
    with assms(1) show ?thesis by simp
  next
    case True
    let ?k = "bytes_of (trim_space (rec_Alias r))"
    let ?v = "marshal_stored \<lparr>sr_CredentialID = rec_CredentialID r, sr_Salt = rec_Salt r,
       sr_RPID = trim_space (rec_RPID r)\<rparr>"
    have "insert_new P ?k ?v ''pebble get: %w'' ''pebble set: %w'' (Some d) = (e, s')"
      using assms(2) True s by (simp add: pebble_Put_eq)
    from insert_new_cases [OF this] obtain d' where d': "s' = Some d'" and
      cs: "kv d' = kv d \<and> (\<exists>x. e = Some x \<and> (\<forall>t. errors_is x t \<longrightarrow> t = StoreErrExists \<and> kv d ?k \<noteq> None)) \<or>
        kv d ?k = None \<and> kv d' = (kv d)(?k \<mapsto> ?v) \<and> (\<forall>x t. e = Some x \<longrightarrow> \<not> errors_is x t)"
      by blast
    have none: "plain_recs kv s (trim_space (rec_Alias r)) = None \<longleftrightarrow> kv d ?k = None"
      using plain_recs_None [of kv d] assms(1) s by simp
    from cs show ?thesis
    proof
      assume a: "kv d' = kv d \<and> (\<exists>x. e = Some x \<and> (\<forall>t. errors_is x t \<longrightarrow> t = StoreErrExists \<and> kv d ?k \<noteq> None))"
      then have "plain_recs kv s' = plain_recs kv s" "plain_ok kv s'"
        using assms(1) s d' by (auto simp: plain_recs_def plain_ok_def fun_eq_iff)
      with a none show ?thesis by auto
    next
      assume a: "kv d ?k = None \<and> kv d' = (kv d)(?k \<mapsto> ?v) \<and> (\<forall>x t. e = Some x \<longrightarrow> \<not> errors_is x t)"
      then have "plain_recs kv s' = (plain_recs kv s)(trim_space (rec_Alias r) \<mapsto> plain_stored r)"
        using s d' plain_stored_record [of r] by (auto simp: plain_recs_def fun_eq_iff)
      moreover have "plain_ok kv s'"
        using a ok d' plain_stored_record [of r] valid_plain_stored [of r] True
        by (auto simp: plain_ok_def split: option.splits)
      ultimately show ?thesis using a none True by auto
    qed
  qed
qed

lemma plain_delete_step:
  assumes "plain_ok kv s" "pebble_Delete P c a s = (e, s')"
  shows "plain_ok kv s' \<and>
    (plain_recs kv s' = plain_recs kv s \<and> e \<noteq> None \<and>
       (errors_is (the e) StoreErrNotFound \<longrightarrow> plain_recs kv s (trim_space a) = None) \<or>
     plain_recs kv s (trim_space a) \<noteq> None \<and>
       plain_recs kv s' = (plain_recs kv s)(trim_space a := None) \<and>
       (\<forall>x t. e = Some x \<longrightarrow> \<not> errors_is x t))"
proof -
  obtain d where s: "s = Some d"
      and ok: "\<forall>k v. kv d k = Some v \<longrightarrow> (\<exists>r. plain_record k v = Some r \<and> valid_record r)"
    using plain_okD [OF assms(1)] by blast
  show ?thesis
  proof (cases "ctx_Err c = None \<and> trim_space a \<noteq> []")
    case False
    then show ?thesis using assms
      by (auto simp: pebble_Delete_eq ctx_Err_foreign split: option.splits if_splits)
  next
    case True
    let ?k = "bytes_of (trim_space a)"
    have "remove_old P ?k ''pebble get: %w'' ''pebble delete: %w'' (Some d) = (e, s')"
      using assms(2) True s by (simp add: pebble_Delete_eq)
    from remove_old_cases [OF this] obtain d' where d': "s' = Some d'" and
      cs: "kv d' = kv d \<and> (\<exists>x. e = Some x \<and> (\<forall>t. errors_is x t \<longrightarrow> t = StoreErrNotFound \<and> kv d ?k = None)) \<or>
        kv d ?k \<noteq> None \<and> kv d' = (kv d)(?k := None) \<and> (\<forall>x t. e = Some x \<longrightarrow> \<not> errors_is x t)"
      by blast
    have none: "plain_recs kv s (trim_space a) = None \<longleftrightarrow> kv d ?k = None"
      using plain_recs_None [of kv d] assms(1) s by simp
    from cs show ?thesis
    proof
      assume b: "kv d' = kv d \<and> (\<exists>x. e = Some x \<and> (\<forall>t. errors_is x t \<longrightarrow> t = StoreErrNotFound \<and> kv d ?k = None))"
      then have "plain_recs kv s' = plain_recs kv s" "plain_ok kv s'"
        using assms(1) s d' by (auto simp: plain_recs_def plain_ok_def fun_eq_iff)
      with b none show ?thesis by auto
    next
      assume b: "kv d ?k \<noteq> None \<and> kv d' = (kv d)(?k := None) \<and> (\<forall>x t. e = Some x \<longrightarrow> \<not> errors_is x t)"
      then have "plain_recs kv s' = (plain_recs kv s)(trim_space a := None)"
        using s d' by (auto simp: plain_recs_def fun_eq_iff)
      moreover have "plain_ok kv s'"
        using b assms(1) s d' by (auto simp: plain_ok_def)
      ultimately show ?thesis using b none True by auto
    qed
  qed
qed

lemma plain_get_step:
  assumes "plain_ok kv s"
  shows "pebble_Get P c a s = Inr r \<Longrightarrow> plain_recs kv s (trim_space a) = Some r"
    and "pebble_Get P c a s = Inl x \<Longrightarrow> errors_is x StoreErrNotFound \<Longrightarrow>
      plain_recs kv s (trim_space a) = None"
proof -
  obtain d where s: "s = Some d"
      and ok: "\<forall>k v. kv d k = Some v \<longrightarrow> (\<exists>r. plain_record k v = Some r \<and> valid_record r)"
    using plain_okD [OF assms] by blast
  { assume "pebble_Get P c a s = Inr r"
    then show "plain_recs kv s (trim_space a) = Some r"
      using s get_ok by (auto simp: pebble_Get_def Let_def db_read_def plain_recs_def plain_record_def
          split: option.splits sum.splits if_splits) }
  { assume g: "pebble_Get P c a s = Inl x" "errors_is x StoreErrNotFound"
    have "pb_Get P d (bytes_of (trim_space a)) = Inl (Sentinel PebbleErrNotFound)"
    proof (cases "pb_Get P d (bytes_of (trim_space a))")
      case (Inl y)
      then show ?thesis using g s get_foreign [OF Inl]
        by (auto simp: pebble_Get_def Let_def db_read_def ctx_Err_foreign
            split: option.splits if_splits)
    next
      case (Inr v)
      obtain r where "plain_record (bytes_of (trim_space a)) v = Some r" "valid_record r"
        using ok get_ok [OF Inr] by blast
      then show ?thesis using g s Inr
        by (auto simp: pebble_Get_def Let_def db_read_def ctx_Err_foreign plain_record_def
            split: option.splits if_splits sum.splits)
    qed
    then show "plain_recs kv s (trim_space a) = None"
      using s get_absent by (simp add: plain_recs_def) }
qed

lemma plain_has_step:
  assumes "plain_ok kv s" "pebble_Has P c a s = Inr v"
  shows "v = (plain_recs kv s (trim_space a) \<noteq> None)"
proof -
  obtain d where s: "s = Some d" using plain_okD [OF assms(1)] by blast
  then have "v = (kv d (bytes_of (trim_space a)) \<noteq> None)"
    using assms(2) get_ok get_absent
    by (auto simp: pebble_Has_def Let_def db_read_def split: option.splits sum.splits if_splits)
  then show ?thesis using s assms(1) plain_recs_None [of kv d "trim_space a"] by (simp del: not_None_eq)
qed

lemma plain_list_step:
  assumes "plain_ok kv s" "pebble_List P c s = Inr as"
  shows "distinct as \<and> set as = dom (plain_recs kv s)"
proof -
  obtain d where s: "s = Some d" using plain_okD [OF assms(1)] by blast
  obtain ks where ks: "pb_Iter P d [] None = Inr (ks, None)" "as = map str_of ks"
    using assms(2) s by (auto simp: pebble_List_def Let_def db_read_def
        split: option.splits sum.splits prod.splits)
  have k: "distinct ks" "set ks = dom (kv d)"
    using iter_ok [OF ks(1)] by (auto simp: in_range_def)
  have "inj_on str_of (set ks)" by (rule inj_on_inverseI [of _ bytes_of]) simp
  then have "distinct as" using k ks by (simp add: distinct_map)
  moreover have "a \<in> set as \<longleftrightarrow> kv d (bytes_of a) \<noteq> None" for a
    using ks k by (auto simp: dom_def image_iff)
  moreover have "a \<in> dom (plain_recs kv s) \<longleftrightarrow> kv d (bytes_of a) \<noteq> None" for a
    using s assms(1) plain_recs_None [of kv d a] by (simp add: domIff del: not_None_eq)
  ultimately show ?thesis by blast
qed

sublocale plain: store_contract "pebble_ops P" "plain_recs kv" plain_stored "plain_ok kv"
proof (unfold_locales, goal_cases)
  case (5 s c r s') then show ?case using plain_put_step [of s c r None s'] by (auto simp: pebble_ops_def)
next
  case (6 s c r e s') then show ?case using plain_put_step [of s c r "Some e" s'] by (auto simp: pebble_ops_def)
next
  case (7 s c r e s') then show ?case using plain_put_step [of s c r "Some e" s'] by (auto simp: pebble_ops_def)
next
  case (8 s c a r) then show ?case using plain_get_step(1) by (simp add: pebble_ops_def)
next
  case (9 s c a e) then show ?case using plain_get_step(2) by (simp add: pebble_ops_def)
next
  case (10 s c a s') then show ?case using plain_delete_step [of s c a None s'] by (auto simp: pebble_ops_def)
next
  case (11 s c a e s') then show ?case using plain_delete_step [of s c a "Some e" s'] by (auto simp: pebble_ops_def)
next
  case (12 s c a e s') then show ?case using plain_delete_step [of s c a "Some e" s'] by (auto simp: pebble_ops_def)
next
  case (13 s c a b) then show ?case using plain_has_step by (simp add: pebble_ops_def)
next
  case (14 s c as) then show ?case using plain_list_step by (simp add: pebble_ops_def)
qed (simp_all add: plain_stored_def norm_record_def)

lemma plain_contract: "store_contract (pebble_ops P) (plain_recs kv) plain_stored (plain_ok kv)"
  by (rule plain.store_contract_axioms)

end

section \<open>When Pebble answers\<close>

locale pebble_live = pebble_db +
  assumes get_live: "kv d k = Some v \<Longrightarrow> pb_Get P d k = Inr v"
    and get_none: "kv d k = None \<Longrightarrow> pb_Get P d k = Inl (Sentinel PebbleErrNotFound)"
    and set_live: "\<exists>d'. pb_Set P d k v = (None, d')"
    and del_live: "\<exists>d'. pb_Delete P d k = (None, d')"
    and iter_live: "\<exists>ks. pb_Iter P d lo hi = Inr (ks, None)"
begin

lemma insert_new_live:
  assumes "kv d k = None"
  shows "\<exists>d'. insert_new P k body m1 m2 (Some d) = (None, Some d')"
  using set_live [of d k body] get_none [OF assms]
  by (auto simp: insert_new_def db_read_def db_write_def)

lemma remove_old_live:
  assumes "kv d k = Some v"
  shows "\<exists>d'. remove_old P k m1 m2 (Some d) = (None, Some d')"
  using del_live [of d k] get_live [OF assms]
  by (auto simp: remove_old_def db_read_def db_write_def)

sublocale env: live_backend "pebble_envelope_ops P" "pebble_hdr kv" "pebble_envs kv"
  kept_header_json kept_blob_json "pebble_good kv" "\<lambda>s. s \<noteq> None"
proof (unfold_locales, goal_cases)
  case (1 b h)
  then obtain d where d: "b = Some d" "good_in (kv d)" "kv d encryptionHeaderKey = None"
    using hdr_in_None by (auto simp: pebble_good_def pebble_hdr_def split: option.splits)
  from insert_new_live [OF d(3)] show ?case
    by (fastforce simp: pebble_envelope_ops_def CreateHeader_eq d(1))
next
  case (2 b h)
  then show ?case using get_live
    by (auto simp: pebble_envelope_ops_def pebble_LoadHeader_def db_read_def pebble_hdr_def
        hdr_in_def split: option.splits sum.splits)
next
  case (3 b)
  then obtain d where d: "b = Some d" "kv d encryptionHeaderKey = None"
    using hdr_in_None by (auto simp: pebble_good_def pebble_hdr_def split: option.splits)
  then show ?case using get_none
    by (simp add: pebble_envelope_ops_def pebble_LoadHeader_def db_read_def)
next
  case (4 b old h)
  then obtain d v cur where d: "b = Some d" "kv d encryptionHeaderKey = Some v"
      "unmarshal_header v = Inr cur" "hdr_Revision cur = old"
    by (auto simp: pebble_hdr_def hdr_in_def split: option.splits sum.splits)
  then show ?case using get_live set_live [of d encryptionHeaderKey "marshal_header h"]
    by (auto simp: pebble_envelope_ops_def pebble_CompareAndSwapHeader_def db_read_def
        db_write_def Let_def)
next
  case (5 b a e)
  then obtain d where d: "b = Some d" "kv d (envelopeKey (trim_space a)) = None"
    using envs_in_None by (auto simp: pebble_good_def pebble_envs_def split: option.splits)
  from insert_new_live [OF d(2)] show ?case using 5
    by (fastforce simp: pebble_envelope_ops_def PutEnvelope_eq d(1))
next
  case (6 b a e)
  then obtain d v where d: "b = Some d" "kv d (envelopeKey (trim_space a)) = Some v"
      "unmarshal_blob v = Inr e"
    by (auto simp: pebble_envs_def envs_in_def split: option.splits sum.splits)
  show ?case using d get_live 6
    by (auto simp: pebble_envelope_ops_def pebble_GetEnvelope_def db_read_def Let_def
        split: option.splits)
next
  case (7 b a e)
  then obtain d v where d: "b = Some d" "kv d (envelopeKey (trim_space a)) = Some v"
    by (auto simp: pebble_envs_def envs_in_def split: option.splits sum.splits)
  from remove_old_live [OF d(2)] show ?case using 7
    by (fastforce simp: pebble_envelope_ops_def DeleteEnvelope_eq d(1))
next
  case (8 b a)
  then obtain d where d: "b = Some d" by auto
  show ?case using d 8 get_live [of d "envelopeKey (trim_space a)"]
      get_none [of d "envelopeKey (trim_space a)"]
    by (cases "kv d (envelopeKey (trim_space a))")
      (auto simp: pebble_envelope_ops_def pebble_HasEnvelope_def db_read_def Let_def)
next
  case (9 b)
  then obtain d where d: "b = Some d" by auto
  show ?case using d iter_live [of d envelopePrefix "prefixUpperBound envelopePrefix"]
    by (auto simp: pebble_envelope_ops_def pebble_ListEnvelopes_def db_read_def Let_def)
qed

sublocale plain: live_store "pebble_ops P" "plain_recs kv" plain_stored "plain_ok kv"
  "\<lambda>s. s \<noteq> None" "\<lambda>_. True"
proof (unfold_locales, goal_cases)
  case (1 s r)
  then obtain d where d: "s = Some d" "kv d (bytes_of (trim_space (rec_Alias r))) = None"
    using plain_recs_None [of kv _ "trim_space (rec_Alias r)"] by (cases s) auto
  from insert_new_live [OF d(2)] show ?case using 1
    by (fastforce simp: pebble_ops_def pebble_Put_eq d(1))
next
  case (2 s a r)
  then obtain d where d: "s = Some d" by auto
  then obtain v where v: "kv d (bytes_of (trim_space a)) = Some v"
      "plain_record (bytes_of (trim_space a)) v = Some r" "valid_record r"
    using 2 plain_okD [of kv s] by (fastforce simp: plain_recs_def bind_eq_Some_conv)
  then have "trim_space a \<noteq> []" by (auto simp: plain_record_def valid_record_def split: sum.splits)
  then show ?case using d v get_live [OF v(1)]
    by (auto simp: pebble_ops_def pebble_Get_def db_read_def Let_def plain_record_def
        split: sum.splits)
next
  case (3 s a r)
  then obtain d where d: "s = Some d" by auto
  then obtain v where v: "kv d (bytes_of (trim_space a)) = Some v"
      "plain_record (bytes_of (trim_space a)) v = Some r" "valid_record r"
    using 3 plain_okD [of kv s] by (fastforce simp: plain_recs_def bind_eq_Some_conv)
  then have "trim_space a \<noteq> []" by (auto simp: plain_record_def valid_record_def split: sum.splits)
  with remove_old_live [OF v(1)] show ?case
    by (fastforce simp: pebble_ops_def pebble_Delete_eq d)
next
  case (4 s a)
  then obtain d where d: "s = Some d" by auto
  show ?case using d 4 get_live [of d "bytes_of (trim_space a)"]
      get_none [of d "bytes_of (trim_space a)"]
    by (cases "kv d (bytes_of (trim_space a))")
      (auto simp: pebble_ops_def pebble_Has_def db_read_def Let_def)
qed

lemma plain_live_contract: "live_store (pebble_ops P) (plain_recs kv) plain_stored (plain_ok kv)
    (\<lambda>s. s \<noteq> None) (\<lambda>_. True)"
  by (rule plain.live_store_axioms)

end

section \<open>A database in memory\<close>

type_synonym mem_db = "(bytes \<times> bytes) list"

definition mem_pebble :: "mem_db pebble_api" where
  "mem_pebble =
     \<lparr>pb_Open = (\<lambda>_. Inr []),
      pb_Get = (\<lambda>d k. case map_of d k of None \<Rightarrow> Inl (Sentinel PebbleErrNotFound) | Some v \<Rightarrow> Inr v),
      pb_Set = (\<lambda>d k v. (None, (k, v) # d)),
      pb_Delete = (\<lambda>d k. (None, filter (\<lambda>(k', _). k' \<noteq> k) d)),
      pb_Iter = (\<lambda>d lo hi. Inr (sort (filter (in_range lo hi) (remdups (map fst d))), None)),
      pb_Close = (\<lambda>_. None)\<rparr>"

lemma map_of_delete: "map_of (filter (\<lambda>(k', _). k' \<noteq> k) d) = (map_of d)(k := None)"
  by (induction d) (auto simp: fun_eq_iff)

interpretation mem: pebble_live mem_pebble map_of
  by unfold_locales
    (auto simp: mem_pebble_def map_of_delete dom_map_of_conv_image_fst split: option.splits)

end
