(* ===== verification/Sqlite_Store.thy ===== *)
theory Sqlite_Store
  imports Store_Json
begin

text \<open>
  The SQLite backend of \<open>pkg/store/sqlite/sqlite.go\<close>: three tables, for plain records, for the
  encryption header (a single row, its revision also in a column of its own) and for envelopes.

  The database is a parameter, \<open>sqlite_api\<close>: an instance of \<open>*sql.DB\<close> is a value that the
  statements return updated. \<open>sql_stmt\<close> has one constructor for each SQL statement that the code
  executes, with the values bound to its parameters; the queries are operations of their own,
  that return the scanned row. The result of a statement holds the answer of \<open>RowsAffected\<close>. An
  error of the driver is a \<open>Foreign\<close> error with its text. A closed store has no database, and
  using it is a nil dereference.
\<close>

section \<open>Error texts\<close>

text \<open>\<open>strings.ToLower\<close> as far as it concerns ASCII: beside the capital letters, the Kelvin sign
  and the dotted capital I have ASCII letters as their lower case.\<close>

function ToLower :: "string \<Rightarrow> string" where
  "ToLower [] = []"
| "ToLower (c # s) =
     (case strip_prefix [CHR 0xE2, CHR 0x84, CHR 0xAA] (c # s) of
        Some t \<Rightarrow> CHR ''k'' # ToLower t
      | None \<Rightarrow>
     (case strip_prefix [CHR 0xC4, CHR 0xB0] (c # s) of
        Some t \<Rightarrow> CHR ''i'' # ToLower t
      | None \<Rightarrow>
     (if 65 \<le> (of_char c :: nat) \<and> (of_char c :: nat) \<le> 90
      then char_of ((of_char c :: nat) + 32) # ToLower s
      else c # ToLower s)))"
  by pat_completeness auto
termination
  by (relation "measure length") (auto simp del: strip_prefix.simps dest: arg_cong [of _ _ length])

fun Contains :: "string \<Rightarrow> string \<Rightarrow> bool" where
  "Contains [] p = (p = [])"
| "Contains (c # s) p = (strip_prefix p (c # s) \<noteq> None \<or> Contains s p)"

text \<open>\<open>err.Error()\<close> of an error of the driver.\<close>

primrec driver_text :: "go_error \<Rightarrow> string" where
  "driver_text (Foreign m) = m"
| "driver_text (Errorf m) = m"
| "driver_text (Wrap m e) = m"
| "driver_text (Sentinel s) = ''sql: no rows in result set''"
| "driver_text (Panic m) = m"

definition isSQLiteUniqueError :: "go_error \<Rightarrow> bool" where
  "isSQLiteUniqueError err =
     (let message = ToLower (driver_text err)
      in Contains message ''unique'' \<or> Contains message ''primary key'')"

section \<open>The database\<close>

datatype sql_stmt =
    Migrate
  | InsertCredential string bytes bytes string
  | DeleteCredential string
  | InsertHeader "64 word" bytes
  | UpdateHeader "64 word" bytes "64 word"        \<comment> \<open>revision, body, expected revision\<close>
  | InsertEnvelope string "16 word" string bytes bytes
  | DeleteEnvelopeRow string

type_synonym sql_rows = "(go_error + string) list \<times> go_error option"

record 'db sqlite_api =
  sq_Open :: "string \<Rightarrow> go_error + 'db"
  sq_Exec :: "go_context \<Rightarrow> sql_stmt \<Rightarrow> 'db \<Rightarrow> (go_error + (go_error + nat)) \<times> 'db"
  sq_SelectCredential :: "go_context \<Rightarrow> string \<Rightarrow> 'db \<Rightarrow> go_error + bytes \<times> bytes \<times> string"
  sq_CountCredential :: "go_context \<Rightarrow> string \<Rightarrow> 'db \<Rightarrow> go_error + nat"
  sq_ListCredentials :: "go_context \<Rightarrow> 'db \<Rightarrow> go_error + sql_rows"
  sq_SelectHeader :: "go_context \<Rightarrow> 'db \<Rightarrow> go_error + 64 word \<times> bytes"
  sq_CountHeader :: "go_context \<Rightarrow> 'db \<Rightarrow> go_error + nat"
  sq_SelectEnvelope :: "go_context \<Rightarrow> string \<Rightarrow> 'db \<Rightarrow> go_error + encrypted_blob"
  sq_CountEnvelope :: "go_context \<Rightarrow> string \<Rightarrow> 'db \<Rightarrow> go_error + nat"
  sq_ListEnvelopes :: "go_context \<Rightarrow> 'db \<Rightarrow> go_error + sql_rows"
  sq_Close :: "'db \<Rightarrow> go_error option"

definition sql_query :: "'db option \<Rightarrow> ('db \<Rightarrow> go_error + 'r) \<Rightarrow> go_error + 'r" where
  "sql_query s f = (case s of None \<Rightarrow> Inl nil_deref | Some db \<Rightarrow> f db)"

definition sql_exec ::
  "'db sqlite_api \<Rightarrow> go_context \<Rightarrow> sql_stmt \<Rightarrow> 'db option \<Rightarrow> (go_error + (go_error + nat)) \<times> 'db option"
  where
  "sql_exec Q ctx st s =
     (case s of None \<Rightarrow> (Inl nil_deref, None)
      | Some db \<Rightarrow> (case sq_Exec Q ctx st db of (r, db') \<Rightarrow> (r, Some db')))"

section \<open>Opening\<close>

definition sqlite_migrate ::
  "'db sqlite_api \<Rightarrow> go_context \<Rightarrow> 'db option \<Rightarrow> go_error option \<times> 'db option" where
  "sqlite_migrate Q ctx s =
     (case sql_exec Q ctx Migrate s of
        (Inl e, s) \<Rightarrow> (Some (errorf ''sqlite migrate: %w'' e), s)
      | (Inr _, s) \<Rightarrow> (None, s))"

definition sqlite_Open :: "'db sqlite_api \<Rightarrow> string \<Rightarrow> go_error + 'db option" where
  "sqlite_Open Q path =
     (if trim_space path = [] then Inl (Errorf ''sqlite store: empty path'')
      else
     (case sq_Open Q path of
        Inl e \<Rightarrow> Inl (errorf ''sqlite open: %w'' e)
      | Inr db \<Rightarrow>
     (case sqlite_migrate Q background (Some db) of
        (Some e, _) \<Rightarrow> Inl e
      | (None, s) \<Rightarrow> Inr s)))"

section \<open>Plain records\<close>

definition sqlite_Put ::
  "'db sqlite_api \<Rightarrow> go_context \<Rightarrow> store_record \<Rightarrow> 'db option \<Rightarrow> go_error option \<times> 'db option" where
  "sqlite_Put Q ctx r s =
     (let r = r\<lparr>rec_Alias := trim_space (rec_Alias r)\<rparr>;
          r = r\<lparr>rec_RPID := trim_space (rec_RPID r)\<rparr> in
      case ValidateRecord r of Some e \<Rightarrow> (Some e, s)
      | None \<Rightarrow>
     (case sql_exec Q ctx (InsertCredential (rec_Alias r) (rec_CredentialID r) (rec_Salt r) (rec_RPID r)) s of
        (Inl e, s) \<Rightarrow>
          (if is_panic e then (Some e, s)
           else if Contains (ToLower (driver_text e)) ''unique'' then (Some (Sentinel StoreErrExists), s)
           else (Some (errorf ''sqlite insert: %w'' e), s))
      | (Inr _, s) \<Rightarrow> (None, s)))"

definition sqlite_Get ::
  "'db sqlite_api \<Rightarrow> go_context \<Rightarrow> string \<Rightarrow> 'db option \<Rightarrow> go_error + store_record" where
  "sqlite_Get Q ctx alias s =
     (let alias = trim_space alias in
      case ValidateAlias alias of Some e \<Rightarrow> Inl e
      | None \<Rightarrow>
     (case sql_query s (sq_SelectCredential Q ctx alias) of
        Inl e \<Rightarrow>
          (if e = Sentinel SqlErrNoRows then Inl (Sentinel StoreErrNotFound)
           else Inl (errorf ''sqlite get: %w'' e))
      | Inr (credential_id, salt, rp_id) \<Rightarrow>
     (let r = \<lparr>rec_Alias = alias, rec_CredentialID = credential_id, rec_Salt = salt, rec_RPID = rp_id\<rparr> in
      case ValidateRecord r of Some e \<Rightarrow> Inl e | None \<Rightarrow> Inr r)))"

definition sqlite_Delete ::
  "'db sqlite_api \<Rightarrow> go_context \<Rightarrow> string \<Rightarrow> 'db option \<Rightarrow> go_error option \<times> 'db option" where
  "sqlite_Delete Q ctx alias s =
     (let alias = trim_space alias in
      case ValidateAlias alias of Some e \<Rightarrow> (Some e, s)
      | None \<Rightarrow>
     (case sql_exec Q ctx (DeleteCredential alias) s of
        (Inl e, s) \<Rightarrow> (Some (errorf ''sqlite delete: %w'' e), s)
      | (Inr (Inl e), s) \<Rightarrow> (Some (errorf ''sqlite rows affected: %w'' e), s)
      | (Inr (Inr n), s) \<Rightarrow>
          if n = 0 then (Some (Sentinel StoreErrNotFound), s) else (None, s)))"

definition sqlite_Has ::
  "'db sqlite_api \<Rightarrow> go_context \<Rightarrow> string \<Rightarrow> 'db option \<Rightarrow> go_error + bool" where
  "sqlite_Has Q ctx alias s =
     (let alias = trim_space alias in
      case ValidateAlias alias of Some e \<Rightarrow> Inl e
      | None \<Rightarrow>
     (case sql_query s (sq_CountCredential Q ctx alias) of
        Inl e \<Rightarrow> Inl (errorf ''sqlite has: %w'' e)
      | Inr n \<Rightarrow> Inr (0 < n)))"

text \<open>The loop over \<open>rows.Next\<close>, which scans each row into \<open>out\<close>, and \<open>rows.Err\<close> after it.\<close>

fun scan_rows :: "string \<Rightarrow> string \<Rightarrow> (go_error + string) list \<Rightarrow> go_error option \<Rightarrow> string list \<Rightarrow> go_error + string list"
  where
  "scan_rows m1 m2 [] err out = (case err of Some e \<Rightarrow> Inl (errorf m2 e) | None \<Rightarrow> Inr out)"
| "scan_rows m1 m2 (r # rows) err out =
     (case r of Inl e \<Rightarrow> Inl (errorf m1 e) | Inr alias \<Rightarrow> scan_rows m1 m2 rows err (out @ [alias]))"

definition sqlite_List ::
  "'db sqlite_api \<Rightarrow> go_context \<Rightarrow> 'db option \<Rightarrow> go_error + string list" where
  "sqlite_List Q ctx s =
     (case sql_query s (sq_ListCredentials Q ctx) of
        Inl e \<Rightarrow> Inl (errorf ''sqlite list: %w'' e)
      | Inr (rows, err) \<Rightarrow> scan_rows ''sqlite list scan: %w'' ''sqlite list: %w'' rows err [])"

section \<open>Header\<close>

definition sqlite_CreateHeader ::
  "'db sqlite_api \<Rightarrow> go_context \<Rightarrow> encryption_header \<Rightarrow> 'db option \<Rightarrow> go_error option \<times> 'db option"
  where
  "sqlite_CreateHeader Q ctx header s =
     (let body = marshal_header header in
      case sql_exec Q ctx (InsertHeader (hdr_Revision header) body) s of
        (Inl e, s) \<Rightarrow>
          (if is_panic e then (Some e, s)
           else if isSQLiteUniqueError e then (Some (Sentinel StoreErrExists), s)
           else (Some (errorf ''sqlite insert encryption header: %w'' e), s))
      | (Inr _, s) \<Rightarrow> (None, s))"

definition sqlite_LoadHeader ::
  "'db sqlite_api \<Rightarrow> go_context \<Rightarrow> 'db option \<Rightarrow> go_error + encryption_header" where
  "sqlite_LoadHeader Q ctx s =
     (case sql_query s (sq_SelectHeader Q ctx) of
        Inl e \<Rightarrow>
          (if e = Sentinel SqlErrNoRows then Inl (Sentinel ErrNotInitialized)
           else Inl (errorf ''sqlite get encryption header: %w'' e))
      | Inr (revision, body) \<Rightarrow>
     (case unmarshal_header body of
        Inl e \<Rightarrow> Inl (errorf ''sqlite unmarshal encryption header: %w'' e)
      | Inr header \<Rightarrow>
          if hdr_Revision header \<noteq> revision
          then Inl (errorf ''%w: header revision column=%d body=%d'' (Sentinel StoreErrInvalidRecord))
          else Inr header))"

definition sqlite_CompareAndSwapHeader ::
  "'db sqlite_api \<Rightarrow> go_context \<Rightarrow> 64 word \<Rightarrow> encryption_header \<Rightarrow> 'db option
     \<Rightarrow> go_error option \<times> 'db option" where
  "sqlite_CompareAndSwapHeader Q ctx expectedRevision nxt s =
     (let body = marshal_header nxt in
      case sql_exec Q ctx (UpdateHeader (hdr_Revision nxt) body expectedRevision) s of
        (Inl e, s) \<Rightarrow> (Some (errorf ''sqlite update encryption header: %w'' e), s)
      | (Inr (Inl e), s) \<Rightarrow> (Some (errorf ''sqlite encryption header rows affected: %w'' e), s)
      | (Inr (Inr n), s) \<Rightarrow>
          if n \<noteq> 0 then (None, s)
          else
         (case sql_query s (sq_CountHeader Q ctx) of
            Inl e \<Rightarrow> (Some (errorf ''sqlite check encryption header: %w'' e), s)
          | Inr exists \<Rightarrow>
              if exists = 0 then (Some (Sentinel ErrNotInitialized), s)
              else (Some (Sentinel ErrConflict), s)))"

section \<open>Envelopes\<close>

definition sqlite_PutEnvelope ::
  "'db sqlite_api \<Rightarrow> go_context \<Rightarrow> string \<Rightarrow> encrypted_blob \<Rightarrow> 'db option \<Rightarrow> go_error option \<times> 'db option"
  where
  "sqlite_PutEnvelope Q ctx alias blob s =
     (let alias = trim_space alias in
      case ValidateAlias alias of Some e \<Rightarrow> (Some e, s)
      | None \<Rightarrow>
     (case sql_exec Q ctx (InsertEnvelope alias (blob_Version blob) (blob_Algorithm blob)
          (blob_Nonce blob) (blob_Ciphertext blob)) s of
        (Inl e, s) \<Rightarrow>
          (if is_panic e then (Some e, s)
           else if isSQLiteUniqueError e then (Some (Sentinel StoreErrExists), s)
           else (Some (errorf ''sqlite insert envelope: %w'' e), s))
      | (Inr _, s) \<Rightarrow> (None, s)))"

definition sqlite_GetEnvelope ::
  "'db sqlite_api \<Rightarrow> go_context \<Rightarrow> string \<Rightarrow> 'db option \<Rightarrow> go_error + encrypted_blob" where
  "sqlite_GetEnvelope Q ctx alias s =
     (let alias = trim_space alias in
      case ValidateAlias alias of Some e \<Rightarrow> Inl e
      | None \<Rightarrow>
     (case sql_query s (sq_SelectEnvelope Q ctx alias) of
        Inl e \<Rightarrow>
          (if e = Sentinel SqlErrNoRows then Inl (Sentinel StoreErrNotFound)
           else Inl (errorf ''sqlite get envelope: %w'' e))
      | Inr blob \<Rightarrow> Inr blob))"

definition sqlite_DeleteEnvelope ::
  "'db sqlite_api \<Rightarrow> go_context \<Rightarrow> string \<Rightarrow> 'db option \<Rightarrow> go_error option \<times> 'db option" where
  "sqlite_DeleteEnvelope Q ctx alias s =
     (let alias = trim_space alias in
      case ValidateAlias alias of Some e \<Rightarrow> (Some e, s)
      | None \<Rightarrow>
     (case sql_exec Q ctx (DeleteEnvelopeRow alias) s of
        (Inl e, s) \<Rightarrow> (Some (errorf ''sqlite delete envelope: %w'' e), s)
      | (Inr (Inl e), s) \<Rightarrow> (Some (errorf ''sqlite envelope rows affected: %w'' e), s)
      | (Inr (Inr n), s) \<Rightarrow>
          if n = 0 then (Some (Sentinel StoreErrNotFound), s) else (None, s)))"

definition sqlite_HasEnvelope ::
  "'db sqlite_api \<Rightarrow> go_context \<Rightarrow> string \<Rightarrow> 'db option \<Rightarrow> go_error + bool" where
  "sqlite_HasEnvelope Q ctx alias s =
     (let alias = trim_space alias in
      case ValidateAlias alias of Some e \<Rightarrow> Inl e
      | None \<Rightarrow>
     (case sql_query s (sq_CountEnvelope Q ctx alias) of
        Inl e \<Rightarrow> Inl (errorf ''sqlite has envelope: %w'' e)
      | Inr n \<Rightarrow> Inr (0 < n)))"

definition sqlite_ListEnvelopes ::
  "'db sqlite_api \<Rightarrow> go_context \<Rightarrow> 'db option \<Rightarrow> go_error + string list" where
  "sqlite_ListEnvelopes Q ctx s =
     (case sql_query s (sq_ListEnvelopes Q ctx) of
        Inl e \<Rightarrow> Inl (errorf ''sqlite list envelopes: %w'' e)
      | Inr (rows, err) \<Rightarrow>
          scan_rows ''sqlite list envelopes scan: %w'' ''sqlite list envelopes: %w'' rows err [])"

definition sqlite_Close ::
  "'db sqlite_api \<Rightarrow> 'db option option \<Rightarrow> go_error option \<times> 'db option option" where
  "sqlite_Close Q s =
     (case s of None \<Rightarrow> (None, None)
      | Some None \<Rightarrow> (None, Some None)
      | Some (Some db) \<Rightarrow> (sq_Close Q db, Some None))"

definition sqlite_ops :: "'db sqlite_api \<Rightarrow> 'db option store_ops" where
  "sqlite_ops Q =
     \<lparr>st_Put = sqlite_Put Q, st_Get = sqlite_Get Q, st_Delete = sqlite_Delete Q,
      st_Has = sqlite_Has Q, st_List = sqlite_List Q,
      st_Close = (\<lambda>s. case sqlite_Close Q (Some s) of
        (e, s') \<Rightarrow> (e, (case s' of None \<Rightarrow> s | Some s' \<Rightarrow> s')))\<rparr>"

definition sqlite_envelope_ops :: "'db sqlite_api \<Rightarrow> 'db option envelope_ops" where
  "sqlite_envelope_ops Q =
     \<lparr>be_CreateHeader = sqlite_CreateHeader Q, be_LoadHeader = sqlite_LoadHeader Q,
      be_CompareAndSwapHeader = sqlite_CompareAndSwapHeader Q,
      be_PutEnvelope = sqlite_PutEnvelope Q, be_GetEnvelope = sqlite_GetEnvelope Q,
      be_DeleteEnvelope = sqlite_DeleteEnvelope Q, be_HasEnvelope = sqlite_HasEnvelope Q,
      be_ListEnvelopes = sqlite_ListEnvelopes Q,
      be_Close = (\<lambda>s. case sqlite_Close Q (Some s) of
        (e, s') \<Rightarrow> (e, (case s' of None \<Rightarrow> s | Some s' \<Rightarrow> s')))\<rparr>"

end
