(* ===== verification/Sqlite_Contract.thy ===== *)
theory Sqlite_Contract
  imports Sqlite_Store "HOL-Library.List_Lexorder"
begin

text \<open>
  The SQLite backend keeps the contracts of \<open>lib/store\<close>: the meaning of its statements on the
  three tables (\<open>sql_apply\<close>), the laws of the database (\<open>sqlite_db\<close>), and the interpretations of
  \<open>envelope_backend\<close> and \<open>store_contract\<close> on the model of the code.
\<close>

section \<open>Tables and statements\<close>

record sql_tables =
  tb_credentials :: "string \<Rightarrow> (bytes \<times> bytes \<times> string) option"
  tb_header :: "(64 word \<times> bytes) option"
  tb_envelopes :: "string \<Rightarrow> encrypted_blob option"

text \<open>A statement fails for a row whose primary key is taken, and otherwise says how many rows it
  has touched.\<close>

fun sql_apply :: "sql_stmt \<Rightarrow> sql_tables \<Rightarrow> (sql_tables \<times> nat) option" where
  "sql_apply Migrate t = Some (t, 0)"
| "sql_apply (InsertCredential a c sa r) t =
     (if tb_credentials t a \<noteq> None then None
      else Some (t\<lparr>tb_credentials := (tb_credentials t)(a \<mapsto> (c, sa, r))\<rparr>, 1))"
| "sql_apply (DeleteCredential a) t =
     Some (t\<lparr>tb_credentials := (tb_credentials t)(a := None)\<rparr>,
       if tb_credentials t a = None then 0 else 1)"
| "sql_apply (InsertHeader rv body) t =
     (if tb_header t \<noteq> None then None else Some (t\<lparr>tb_header := Some (rv, body)\<rparr>, 1))"
| "sql_apply (UpdateHeader rv body old) t =
     (if map_option fst (tb_header t) = Some old then Some (t\<lparr>tb_header := Some (rv, body)\<rparr>, 1)
      else Some (t, 0))"
| "sql_apply (InsertEnvelope a v al n ct) t =
     (if tb_envelopes t a \<noteq> None then None
      else Some (t\<lparr>tb_envelopes := (tb_envelopes t)(a \<mapsto>
        \<lparr>blob_Version = v, blob_Algorithm = al, blob_Nonce = n, blob_Ciphertext = ct\<rparr>)\<rparr>, 1))"
| "sql_apply (DeleteEnvelopeRow a) t =
     Some (t\<lparr>tb_envelopes := (tb_envelopes t)(a := None)\<rparr>,
       if tb_envelopes t a = None then 0 else 1)"

text \<open>The laws of the database. \<open>ORDER BY alias\<close> is the order of the bytes. A statement that reports an error may have been applied; one that
  reports a unique or primary key was refused for a row that is there. The errors are the
  driver's own, but for \<open>sql.ErrNoRows\<close> of a query without a row.\<close>

locale sqlite_db =
  fixes Q :: "'db sqlite_api"
    and tab :: "'db \<Rightarrow> sql_tables"
  assumes exec_ok: "sq_Exec Q c st d = (Inr (Inr n), d') \<Longrightarrow> sql_apply st (tab d) = Some (tab d', n)"
    and exec_rows: "sq_Exec Q c st d = (Inr (Inl e), d') \<Longrightarrow>
      (\<exists>m. e = Foreign m) \<and> (\<exists>n. sql_apply st (tab d) = Some (tab d', n))"
    and exec_err: "sq_Exec Q c st d = (Inl e, d') \<Longrightarrow>
      (\<exists>m. e = Foreign m) \<and> (tab d' = tab d \<or> (\<exists>n. sql_apply st (tab d) = Some (tab d', n)))"
    and exec_unique: "sq_Exec Q c st d = (Inl e, d') \<Longrightarrow> isSQLiteUniqueError e \<Longrightarrow>
      tab d' = tab d \<and> sql_apply st (tab d) = None"
    and credential_ok: "sq_SelectCredential Q c a d = Inr row \<Longrightarrow> tb_credentials (tab d) a = Some row"
    and credential_err: "sq_SelectCredential Q c a d = Inl e \<Longrightarrow>
      e = Sentinel SqlErrNoRows \<and> tb_credentials (tab d) a = None \<or> (\<exists>m. e = Foreign m)"
    and credential_count: "sq_CountCredential Q c a d = Inr n \<Longrightarrow>
      n = (if tb_credentials (tab d) a = None then 0 else 1)"
    and credential_list: "sq_ListCredentials Q c d = Inr (map Inr as, None) \<Longrightarrow>
      sorted (map bytes_of as) \<and> distinct as \<and> set as = dom (tb_credentials (tab d))"
    and header_ok: "sq_SelectHeader Q c d = Inr hrow \<Longrightarrow> tb_header (tab d) = Some hrow"
    and header_err: "sq_SelectHeader Q c d = Inl e \<Longrightarrow>
      e = Sentinel SqlErrNoRows \<and> tb_header (tab d) = None \<or> (\<exists>m. e = Foreign m)"
    and header_count: "sq_CountHeader Q c d = Inr n \<Longrightarrow> n = (if tb_header (tab d) = None then 0 else 1)"
    and header_count_err: "sq_CountHeader Q c d = Inl e \<Longrightarrow> \<exists>m. e = Foreign m"
    and envelope_ok: "sq_SelectEnvelope Q c a d = Inr b \<Longrightarrow> tb_envelopes (tab d) a = Some b"
    and envelope_err: "sq_SelectEnvelope Q c a d = Inl e \<Longrightarrow>
      e = Sentinel SqlErrNoRows \<and> tb_envelopes (tab d) a = None \<or> (\<exists>m. e = Foreign m)"
    and envelope_count: "sq_CountEnvelope Q c a d = Inr n \<Longrightarrow>
      n = (if tb_envelopes (tab d) a = None then 0 else 1)"
    and envelope_list: "sq_ListEnvelopes Q c d = Inr (map Inr as, None) \<Longrightarrow>
      sorted (map bytes_of as) \<and> distinct as \<and> set as = dom (tb_envelopes (tab d))"

section \<open>What the tables stand for\<close>

definition sql_recs :: "('db \<Rightarrow> sql_tables) \<Rightarrow> 'db option \<Rightarrow> string \<Rightarrow> store_record option" where
  "sql_recs tab s a =
     (case s of None \<Rightarrow> None
      | Some d \<Rightarrow> map_option (\<lambda>(c, sa, r). \<lparr>rec_Alias = a, rec_CredentialID = c, rec_Salt = sa,
          rec_RPID = r\<rparr>) (tb_credentials (tab d) a))"

definition sql_ok :: "('db \<Rightarrow> sql_tables) \<Rightarrow> 'db option \<Rightarrow> bool" where
  "sql_ok tab s \<longleftrightarrow> s \<noteq> None"

definition sql_hdr :: "('db \<Rightarrow> sql_tables) \<Rightarrow> 'db option \<Rightarrow> encryption_header option" where
  "sql_hdr tab s =
     (case s of None \<Rightarrow> None
      | Some d \<Rightarrow> (case tb_header (tab d) of None \<Rightarrow> None
          | Some (rv, body) \<Rightarrow> (case unmarshal_header body of Inl _ \<Rightarrow> None | Inr h \<Rightarrow> Some h)))"

definition sql_envs :: "('db \<Rightarrow> sql_tables) \<Rightarrow> 'db option \<Rightarrow> string \<Rightarrow> encrypted_blob option" where
  "sql_envs tab s a = (case s of None \<Rightarrow> None | Some d \<Rightarrow> tb_envelopes (tab d) a)"

text \<open>The header's body parses, and to a header of the revision in the column.\<close>

definition sql_good :: "('db \<Rightarrow> sql_tables) \<Rightarrow> 'db option \<Rightarrow> bool" where
  "sql_good tab s =
     (case s of None \<Rightarrow> False
      | Some d \<Rightarrow> (case tb_header (tab d) of None \<Rightarrow> True
          | Some (rv, body) \<Rightarrow> (\<exists>h. unmarshal_header body = Inr h \<and> hdr_Revision h = rv)))"

lemmas sql_abs_defs = sql_recs_def sql_ok_def sql_hdr_def sql_envs_def sql_good_def

lemma unique_isSQLiteUniqueError: "Contains (ToLower (driver_text e)) ''unique'' \<Longrightarrow> isSQLiteUniqueError e"
  by (simp add: isSQLiteUniqueError_def Let_def)

lemma scan_rows_Inr:
  "scan_rows m1 m2 rows err out = Inr as \<Longrightarrow> err = None \<and> (\<exists>bs. rows = map Inr bs \<and> as = out @ bs)"
proof (induction m1 m2 rows err out rule: scan_rows.induct)
  case (1 m1 m2 err out)
  then show ?case by (auto split: option.splits)
next
  case (2 m1 m2 r rows err out)
  then obtain b where b: "r = Inr b" "scan_rows m1 m2 rows err (out @ [b]) = Inr as"
    by (auto split: sum.splits)
  with 2 obtain bs where "err = None" "rows = map Inr bs" "as = (out @ [b]) @ bs" by blast
  with b have "err = None" "r # rows = map Inr (b # bs)" "as = out @ (b # bs)" by simp_all
  then show ?case by (intro conjI exI [of _ "b # bs"])
qed

lemma sqlite_Put_eq:
  "sqlite_Put Q c r s =
     (case ValidateRecord (norm_record r) of Some e \<Rightarrow> (Some e, s)
      | None \<Rightarrow>
     (case sql_exec Q c (InsertCredential (trim_space (rec_Alias r)) (rec_CredentialID r) (rec_Salt r)
          (trim_space (rec_RPID r))) s of
        (Inl e, s) \<Rightarrow>
          (if is_panic e then (Some e, s)
           else if Contains (ToLower (driver_text e)) ''unique'' then (Some (Sentinel StoreErrExists), s)
           else (Some (errorf ''sqlite insert: %w'' e), s))
      | (Inr _, s) \<Rightarrow> (None, s)))"
proof -
  have n: "r\<lparr>rec_Alias := trim_space (rec_Alias r),
     rec_RPID := trim_space (rec_RPID (r\<lparr>rec_Alias := trim_space (rec_Alias r)\<rparr>))\<rparr> = norm_record r"
    by (simp add: norm_record_def)
  show ?thesis unfolding sqlite_Put_def Let_def n norm_record_sel ..
qed

context sqlite_db
begin

text \<open>A statement on an open store: applied with the count of its rows, or an error of the
  driver.\<close>

lemma exec_cases:
  assumes "sql_exec Q c st (Some d) = (x, s')"
  obtains (applied) n d' where "x = Inr (Inr n)" "s' = Some d'" "sql_apply st (tab d) = Some (tab d', n)"
  | (rows) m n d' where "x = Inr (Inl (Foreign m))" "s' = Some d'" "sql_apply st (tab d) = Some (tab d', n)"
  | (error) m d' where "x = Inl (Foreign m)" "s' = Some d'"
      "tab d' = tab d \<or> (\<exists>n. sql_apply st (tab d) = Some (tab d', n))"
      "isSQLiteUniqueError (Foreign m) \<Longrightarrow> tab d' = tab d \<and> sql_apply st (tab d) = None"
proof -
  obtain r d' where r: "sq_Exec Q c st d = (r, d')" by (rule prod.exhaust)
  then have x: "x = r" "s' = Some d'" using assms by (auto simp: sql_exec_def)
  show thesis
  proof (cases r)
    case (Inl e)
    with exec_err [of c st d e d'] exec_unique [of c st d e d'] r x show thesis
      by (auto intro: error)
  next
    case (Inr y)
    then show thesis
      using exec_ok [of c st d _ d'] exec_rows [of c st d _ d'] r x
      by (cases y) (auto intro: applied rows)
  qed
qed

lemma sql_put_step:
  assumes "sql_ok tab s" "sqlite_Put Q c r s = (e, s')"
  shows "sql_ok tab s' \<and>
    (sql_recs tab s' = sql_recs tab s \<and> e \<noteq> None \<and>
       (errors_is (the e) StoreErrExists \<longrightarrow> sql_recs tab s (trim_space (rec_Alias r)) \<noteq> None) \<or>
     valid_record (norm_record r) \<and> sql_recs tab s (trim_space (rec_Alias r)) = None \<and>
       sql_recs tab s' = (sql_recs tab s)(trim_space (rec_Alias r) \<mapsto> norm_record r) \<and>
       (\<forall>x t. e = Some x \<longrightarrow> \<not> errors_is x t))"
proof -
  obtain d where s: "s = Some d" using assms(1) by (auto simp: sql_ok_def)
  show ?thesis
  proof (cases "ValidateRecord (norm_record r)")
    case (Some x)
    then have "e = Some x" "s' = s" using assms(2) by (simp_all add: sqlite_Put_eq)
    moreover have "\<not> errors_is x StoreErrExists"
      using ValidateRecord_Some [OF Some] by (auto dest: errors_is_unique)
    ultimately show ?thesis using assms(1) by simp
  next
    case None
    let ?st = "InsertCredential (trim_space (rec_Alias r)) (rec_CredentialID r) (rec_Salt r)
      (trim_space (rec_RPID r))"
    obtain x t where x: "sql_exec Q c ?st s = (x, t)" by (rule prod.exhaust)
    have p: "sqlite_Put Q c r s = (case x of
        Inl e \<Rightarrow> (if is_panic e then (Some e, t)
           else if Contains (ToLower (driver_text e)) ''unique'' then (Some (Sentinel StoreErrExists), t)
           else (Some (errorf ''sqlite insert: %w'' e), t))
      | Inr _ \<Rightarrow> (None, t))"
      using None x by (simp add: sqlite_Put_eq split: sum.splits)
    have ins: "sql_recs tab s (trim_space (rec_Alias r)) = None \<and>
        sql_recs tab (Some d') = (sql_recs tab s)(trim_space (rec_Alias r) \<mapsto> norm_record r)"
      if "sql_apply ?st (tab d) = Some (tab d', k)" for d' k
    proof -
      from that have "tb_credentials (tab d) (trim_space (rec_Alias r)) = None"
          "tab d' = (tab d)\<lparr>tb_credentials := (tb_credentials (tab d))(trim_space (rec_Alias r) \<mapsto>
             (rec_CredentialID r, rec_Salt r, trim_space (rec_RPID r)))\<rparr>"
        by (auto split: if_splits simp del: not_None_eq)
      then show ?thesis by (cases r) (simp add: s sql_recs_def norm_record_def fun_eq_iff)
    qed
    have v: "valid_record (norm_record r)" using None by simp
    from x [unfolded s] show ?thesis
    proof (cases rule: exec_cases)
      case (applied k d')
      then have "e = None" "s' = Some d'" using p assms(2) by simp_all
      with ins [OF applied(3)] v show ?thesis by (simp add: sql_ok_def)
    next
      case (rows m k d')
      then have "e = None" "s' = Some d'" using p assms(2) by simp_all
      with ins [OF rows(3)] v show ?thesis by (simp add: sql_ok_def)
    next
      case (error m d')
      show ?thesis
      proof (cases "Contains (ToLower m) ''unique''")
        case True
        then have "tab d' = tab d" "sql_apply ?st (tab d) = None"
          using error(4) unique_isSQLiteUniqueError [of "Foreign m"] by auto
        moreover have "e = Some (Sentinel StoreErrExists)" "s' = Some d'"
          using p assms(2) error True by simp_all
        ultimately show ?thesis using s by (auto simp: sql_recs_def sql_ok_def fun_eq_iff split: if_splits)
      next
        case False
        then have e: "e = Some (errorf ''sqlite insert: %w'' (Foreign m))" "s' = Some d'"
          using p assms(2) error by simp_all
        from error(3) show ?thesis
        proof
          assume "tab d' = tab d"
          with e s show ?thesis by (auto simp: sql_recs_def sql_ok_def fun_eq_iff)
        next
          assume "\<exists>k. sql_apply ?st (tab d) = Some (tab d', k)"
          with ins e v show ?thesis by (auto simp: sql_ok_def)
        qed
      qed
    qed
  qed
qed

lemma sql_get_step:
  assumes "sql_ok tab s"
  shows "sqlite_Get Q c a s = Inr r \<Longrightarrow> sql_recs tab s (trim_space a) = Some r"
    and "sqlite_Get Q c a s = Inl e \<Longrightarrow> errors_is e StoreErrNotFound \<Longrightarrow>
      sql_recs tab s (trim_space a) = None"
proof -
  obtain d where s: "s = Some d" using assms by (auto simp: sql_ok_def)
  { assume "sqlite_Get Q c a s = Inr r"
    then show "sql_recs tab s (trim_space a) = Some r"
      using s by (auto simp: sqlite_Get_def Let_def sql_query_def sql_recs_def
          split: option.splits sum.splits if_splits dest!: credential_ok) }
  { assume g: "sqlite_Get Q c a s = Inl e" and e: "errors_is e StoreErrNotFound"
    show "sql_recs tab s (trim_space a) = None"
    proof (cases "sq_SelectCredential Q c (trim_space a) d")
      case (Inl x)
      with credential_err [OF Inl] g e s show ?thesis
        by (auto simp: sqlite_Get_def ValidateAlias_def sql_query_def sql_recs_def Let_def split: if_splits)
    next
      case (Inr y)
      with g e s have "\<exists>r. ValidateRecord r = Some e"
        by (auto simp: sqlite_Get_def ValidateAlias_def sql_query_def Let_def
            split: if_splits option.splits prod.splits)
      with e show ?thesis by (auto dest!: ValidateRecord_Some dest: errors_is_unique)
    qed }
qed

lemma sql_delete_step:
  assumes "sql_ok tab s" "sqlite_Delete Q c a s = (e, s')"
  shows "sql_ok tab s' \<and>
    (sql_recs tab s' = sql_recs tab s \<and> e \<noteq> None \<and>
       (errors_is (the e) StoreErrNotFound \<longrightarrow> sql_recs tab s (trim_space a) = None) \<or>
     sql_recs tab s' = (sql_recs tab s)(trim_space a := None) \<and>
       (e = None \<longrightarrow> sql_recs tab s (trim_space a) \<noteq> None) \<and>
       (\<forall>x t. e = Some x \<longrightarrow> \<not> errors_is x t))"
proof (cases "trim_space a = []")
  case True
  then show ?thesis using assms by (auto simp: sqlite_Delete_def ValidateAlias_def)
next
  case False
  obtain d where s: "s = Some d" using assms(1) by (auto simp: sql_ok_def)
  obtain x t where x: "sql_exec Q c (DeleteCredential (trim_space a)) s = (x, t)"
    by (rule prod.exhaust)
  have p: "sqlite_Delete Q c a s = (case x of
      Inl e \<Rightarrow> (Some (errorf ''sqlite delete: %w'' e), t)
    | Inr (Inl e) \<Rightarrow> (Some (errorf ''sqlite rows affected: %w'' e), t)
    | Inr (Inr n) \<Rightarrow> if n = 0 then (Some (Sentinel StoreErrNotFound), t) else (None, t))"
    using False x by (simp add: sqlite_Delete_def ValidateAlias_def split: sum.splits)
  have del: "sql_recs tab (Some d') = (sql_recs tab s)(trim_space a := None) \<and>
      (n = 0 \<longleftrightarrow> sql_recs tab s (trim_space a) = None)"
    if "sql_apply (DeleteCredential (trim_space a)) (tab d) = Some (tab d', n)" for d' n
  proof -
    from that have "tab d' = (tab d)\<lparr>tb_credentials := (tb_credentials (tab d))(trim_space a := None)\<rparr>"
        "n = 0 \<longleftrightarrow> tb_credentials (tab d) (trim_space a) = None"
      by (auto split: if_splits simp del: not_None_eq)
    then show ?thesis by (simp add: s sql_recs_def fun_eq_iff)
  qed
  from x [unfolded s] show ?thesis
  proof (cases rule: exec_cases)
    case (applied n d')
    note dl = del [OF applied(3)]
    show ?thesis
    proof (cases "n = 0")
      case True
      then have "e = Some (Sentinel StoreErrNotFound)" "s' = Some d'"
        using p assms(2) applied by simp_all
      moreover have "sql_recs tab s' = sql_recs tab s"
        using dl True calculation(2) by (simp add: fun_eq_iff)
      ultimately show ?thesis using dl True by (simp add: sql_ok_def)
    next
      case False
      then have "e = None" "s' = Some d'" using p assms(2) applied by simp_all
      with dl False show ?thesis by (simp add: sql_ok_def)
    qed
  next
    case (rows m n d')
    then have "e = Some (errorf ''sqlite rows affected: %w'' (Foreign m))" "s' = Some d'"
      using p assms(2) by simp_all
    with del [OF rows(3)] show ?thesis by (simp add: sql_ok_def)
  next
    case (error m d')
    then have e: "e = Some (errorf ''sqlite delete: %w'' (Foreign m))" "s' = Some d'"
      using p assms(2) by simp_all
    from error(3) show ?thesis
    proof
      assume "tab d' = tab d"
      with e s show ?thesis by (simp add: sql_ok_def sql_recs_def fun_eq_iff)
    next
      assume "\<exists>n. sql_apply (DeleteCredential (trim_space a)) (tab d) = Some (tab d', n)"
      with del e show ?thesis by (auto simp: sql_ok_def)
    qed
  qed
qed

lemma sql_has_step:
  assumes "sql_ok tab s" "sqlite_Has Q c a s = Inr b"
  shows "b = (sql_recs tab s (trim_space a) \<noteq> None)"
  using assms
  by (auto simp: sqlite_Has_def sql_ok_def sql_query_def sql_recs_def Let_def
      split: option.splits sum.splits if_splits dest!: credential_count)

lemma sql_list_step:
  assumes "sql_ok tab s" "sqlite_List Q c s = Inr as"
  shows "distinct as \<and> set as = dom (sql_recs tab s)"
proof -
  obtain d where s: "s = Some d" using assms(1) by (auto simp: sql_ok_def)
  obtain rows err where r: "sq_ListCredentials Q c d = Inr (rows, err)"
      "scan_rows ''sqlite list scan: %w'' ''sqlite list: %w'' rows err [] = Inr as"
    using assms(2) s by (auto simp: sqlite_List_def sql_query_def split: sum.splits)
  from scan_rows_Inr [OF r(2)] have "rows = map Inr as" "err = None" by auto
  with credential_list r(1) s show ?thesis by (auto simp: sql_recs_def dom_def)
qed

sublocale plain: store_contract "sqlite_ops Q" "sql_recs tab" norm_record "sql_ok tab"
proof (unfold_locales, goal_cases)
  case (1 r) show ?case ..
next
  case (2 r) show ?case by simp
next
  case (3 r) show ?case by simp
next
  case (4 r) show ?case by simp
next
  case (5 s c r s') then show ?case using sql_put_step [of s c r None s'] by (simp add: sqlite_ops_def)
next
  case (6 s c r e s') then show ?case using sql_put_step [of s c r "Some e" s'] by (auto simp: sqlite_ops_def)
next
  case (7 s c r e s') then show ?case using sql_put_step [of s c r "Some e" s'] by (auto simp: sqlite_ops_def)
next
  case (8 s c a r) then show ?case using sql_get_step(1) by (simp add: sqlite_ops_def)
next
  case (9 s c a e) then show ?case using sql_get_step(2) by (simp add: sqlite_ops_def)
next
  case (10 s c a s') then show ?case using sql_delete_step [of s c a None s'] by (simp add: sqlite_ops_def)
next
  case (11 s c a e s') then show ?case using sql_delete_step [of s c a "Some e" s'] by (auto simp: sqlite_ops_def)
next
  case (12 s c a e s') then show ?case using sql_delete_step [of s c a "Some e" s'] by (auto simp: sqlite_ops_def)
next
  case (13 s c a b) then show ?case using sql_has_step by (simp add: sqlite_ops_def)
next
  case (14 s c as) then show ?case using sql_list_step by (simp add: sqlite_ops_def)
qed

lemma plain_contract: "store_contract (sqlite_ops Q) (sql_recs tab) norm_record (sql_ok tab)"
  by (rule plain.store_contract_axioms)

end

end
