(* ===== verification/Sqlite_Backend.thy ===== *)
theory Sqlite_Backend
  imports Sqlite_Contract
begin

text \<open>
  The SQLite backend as an \<open>EnvelopeBackend\<close>: header and envelopes, operation by operation, and
  the interpretation of \<open>envelope_backend\<close>.
\<close>

lemma sql_goodE:
  assumes "sql_good tab s"
  obtains d where "s = Some d"
    "\<And>rv body. tb_header (tab d) = Some (rv, body) \<Longrightarrow>
       \<exists>h. unmarshal_header body = Inr h \<and> hdr_Revision h = rv"
  using assms by (auto simp: sql_good_def split: option.splits)

lemma sql_hdr_None: "sql_good tab (Some d) \<Longrightarrow> sql_hdr tab (Some d) = None \<longleftrightarrow> tb_header (tab d) = None"
  by (auto simp: sql_good_def sql_hdr_def split: option.splits)

lemma sql_hdr_revision:
  "sql_good tab (Some d) \<Longrightarrow> map_option hdr_Revision (sql_hdr tab (Some d)) = map_option fst (tb_header (tab d))"
  by (auto simp: sql_good_def sql_hdr_def split: option.splits)

text \<open>The header written, and what does not touch the header.\<close>

lemma sql_write_header:
  assumes "tab d' = (tab d)\<lparr>tb_header := Some (hdr_Revision h, marshal_header h)\<rparr>"
  shows "sql_good tab (Some d')" "sql_hdr tab (Some d') = Some (kept_header_json h)"
    "sql_envs tab (Some d') = sql_envs tab (Some d)"
  using assms by (simp_all add: sql_good_def sql_hdr_def sql_envs_def fun_eq_iff)

lemma sql_same_header:
  assumes "tb_header (tab d') = tb_header (tab d)"
  shows "sql_good tab (Some d') = sql_good tab (Some d)" "sql_hdr tab (Some d') = sql_hdr tab (Some d)"
  using assms by (simp_all add: sql_good_def sql_hdr_def)

context sqlite_db
begin

lemma sql_create_step:
  assumes "sql_good tab s" "sqlite_CreateHeader Q c h s = (e, s')"
  shows "sql_good tab s' \<and> sql_envs tab s' = sql_envs tab s \<and>
    (sql_hdr tab s' = sql_hdr tab s \<and> e \<noteq> None \<or>
     sql_hdr tab s = None \<and> sql_hdr tab s' = Some (kept_header_json h))"
proof -
  obtain d where s: "s = Some d" using assms(1) by (rule sql_goodE)
  let ?st = "InsertHeader (hdr_Revision h) (marshal_header h)"
  obtain x t where x: "sql_exec Q c ?st s = (x, t)" by (rule prod.exhaust)
  have p: "sqlite_CreateHeader Q c h s = (case x of
      Inl e \<Rightarrow> (if is_panic e then (Some e, t)
         else if isSQLiteUniqueError e then (Some (Sentinel StoreErrExists), t)
         else (Some (errorf ''sqlite insert encryption header: %w'' e), t))
    | Inr _ \<Rightarrow> (None, t))"
    using x by (simp add: sqlite_CreateHeader_def split: sum.splits)
  have ins: "sql_good tab (Some d') \<and> sql_envs tab (Some d') = sql_envs tab s \<and>
      sql_hdr tab s = None \<and> sql_hdr tab (Some d') = Some (kept_header_json h)"
    if "sql_apply ?st (tab d) = Some (tab d', k)" for d' k
  proof -
    from that have "tb_header (tab d) = None"
        "tab d' = (tab d)\<lparr>tb_header := Some (hdr_Revision h, marshal_header h)\<rparr>"
      by (auto split: if_splits simp del: not_None_eq)
    then show ?thesis using sql_write_header [where tab = tab and d' = d' and d = d and h = h] s by (simp add: sql_hdr_def)
  qed
  have same: "sql_good tab (Some d') \<and> sql_envs tab (Some d') = sql_envs tab s \<and>
      sql_hdr tab (Some d') = sql_hdr tab s" if "tab d' = tab d" for d'
    using that s assms(1) by (simp add: sql_good_def sql_hdr_def sql_envs_def fun_eq_iff)
  from x [unfolded s] show ?thesis
  proof (cases rule: exec_cases)
    case (applied k d')
    then have "s' = Some d'" using p assms(2) by simp
    with ins [OF applied(3)] show ?thesis by simp
  next
    case (rows m k d')
    then have "s' = Some d'" using p assms(2) by simp
    with ins [OF rows(3)] show ?thesis by simp
  next
    case (error m d')
    then have "s' = Some d'" "e \<noteq> None" using p assms(2) by (auto split: if_splits)
    with error(3) ins same show ?thesis by metis
  qed
qed

lemma sql_load_step:
  assumes "sql_good tab s"
  shows "sqlite_LoadHeader Q c s = Inr h \<Longrightarrow> sql_hdr tab s = Some h"
    and "sqlite_LoadHeader Q c s = Inl x \<Longrightarrow> errors_is x ErrNotInitialized \<Longrightarrow> sql_hdr tab s = None"
proof -
  obtain d where s: "s = Some d" using assms by (rule sql_goodE)
  { assume "sqlite_LoadHeader Q c s = Inr h"
    then show "sql_hdr tab s = Some h" using s
      by (auto simp: sqlite_LoadHeader_def sql_query_def sql_hdr_def
          split: sum.splits if_splits dest!: header_ok) }
  { assume l: "sqlite_LoadHeader Q c s = Inl x" "errors_is x ErrNotInitialized"
    show "sql_hdr tab s = None"
    proof (cases "sq_SelectHeader Q c d")
      case (Inl y)
      with header_err [OF Inl] l s show ?thesis
        by (auto simp: sqlite_LoadHeader_def sql_query_def sql_hdr_def split: if_splits)
    next
      case (Inr row)
      obtain rv body where row: "row = (rv, body)" by (rule prod.exhaust)
      with header_ok [OF Inr] assms s obtain h where "unmarshal_header body = Inr h" "hdr_Revision h = rv"
        by (auto simp: sql_good_def)
      with Inr row l s show ?thesis by (simp add: sqlite_LoadHeader_def sql_query_def)
    qed }
qed

lemma sql_cas_step:
  assumes "sql_good tab s" "sqlite_CompareAndSwapHeader Q c old h s = (e, s')"
  shows "sql_good tab s' \<and> sql_envs tab s' = sql_envs tab s \<and>
    (sql_hdr tab s' = sql_hdr tab s \<and> e \<noteq> None \<and>
       (errors_is (the e) ErrConflict \<longrightarrow> map_option hdr_Revision (sql_hdr tab s) \<noteq> Some old) \<or>
     map_option hdr_Revision (sql_hdr tab s) = Some old \<and>
       sql_hdr tab s' = Some (kept_header_json h) \<and> (\<forall>x t. e = Some x \<longrightarrow> \<not> errors_is x t))"
proof -
  obtain d where s: "s = Some d" using assms(1) by (rule sql_goodE)
  have rv: "map_option hdr_Revision (sql_hdr tab s) = map_option fst (tb_header (tab d))"
    using sql_hdr_revision assms(1) s by simp
  let ?st = "UpdateHeader (hdr_Revision h) (marshal_header h) old"
  obtain x t where x: "sql_exec Q c ?st s = (x, t)" by (rule prod.exhaust)
  have p: "sqlite_CompareAndSwapHeader Q c old h s = (case x of
      Inl e \<Rightarrow> (Some (errorf ''sqlite update encryption header: %w'' e), t)
    | Inr (Inl e) \<Rightarrow> (Some (errorf ''sqlite encryption header rows affected: %w'' e), t)
    | Inr (Inr n) \<Rightarrow> (if n \<noteq> 0 then (None, t)
        else (case sql_query t (sq_CountHeader Q c) of
            Inl e \<Rightarrow> (Some (errorf ''sqlite check encryption header: %w'' e), t)
          | Inr exists \<Rightarrow> if exists = 0 then (Some (Sentinel ErrNotInitialized), t)
              else (Some (Sentinel ErrConflict), t))))"
    using x by (simp add: sqlite_CompareAndSwapHeader_def split: sum.splits)
  have upd: "if map_option fst (tb_header (tab d)) = Some old
      then n = 1 \<and> sql_good tab (Some d') \<and> sql_envs tab (Some d') = sql_envs tab s \<and>
        sql_hdr tab (Some d') = Some (kept_header_json h)
      else n = 0 \<and> tab d' = tab d" if "sql_apply ?st (tab d) = Some (tab d', n)" for d' n
  proof (cases "map_option fst (tb_header (tab d)) = Some old")
    case True
    with that have "tab d' = (tab d)\<lparr>tb_header := Some (hdr_Revision h, marshal_header h)\<rparr>" "n = 1"
      by simp_all
    with True sql_write_header [where tab = tab and d' = d' and d = d and h = h] s show ?thesis by simp
  qed (use that in simp)
  have same: "sql_good tab (Some d') \<and> sql_envs tab (Some d') = sql_envs tab s \<and>
      sql_hdr tab (Some d') = sql_hdr tab s" if "tab d' = tab d" for d'
    using that s assms(1) by (simp add: sql_good_def sql_hdr_def sql_envs_def fun_eq_iff)
  from x [unfolded s] show ?thesis
  proof (cases rule: exec_cases)
    case (applied n d')
    show ?thesis
    proof (cases "n = 0")
      case True
      then have m: "map_option fst (tb_header (tab d)) \<noteq> Some old" "tab d' = tab d"
        using upd [OF applied(3)] by (auto split: if_splits)
      have "s' = Some d'" "e \<noteq> None"
        using p assms(2) applied True by (auto simp: sql_query_def split: sum.splits if_splits)
      with same [OF m(2)] m(1) rv show ?thesis by simp
    next
      case False
      then have "e = None" "s' = Some d'" using p assms(2) applied by simp_all
      with upd [OF applied(3)] False rv show ?thesis by (simp split: if_splits)
    qed
  next
    case (rows m n d')
    then have e: "e = Some (errorf ''sqlite encryption header rows affected: %w'' (Foreign m))" "s' = Some d'"
      using p assms(2) by simp_all
    with upd [OF rows(3)] same rv show ?thesis by (auto split: if_splits)
  next
    case (error m d')
    then have e: "e = Some (errorf ''sqlite update encryption header: %w'' (Foreign m))" "s' = Some d'"
      using p assms(2) by simp_all
    from error(3) show ?thesis
    proof
      assume "tab d' = tab d"
      with e same show ?thesis by simp
    next
      assume "\<exists>n. sql_apply ?st (tab d) = Some (tab d', n)"
      then obtain n where "sql_apply ?st (tab d) = Some (tab d', n)" by blast
      from upd [OF this] e same rv show ?thesis by (auto split: if_splits)
    qed
  qed
qed

lemma sql_putenv_step:
  assumes "sql_good tab s" "sqlite_PutEnvelope Q c a b s = (e, s')"
  shows "sql_good tab s' \<and> sql_hdr tab s' = sql_hdr tab s \<and>
    (sql_envs tab s' = sql_envs tab s \<and> e \<noteq> None \<and>
       (errors_is (the e) StoreErrExists \<longrightarrow> sql_envs tab s (trim_space a) \<noteq> None) \<or>
     sql_envs tab s (trim_space a) = None \<and> trim_space a \<noteq> [] \<and>
       sql_envs tab s' = (sql_envs tab s)(trim_space a \<mapsto> b) \<and>
       (\<forall>x t. e = Some x \<longrightarrow> \<not> errors_is x t))"
proof (cases "trim_space a = []")
  case True
  then show ?thesis using assms by (auto simp: sqlite_PutEnvelope_def ValidateAlias_def)
next
  case False
  obtain d where s: "s = Some d" using assms(1) by (rule sql_goodE)
  let ?st = "InsertEnvelope (trim_space a) (blob_Version b) (blob_Algorithm b) (blob_Nonce b) (blob_Ciphertext b)"
  obtain x t where x: "sql_exec Q c ?st s = (x, t)" by (rule prod.exhaust)
  have p: "sqlite_PutEnvelope Q c a b s = (case x of
      Inl e \<Rightarrow> (if is_panic e then (Some e, t)
         else if isSQLiteUniqueError e then (Some (Sentinel StoreErrExists), t)
         else (Some (errorf ''sqlite insert envelope: %w'' e), t))
    | Inr _ \<Rightarrow> (None, t))"
    using x False by (simp add: sqlite_PutEnvelope_def ValidateAlias_def split: sum.splits)
  have ins: "sql_good tab (Some d') \<and> sql_hdr tab (Some d') = sql_hdr tab s \<and>
      sql_envs tab s (trim_space a) = None \<and> sql_envs tab (Some d') = (sql_envs tab s)(trim_space a \<mapsto> b)"
    if "sql_apply ?st (tab d) = Some (tab d', k)" for d' k
  proof -
    from that have t: "tb_envelopes (tab d) (trim_space a) = None"
        "tab d' = (tab d)\<lparr>tb_envelopes := (tb_envelopes (tab d))(trim_space a \<mapsto> b)\<rparr>"
      by (cases b; auto split: if_splits simp del: not_None_eq)+
    then have "tb_header (tab d') = tb_header (tab d)" by simp
    from sql_same_header [of tab, OF this] t s assms(1) show ?thesis
      by (simp add: sql_envs_def fun_eq_iff)
  qed
  have same: "sql_good tab (Some d') \<and> sql_envs tab (Some d') = sql_envs tab s \<and>
      sql_hdr tab (Some d') = sql_hdr tab s" if "tab d' = tab d" for d'
    using that s assms(1) by (simp add: sql_good_def sql_hdr_def sql_envs_def fun_eq_iff)
  from x [unfolded s] show ?thesis
  proof (cases rule: exec_cases)
    case (applied k d')
    then have "s' = Some d'" "e = None" using p assms(2) by simp_all
    with ins [OF applied(3)] False show ?thesis by simp
  next
    case (rows m k d')
    then have "s' = Some d'" "e = None" using p assms(2) by simp_all
    with ins [OF rows(3)] False show ?thesis by simp
  next
    case (error m d')
    show ?thesis
    proof (cases "isSQLiteUniqueError (Foreign m)")
      case True
      then have u: "tab d' = tab d" "sql_apply ?st (tab d) = None" using error(4) by auto
      then have "sql_envs tab s (trim_space a) \<noteq> None"
        using s by (auto simp: sql_envs_def split: if_splits)
      moreover have "e = Some (Sentinel StoreErrExists)" "s' = Some d'"
        using p assms(2) error True by simp_all
      ultimately show ?thesis using same [OF u(1)] by simp
    next
      case False
      then have "e = Some (errorf ''sqlite insert envelope: %w'' (Foreign m))" "s' = Some d'"
        using p assms(2) error by simp_all
      with error(3) same ins \<open>trim_space a \<noteq> []\<close> show ?thesis by auto
    qed
  qed
qed

lemma sql_getenv_step:
  assumes "sql_good tab s"
  shows "sqlite_GetEnvelope Q c a s = Inr b \<Longrightarrow> sql_envs tab s (trim_space a) = Some b"
    and "sqlite_GetEnvelope Q c a s = Inl e \<Longrightarrow> errors_is e StoreErrNotFound \<Longrightarrow>
      sql_envs tab s (trim_space a) = None"
proof -
  obtain d where s: "s = Some d" using assms by (rule sql_goodE)
  { assume "sqlite_GetEnvelope Q c a s = Inr b"
    then show "sql_envs tab s (trim_space a) = Some b"
      using s by (auto simp: sqlite_GetEnvelope_def Let_def sql_query_def sql_envs_def
          split: option.splits sum.splits if_splits dest!: envelope_ok) }
  { assume g: "sqlite_GetEnvelope Q c a s = Inl e" and e: "errors_is e StoreErrNotFound"
    then obtain x where x: "sq_SelectEnvelope Q c (trim_space a) d = Inl x"
      using s by (auto simp: sqlite_GetEnvelope_def ValidateAlias_def sql_query_def Let_def
          split: if_splits sum.splits)
    with envelope_err [OF x] g e s show "sql_envs tab s (trim_space a) = None"
      by (auto simp: sqlite_GetEnvelope_def ValidateAlias_def sql_query_def sql_envs_def Let_def
          split: if_splits) }
qed

lemma sql_delenv_step:
  assumes "sql_good tab s" "sqlite_DeleteEnvelope Q c a s = (e, s')"
  shows "sql_good tab s' \<and> sql_hdr tab s' = sql_hdr tab s \<and>
    (sql_envs tab s' = sql_envs tab s \<and> e \<noteq> None \<and>
       (errors_is (the e) StoreErrNotFound \<longrightarrow> sql_envs tab s (trim_space a) = None) \<or>
     sql_envs tab s' = (sql_envs tab s)(trim_space a := None) \<and>
       (e = None \<longrightarrow> sql_envs tab s (trim_space a) \<noteq> None) \<and>
       (\<forall>x t. e = Some x \<longrightarrow> \<not> errors_is x t))"
proof (cases "trim_space a = []")
  case True
  then show ?thesis using assms by (auto simp: sqlite_DeleteEnvelope_def ValidateAlias_def)
next
  case False
  obtain d where s: "s = Some d" using assms(1) by (rule sql_goodE)
  obtain x t where x: "sql_exec Q c (DeleteEnvelopeRow (trim_space a)) s = (x, t)"
    by (rule prod.exhaust)
  have p: "sqlite_DeleteEnvelope Q c a s = (case x of
      Inl e \<Rightarrow> (Some (errorf ''sqlite delete envelope: %w'' e), t)
    | Inr (Inl e) \<Rightarrow> (Some (errorf ''sqlite envelope rows affected: %w'' e), t)
    | Inr (Inr n) \<Rightarrow> if n = 0 then (Some (Sentinel StoreErrNotFound), t) else (None, t))"
    using False x by (simp add: sqlite_DeleteEnvelope_def ValidateAlias_def split: sum.splits)
  have del: "sql_good tab (Some d') \<and> sql_hdr tab (Some d') = sql_hdr tab s \<and>
      sql_envs tab (Some d') = (sql_envs tab s)(trim_space a := None) \<and>
      (n = 0 \<longleftrightarrow> sql_envs tab s (trim_space a) = None)"
    if "sql_apply (DeleteEnvelopeRow (trim_space a)) (tab d) = Some (tab d', n)" for d' n
  proof -
    from that have t: "tab d' = (tab d)\<lparr>tb_envelopes := (tb_envelopes (tab d))(trim_space a := None)\<rparr>"
        "n = 0 \<longleftrightarrow> tb_envelopes (tab d) (trim_space a) = None"
      by (auto split: if_splits simp del: not_None_eq)
    then have "tb_header (tab d') = tb_header (tab d)" by simp
    from sql_same_header [of tab, OF this] t s assms(1) show ?thesis
      by (simp add: sql_envs_def fun_eq_iff)
  qed
  from x [unfolded s] show ?thesis
  proof (cases rule: exec_cases)
    case (applied n d')
    note dl = del [OF applied(3)]
    show ?thesis
    proof (cases "n = 0")
      case True
      then have e: "e = Some (Sentinel StoreErrNotFound)" "s' = Some d'"
        using p assms(2) applied by simp_all
      moreover have "sql_envs tab s' = sql_envs tab s"
        using dl True e(2) by (simp add: fun_eq_iff)
      ultimately show ?thesis using dl True by simp
    next
      case False
      then have "e = None" "s' = Some d'" using p assms(2) applied by simp_all
      with dl False show ?thesis by simp
    qed
  next
    case (rows m n d')
    then have "e = Some (errorf ''sqlite envelope rows affected: %w'' (Foreign m))" "s' = Some d'"
      using p assms(2) by simp_all
    with del [OF rows(3)] show ?thesis by simp
  next
    case (error m d')
    then have e: "e = Some (errorf ''sqlite delete envelope: %w'' (Foreign m))" "s' = Some d'"
      using p assms(2) by simp_all
    from error(3) show ?thesis
    proof
      assume "tab d' = tab d"
      with e s assms(1) show ?thesis by (simp add: sql_good_def sql_hdr_def sql_envs_def fun_eq_iff)
    next
      assume "\<exists>n. sql_apply (DeleteEnvelopeRow (trim_space a)) (tab d) = Some (tab d', n)"
      with del e show ?thesis by auto
    qed
  qed
qed

lemma sql_hasenv_step:
  assumes "sql_good tab s" "sqlite_HasEnvelope Q c a s = Inr b"
  shows "b = (sql_envs tab s (trim_space a) \<noteq> None)"
proof -
  obtain d where s: "s = Some d" using assms(1) by (rule sql_goodE)
  with assms(2) show ?thesis
    by (auto simp: sqlite_HasEnvelope_def sql_query_def sql_envs_def Let_def
        split: option.splits sum.splits if_splits dest!: envelope_count)
qed

lemma sql_listenv_step:
  assumes "sql_good tab s" "sqlite_ListEnvelopes Q c s = Inr as"
  shows "distinct as \<and> set as = dom (sql_envs tab s)"
proof -
  obtain d where s: "s = Some d" using assms(1) by (rule sql_goodE)
  obtain rows err where r: "sq_ListEnvelopes Q c d = Inr (rows, err)"
      "scan_rows ''sqlite list envelopes scan: %w'' ''sqlite list envelopes: %w'' rows err [] = Inr as"
    using assms(2) s by (auto simp: sqlite_ListEnvelopes_def sql_query_def split: sum.splits)
  from scan_rows_Inr [OF r(2)] have "rows = map Inr as" "err = None" by auto
  with envelope_list r(1) s show ?thesis by (auto simp: sql_envs_def dom_def)
qed

sublocale env: envelope_backend "sqlite_envelope_ops Q" "sql_hdr tab" "sql_envs tab"
  kept_header_json "\<lambda>b. b" "sql_good tab"
proof (unfold_locales, goal_cases)
  case (1 h) then show ?case by (rule kept_header_json_clean)
next
  case (2 e) show ?case ..
next
  case (3 b c h b') then show ?case using sql_create_step [of b c h None b'] by (simp add: sqlite_envelope_ops_def)
next
  case (4 b c h x b') then show ?case using sql_create_step [of b c h "Some x" b'] by (auto simp: sqlite_envelope_ops_def)
next
  case (5 b c h) then show ?case using sql_load_step(1) by (simp add: sqlite_envelope_ops_def)
next
  case (6 b c x) then show ?case using sql_load_step(2) by (simp add: sqlite_envelope_ops_def)
next
  case (7 b c old h b') then show ?case using sql_cas_step [of b c old h None b'] by (simp add: sqlite_envelope_ops_def)
next
  case (8 b c old h x b') then show ?case using sql_cas_step [of b c old h "Some x" b'] by (auto simp: sqlite_envelope_ops_def)
next
  case (9 b c old h x b') then show ?case using sql_cas_step [of b c old h "Some x" b'] by (auto simp: sqlite_envelope_ops_def)
next
  case (10 b c a e b') then show ?case using sql_putenv_step [of b c a e None b'] by (simp add: sqlite_envelope_ops_def)
next
  case (11 b c a e x b') then show ?case using sql_putenv_step [of b c a e "Some x" b'] by (auto simp: sqlite_envelope_ops_def)
next
  case (12 b c a e x b') then show ?case using sql_putenv_step [of b c a e "Some x" b'] by (auto simp: sqlite_envelope_ops_def)
next
  case (13 b c a e) then show ?case using sql_getenv_step(1) by (simp add: sqlite_envelope_ops_def)
next
  case (14 b c a x) then show ?case using sql_getenv_step(2) by (simp add: sqlite_envelope_ops_def)
next
  case (15 b c a b') then show ?case using sql_delenv_step [of b c a None b'] by (simp add: sqlite_envelope_ops_def)
next
  case (16 b c a x b') then show ?case using sql_delenv_step [of b c a "Some x" b'] by (auto simp: sqlite_envelope_ops_def)
next
  case (17 b c a x b') then show ?case using sql_delenv_step [of b c a "Some x" b'] by (auto simp: sqlite_envelope_ops_def)
next
  case (18 b c a v) then show ?case using sql_hasenv_step by (simp add: sqlite_envelope_ops_def)
next
  case (19 b c as) then show ?case using sql_listenv_step by (simp add: sqlite_envelope_ops_def)
qed

lemma backend: "envelope_backend (sqlite_envelope_ops Q) (sql_hdr tab) (sql_envs tab)
    kept_header_json (\<lambda>b. b) (sql_good tab)"
  by (rule env.envelope_backend_axioms)

end

end
