(* ===== verification/Sqlite_Memory.thy ===== *)
theory Sqlite_Memory
  imports Sqlite_Backend
begin

text \<open>
  A database that answers: the laws of \<open>sqlite_db\<close> for a database that is up (\<open>sqlite_live\<close>), and
  one in memory that has them.
\<close>

text \<open>The driver refuses an unsigned value of 2^63 or more.\<close>

definition storable :: "sql_stmt \<Rightarrow> bool" where
  "storable st =
     (case st of InsertHeader rv _ \<Rightarrow> unat rv < 2 ^ 63
      | UpdateHeader rv _ old \<Rightarrow> unat rv < 2 ^ 63 \<and> unat old < 2 ^ 63
      | _ \<Rightarrow> True)"

locale sqlite_live = sqlite_db +
  assumes exec_live: "sql_apply st (tab d) = Some (t, n) \<Longrightarrow> storable st \<Longrightarrow>
      \<exists>d'. sq_Exec Q background st d = (Inr (Inr n), d')"
    and exec_refused: "sql_apply st (tab d) = None \<Longrightarrow> storable st \<Longrightarrow>
      \<exists>m d'. sq_Exec Q background st d = (Inl (Foreign m), d') \<and> Contains (ToLower m) ''unique''"
    and credential_live: "tb_credentials (tab d) a = Some row \<Longrightarrow> sq_SelectCredential Q background a d = Inr row"
    and credential_none: "tb_credentials (tab d) a = None \<Longrightarrow>
      sq_SelectCredential Q background a d = Inl (Sentinel SqlErrNoRows)"
    and credential_count_live: "\<exists>n. sq_CountCredential Q background a d = Inr n"
    and credential_list_live: "\<exists>as. sq_ListCredentials Q background d = Inr (map Inr as, None)"

section \<open>A database in memory\<close>

record sql_mem =
  sm_credentials :: "(string \<times> bytes \<times> bytes \<times> string) list"
  sm_header :: "(64 word \<times> bytes) option"
  sm_envelopes :: "(string \<times> encrypted_blob) list"

definition mem_tables :: "sql_mem \<Rightarrow> sql_tables" where
  "mem_tables m = \<lparr>tb_credentials = map_of (sm_credentials m), tb_header = sm_header m,
     tb_envelopes = map_of (sm_envelopes m)\<rparr>"

definition without :: "'k \<Rightarrow> ('k \<times> 'v) list \<Rightarrow> ('k \<times> 'v) list" where
  "without k al = filter (\<lambda>(k', _). k' \<noteq> k) al"

fun mem_exec :: "sql_stmt \<Rightarrow> sql_mem \<Rightarrow> (sql_mem \<times> nat) option" where
  "mem_exec Migrate m = Some (m, 0)"
| "mem_exec (InsertCredential a c sa r) m =
     (if map_of (sm_credentials m) a \<noteq> None then None
      else Some (m\<lparr>sm_credentials := (a, c, sa, r) # sm_credentials m\<rparr>, 1))"
| "mem_exec (DeleteCredential a) m =
     Some (m\<lparr>sm_credentials := without a (sm_credentials m)\<rparr>,
       if map_of (sm_credentials m) a = None then 0 else 1)"
| "mem_exec (InsertHeader rv body) m =
     (if sm_header m \<noteq> None then None else Some (m\<lparr>sm_header := Some (rv, body)\<rparr>, 1))"
| "mem_exec (UpdateHeader rv body old) m =
     (if map_option fst (sm_header m) = Some old then Some (m\<lparr>sm_header := Some (rv, body)\<rparr>, 1)
      else Some (m, 0))"
| "mem_exec (InsertEnvelope a v al n ct) m =
     (if map_of (sm_envelopes m) a \<noteq> None then None
      else Some (m\<lparr>sm_envelopes := (a, \<lparr>blob_Version = v, blob_Algorithm = al, blob_Nonce = n,
        blob_Ciphertext = ct\<rparr>) # sm_envelopes m\<rparr>, 1))"
| "mem_exec (DeleteEnvelopeRow a) m =
     Some (m\<lparr>sm_envelopes := without a (sm_envelopes m)\<rparr>,
       if map_of (sm_envelopes m) a = None then 0 else 1)"

definition mem_rows :: "(string \<times> 'v) list \<Rightarrow> sql_rows" where
  "mem_rows al = (map (Inr \<circ> str_of) (sort (map bytes_of (remdups (map fst al)))), None)"

definition mem_select :: "'v option \<Rightarrow> go_error + 'v" where
  "mem_select x = (case x of None \<Rightarrow> Inl (Sentinel SqlErrNoRows) | Some v \<Rightarrow> Inr v)"

definition mem_sqlite :: "sql_mem sqlite_api" where
  "mem_sqlite =
     \<lparr>sq_Open = (\<lambda>_. Inr \<lparr>sm_credentials = [], sm_header = None, sm_envelopes = []\<rparr>),
      sq_Exec = (\<lambda>_ st m. if \<not> storable st then (Inl (Foreign ''high bit set''), m)
        else (case mem_exec st m of
          None \<Rightarrow> (Inl (Foreign ''UNIQUE constraint failed''), m)
        | Some (m', n) \<Rightarrow> (Inr (Inr n), m'))),
      sq_SelectCredential = (\<lambda>_ a m. mem_select (map_of (sm_credentials m) a)),
      sq_CountCredential = (\<lambda>_ a m. Inr (if map_of (sm_credentials m) a = None then 0 else 1)),
      sq_ListCredentials = (\<lambda>_ m. Inr (mem_rows (sm_credentials m))),
      sq_SelectHeader = (\<lambda>_ m. mem_select (sm_header m)),
      sq_CountHeader = (\<lambda>_ m. Inr (if sm_header m = None then 0 else 1)),
      sq_SelectEnvelope = (\<lambda>_ a m. mem_select (map_of (sm_envelopes m) a)),
      sq_CountEnvelope = (\<lambda>_ a m. Inr (if map_of (sm_envelopes m) a = None then 0 else 1)),
      sq_ListEnvelopes = (\<lambda>_ m. Inr (mem_rows (sm_envelopes m))),
      sq_Close = (\<lambda>_. None)\<rparr>"

lemma map_of_without: "map_of (without k al) = (map_of al)(k := None)"
  by (induction al) (auto simp: without_def fun_eq_iff)

lemma mem_exec_apply:
  "sql_apply st (mem_tables m) = map_option (\<lambda>(m', n). (mem_tables m', n)) (mem_exec st m)"
  by (cases st) (auto simp: mem_tables_def map_of_without simp del: not_None_eq)

lemma unique_text:
  "Contains (ToLower ''UNIQUE constraint failed'') ''unique''"
  "\<not> isSQLiteUniqueError (Foreign ''high bit set'')"
  by code_simp+

lemma mem_rows_laws:
  assumes "mem_rows al = (map Inr as, None)"
  shows "sorted (map bytes_of as) \<and> distinct as \<and> set as = dom (map_of al)"
proof -
  have "(map Inr as :: (go_error + string) list) = map (Inr \<circ> str_of) (sort (map bytes_of (remdups (map fst al))))"
    using assms by (simp add: mem_rows_def)
  then have "(map Inr as :: (go_error + string) list) = map Inr (map str_of (sort (map bytes_of (remdups (map fst al)))))" by simp
  then have as: "as = map str_of (sort (map bytes_of (remdups (map fst al))))"
    by (subst (asm) inj_map_eq_map) (auto intro: injI)
  have b: "map bytes_of as = sort (map bytes_of (remdups (map fst al)))"
    unfolding as by (simp add: comp_def)
  have i: "inj bytes_of" by (rule injI) simp
  have "distinct (map bytes_of as)" unfolding b by (simp add: distinct_map inj_on_subset [OF i])
  then have d: "distinct as" by (simp add: distinct_map)
  have "set (map bytes_of as) = bytes_of ` fst ` set al" unfolding b by simp
  then have "bytes_of ` set as = bytes_of ` fst ` set al" by simp
  then have "set as = fst ` set al" using i by (simp add: inj_image_eq_iff)
  with d b show ?thesis by (simp add: dom_map_of_conv_image_fst)
qed

interpretation memq: sqlite_live mem_sqlite mem_tables
proof (unfold_locales, goal_cases)
  case (1 c st d n d')
  then show ?case by (auto simp: mem_sqlite_def mem_exec_apply split: if_splits option.splits)
next
  case (2 c st d e d')
  then show ?case by (auto simp: mem_sqlite_def split: if_splits option.splits)
next
  case (3 c st d e d')
  then show ?case by (auto simp: mem_sqlite_def split: if_splits option.splits)
next
  case (4 c st d e d')
  then show ?case using unique_text(2)
    by (auto simp: mem_sqlite_def mem_exec_apply split: if_splits option.splits)
next
  case (8 c d as)
  then show ?case using mem_rows_laws [of "sm_credentials d" as] by (simp add: mem_sqlite_def mem_tables_def)
next
  case (16 c d as)
  then show ?case using mem_rows_laws [of "sm_envelopes d" as] by (simp add: mem_sqlite_def mem_tables_def)
next
  case (17 st d t n)
  then show ?case by (auto simp: mem_sqlite_def mem_exec_apply)
next
  case (18 st d)
  then show ?case using unique_text(1) by (auto simp: mem_sqlite_def mem_exec_apply)
next
  case (22 d)
  show ?case by (rule exI [of _ "map str_of (sort (map bytes_of (remdups (map fst (sm_credentials d)))))"])
    (simp add: mem_sqlite_def mem_rows_def)
qed (auto simp: mem_sqlite_def mem_tables_def mem_select_def split: option.splits)

end
