(* ===== verification/Reference_Map.thy ===== *)
theory Reference_Map
  imports Pebble_Plain Sqlite_Memory
begin

text \<open>
  What a store of plain records that is up answers, as a function of the alias map: the reference
  that both backends compute, call by call, with the same errors and the same order of aliases.
\<close>

definition sorted_aliases :: "record_map \<Rightarrow> string list" where
  "sorted_aliases m = map str_of (sorted_list_of_set (bytes_of ` dom m))"

definition with_alias :: "string \<Rightarrow> (go_error \<Rightarrow> 'r) \<Rightarrow> (string \<Rightarrow> 'r) \<Rightarrow> 'r" where
  "with_alias a fail go =
     (if trim_space a = [] then fail (Sentinel StoreErrInvalidAlias) else go (trim_space a))"

fun map_call :: "store_call \<Rightarrow> record_map \<Rightarrow> store_answer \<times> record_map" where
  "map_call (CPut c r) m =
     (case ValidateRecord (norm_record r) of Some e \<Rightarrow> (ADone (Some e), m)
      | None \<Rightarrow>
          if m (trim_space (rec_Alias r)) \<noteq> None then (ADone (Some (Sentinel StoreErrExists)), m)
          else (ADone None, m(trim_space (rec_Alias r) \<mapsto> norm_record r)))"
| "map_call (CGet c a) m = with_alias a (\<lambda>e. (ARecord (Inl e), m)) (\<lambda>a.
     (ARecord (case m a of None \<Rightarrow> Inl (Sentinel StoreErrNotFound) | Some r \<Rightarrow> Inr r), m))"
| "map_call (CDelete c a) m = with_alias a (\<lambda>e. (ADone (Some e), m)) (\<lambda>a.
     (if m a = None then (ADone (Some (Sentinel StoreErrNotFound)), m)
      else (ADone None, m(a := None))))"
| "map_call (CHas c a) m = with_alias a (\<lambda>e. (ABool (Inl e), m)) (\<lambda>a. (ABool (Inr (m a \<noteq> None)), m))"
| "map_call (CList c) m = (AList (Inr (sorted_aliases m)), m)"

fun map_calls :: "store_call list \<Rightarrow> record_map \<Rightarrow> store_answer list \<times> record_map" where
  "map_calls [] m = ([], m)"
| "map_calls (c # cs) m =
     (case map_call c m of (a, m') \<Rightarrow> (case map_calls cs m' of (as, m'') \<Rightarrow> (a # as, m'')))"

text \<open>A call that is never cancelled, with an RP ID in UTF-8.\<close>

fun plain_call :: "store_call \<Rightarrow> bool" where
  "plain_call (CPut c r) \<longleftrightarrow> c = background \<and> valid_utf8 (trim_space (rec_RPID r))"
| "plain_call (CGet c a) \<longleftrightarrow> c = background"
| "plain_call (CDelete c a) \<longleftrightarrow> c = background"
| "plain_call (CHas c a) \<longleftrightarrow> c = background"
| "plain_call (CList c) \<longleftrightarrow> c = background"

text \<open>A store that answers each call as the map does, answers every sequence of calls so.\<close>

locale computes_map =
  fixes S :: "'s store_ops" and recs :: "'s \<Rightarrow> record_map" and good :: "'s \<Rightarrow> bool"
  assumes call: "good s \<Longrightarrow> plain_call c \<Longrightarrow> do_call S c s = (a, s') \<Longrightarrow>
    good s' \<and> map_call c (recs s) = (a, recs s')"
begin

lemma calls:
  "good s \<Longrightarrow> list_all plain_call cs \<Longrightarrow> do_calls S cs s = (as, s') \<Longrightarrow>
     good s' \<and> map_calls cs (recs s) = (as, recs s')"
proof (induction cs arbitrary: s as)
  case (Cons c cs)
  obtain a t where c: "do_call S c s = (a, t)" by (rule prod.exhaust)
  obtain as' t' where r: "do_calls S cs t = (as', t')" by (rule prod.exhaust)
  from Cons.prems c r have "as = a # as'" "t' = s'" by simp_all
  with call [OF Cons.prems(1) _ c] Cons.prems(2) Cons.IH [of t as'] r show ?case by simp
qed simp

end

text \<open>The records in the map are valid, and stay so.\<close>

definition valid_map :: "record_map \<Rightarrow> bool" where
  "valid_map m \<longleftrightarrow> (\<forall>a r. m a = Some r \<longrightarrow> valid_record r)"

lemma map_call_valid: "valid_map m \<Longrightarrow> map_call c m = (a, m') \<Longrightarrow> valid_map m'"
  by (cases c) (auto simp: valid_map_def with_alias_def split: option.splits if_splits)

lemma sorted_aliases_eq:
  assumes "sorted (map bytes_of as)" "distinct as" "set as = dom m"
  shows "as = sorted_aliases m"
proof -
  have "distinct (map bytes_of as)"
    using assms(2) by (simp add: distinct_map inj_on_def)
  then have "sorted_list_of_set (set (map bytes_of as)) = map bytes_of as"
    by (rule sorted_list_of_set.idem_if_sorted_distinct [OF assms(1)])
  then have "sorted_aliases m = map str_of (map bytes_of as)"
    using assms(3) by (simp add: sorted_aliases_def)
  then show ?thesis by (simp add: comp_def)
qed

section \<open>SQLite\<close>

context sqlite_live
begin

lemma sql_recs_None: "sql_recs tab (Some d) a = None \<longleftrightarrow> tb_credentials (tab d) a = None"
  by (simp add: sql_recs_def)

lemma insert_live:
  fixes a c sa r defines "st \<equiv> InsertCredential a c sa r"
  shows "if tb_credentials (tab d) a = None then \<exists>d'. sql_exec Q background st (Some d) = (Inr (Inr 1), Some d')
    else \<exists>m d'. sql_exec Q background st (Some d) = (Inl (Foreign m), Some d') \<and> tab d' = tab d \<and>
      Contains (ToLower m) ''unique''"
proof (cases "tb_credentials (tab d) a = None")
  case True
  then obtain t where "sql_apply st (tab d) = Some (t, 1)" by (simp add: st_def)
  moreover have "storable st" by (simp add: st_def storable_def)
  ultimately obtain d' where "sq_Exec Q background st d = (Inr (Inr 1), d')"
    using exec_live by blast
  with True show ?thesis by (simp add: sql_exec_def)
next
  case False
  then have "sql_apply st (tab d) = None" by (simp add: st_def del: not_None_eq)
  moreover have "storable st" by (simp add: st_def storable_def)
  ultimately obtain m d' where e: "sq_Exec Q background st d = (Inl (Foreign m), d')"
      "Contains (ToLower m) ''unique''"
    using exec_refused by blast
  then have "tab d' = tab d"
    using exec_unique [OF e(1)] unique_isSQLiteUniqueError [of "Foreign m"] by simp
  with e False show ?thesis by (auto simp: sql_exec_def)
qed

lemma sqlite_put_live:
  assumes "s \<noteq> None" "sqlite_Put Q background r s = (e, s')"
  shows "s' \<noteq> None \<and> map_call (CPut background r) (sql_recs tab s) = (ADone e, sql_recs tab s')"
proof -
  obtain d where s: "s = Some d" using assms(1) by blast
  show ?thesis
  proof (cases "ValidateRecord (norm_record r)")
    case (Some x)
    then have "e = Some x" "s' = s" using assms(2) by (simp_all add: sqlite_Put_eq)
    with Some assms(1) show ?thesis by simp
  next
    case None
    let ?a = "trim_space (rec_Alias r)"
    show ?thesis
    proof (cases "tb_credentials (tab d) ?a = None")
      case True
      then obtain d' where x: "sql_exec Q background (InsertCredential ?a (rec_CredentialID r) (rec_Salt r)
          (trim_space (rec_RPID r))) s = (Inr (Inr 1), Some d')"
        using insert_live [of d ?a "rec_CredentialID r" "rec_Salt r" "trim_space (rec_RPID r)"] s by auto
      then have e: "e = None" "s' = Some d'" using assms(2) None by (simp_all add: sqlite_Put_eq)
      from e(1) sql_put_step [of s background r e s'] assms s have
        "sql_recs tab s' = (sql_recs tab s)(?a \<mapsto> norm_record r)" by (simp add: sql_ok_def)
      with e None True s show ?thesis by (simp add: sql_recs_None)
    next
      case False
      then obtain m d' where x: "sql_exec Q background (InsertCredential ?a (rec_CredentialID r) (rec_Salt r)
          (trim_space (rec_RPID r))) s = (Inl (Foreign m), Some d')"
          "tab d' = tab d" "Contains (ToLower m) ''unique''"
        using insert_live [of d ?a "rec_CredentialID r" "rec_Salt r" "trim_space (rec_RPID r)"] s by auto
      then have e: "e = Some (Sentinel StoreErrExists)" "s' = Some d'"
        using assms(2) None by (simp_all add: sqlite_Put_eq)
      moreover have "sql_recs tab s' = sql_recs tab s"
        using x(2) e(2) s by (simp add: sql_recs_def fun_eq_iff)
      moreover have "sql_recs tab s ?a \<noteq> None" using False s by (simp add: sql_recs_None del: not_None_eq)
      ultimately show ?thesis using None by (simp del: not_None_eq)
    qed
  qed
qed

lemma sqlite_delete_live:
  assumes "s \<noteq> None" "sqlite_Delete Q background a s = (e, s')"
  shows "s' \<noteq> None \<and> map_call (CDelete background a) (sql_recs tab s) = (ADone e, sql_recs tab s')"
proof (cases "trim_space a = []")
  case True
  then show ?thesis using assms by (auto simp: sqlite_Delete_def ValidateAlias_def with_alias_def)
next
  case False
  obtain d where s: "s = Some d" using assms(1) by blast
  let ?st = "DeleteCredential (trim_space a)"
  have "storable ?st" by (simp add: storable_def)
  moreover obtain t where t: "sql_apply ?st (tab d) =
      Some (t, if tb_credentials (tab d) (trim_space a) = None then 0 else 1)" by simp
  ultimately obtain d' where x: "sq_Exec Q background ?st d =
      (Inr (Inr (if tb_credentials (tab d) (trim_space a) = None then 0 else 1)), d')"
    using exec_live by blast
  have "tab d' = (tab d)\<lparr>tb_credentials := (tb_credentials (tab d))(trim_space a := None)\<rparr>"
    using exec_ok [OF x] by simp
  then have m: "sql_recs tab (Some d') = (sql_recs tab s)(trim_space a := None)"
    by (simp add: s sql_recs_def fun_eq_iff)
  have "(e, s') = (if tb_credentials (tab d) (trim_space a) = None
      then (Some (Sentinel StoreErrNotFound), Some d') else (None, Some d'))"
    using assms(2) x s False
    by (auto simp: sqlite_Delete_def ValidateAlias_def sql_exec_def Let_def simp del: not_None_eq)
  then show ?thesis using m False s
    by (auto simp: with_alias_def sql_recs_None fun_upd_idem simp del: not_None_eq split: if_splits)
qed

lemma sqlite_call:
  assumes "s \<noteq> None" "plain_call c" "do_call (sqlite_ops Q) c s = (a, s')"
    "valid_map (sql_recs tab s)"
  shows "s' \<noteq> None \<and> map_call c (sql_recs tab s) = (a, sql_recs tab s')"
proof -
  obtain d where s: "s = Some d" using assms(1) by blast
  show ?thesis
  proof (cases c)
    case (CPut x r)
    with assms obtain e where "sqlite_Put Q background r s = (e, s')" "a = ADone e"
      by (auto simp: sqlite_ops_def split: prod.splits)
    with sqlite_put_live [OF assms(1)] CPut assms(2) show ?thesis by simp
  next
    case (CDelete x b)
    with assms obtain e where "sqlite_Delete Q background b s = (e, s')" "a = ADone e"
      by (auto simp: sqlite_ops_def split: prod.splits)
    with sqlite_delete_live [OF assms(1)] CDelete assms(2) show ?thesis by simp
  next
    case (CGet x b)
    show ?thesis
    proof (cases "trim_space b = []")
      case True
      with CGet assms show ?thesis
        by (auto simp: sqlite_ops_def sqlite_Get_def ValidateAlias_def with_alias_def)
    next
      case False
      show ?thesis
      proof (cases "tb_credentials (tab d) (trim_space b)")
        case None
        with credential_none [OF None] False CGet assms s show ?thesis
          by (auto simp: sqlite_ops_def sqlite_Get_def ValidateAlias_def with_alias_def sql_query_def
              sql_recs_def)
      next
        case (Some row)
        obtain ci sa rp where row: "row = (ci, sa, rp)" by (rule prod_cases3)
        have "valid_record \<lparr>rec_Alias = trim_space b, rec_CredentialID = ci, rec_Salt = sa, rec_RPID = rp\<rparr>"
          using assms(4) Some row s by (auto simp: valid_map_def sql_recs_def)
        then have "ValidateRecord \<lparr>rec_Alias = trim_space b, rec_CredentialID = ci, rec_Salt = sa,
            rec_RPID = rp\<rparr> = None" by (rule Validate_ok)
        with credential_live [OF Some] Some row False CGet assms(2,3) s show ?thesis
          by (auto simp: sqlite_ops_def sqlite_Get_def ValidateAlias_def with_alias_def sql_query_def
              sql_recs_def Let_def)
      qed
    qed
  next
    case (CHas x b)
    obtain n where "sq_CountCredential Q background (trim_space b) d = Inr n"
      using credential_count_live by blast
    with credential_count [OF this] CHas assms s show ?thesis
      by (auto simp: sqlite_ops_def sqlite_Has_def ValidateAlias_def with_alias_def sql_query_def
          sql_recs_def Let_def)
  next
    case (CList x)
    obtain as where l: "sq_ListCredentials Q background d = Inr (map Inr as, None)"
      using credential_list_live by blast
    then have "as = sorted_aliases (sql_recs tab s)"
      using credential_list [OF l] s by (intro sorted_aliases_eq) (auto simp: sql_recs_def dom_def)
    moreover have "scan_rows m1 m2 (map Inr as) None out = Inr (out @ as)" for m1 m2 out
      by (induction as arbitrary: out) simp_all
    ultimately show ?thesis using CList assms s l
      by (auto simp: sqlite_ops_def sqlite_List_def sql_query_def)
  qed
qed

sublocale computes: computes_map "sqlite_ops Q" "sql_recs tab"
  "\<lambda>s. s \<noteq> None \<and> valid_map (sql_recs tab s)"
  using sqlite_call map_call_valid by unfold_locales blast

lemma sqlite_computes: "computes_map (sqlite_ops Q) (sql_recs tab) (\<lambda>s. s \<noteq> None \<and> valid_map (sql_recs tab s))"
  by (rule computes.computes_map_axioms)

end

section \<open>Pebble\<close>

lemma plain_stored_utf8: "valid_utf8 (trim_space (rec_RPID r)) \<Longrightarrow> plain_stored r = norm_record r"
  by (simp add: plain_stored_def norm_record_def)

lemma plain_ok_valid: "plain_ok kv s \<Longrightarrow> valid_map (plain_recs kv s)"
  by (fastforce simp: plain_ok_def valid_map_def plain_recs_def bind_eq_Some_conv split: option.splits)

context pebble_live
begin

lemma pebble_put_live:
  assumes "plain_ok kv s" "valid_utf8 (trim_space (rec_RPID r))" "pebble_Put P background r s = (e, s')"
  shows "map_call (CPut background r) (plain_recs kv s) = (ADone e, plain_recs kv s')"
proof -
  obtain d where s: "s = Some d" using assms(1) plain_okD by blast
  let ?a = "trim_space (rec_Alias r)"
  show ?thesis
  proof (cases "ValidateRecord (norm_record r)")
    case (Some x)
    then have "e = Some x" "s' = s" using assms(3) by (simp_all add: pebble_Put_eq)
    with Some show ?thesis by simp
  next
    case None
    note v = None
    show ?thesis
    proof (cases "kv d (bytes_of ?a)")
      case (Some w)
      then have "e = Some (Sentinel StoreErrExists)" "s' = s"
        using get_live [OF Some] assms(3) v s by (simp_all add: pebble_Put_eq insert_new_def db_read_def)
      moreover have "plain_recs kv s ?a \<noteq> None"
        using plain_recs_None [of kv d ?a] Some assms(1) s by simp
      ultimately show ?thesis using v by (simp del: not_None_eq)
    next
      case None
      then have n: "plain_recs kv s ?a = None" using plain_recs_None [of kv d ?a] assms(1) s by simp
      have "e = None" using insert_new_live [OF None] assms(3) v s
        by (auto simp: pebble_Put_eq) (metis Pair_inject)
      with plain_put_step [OF assms(1,3)] n v assms(2) show ?thesis
        by (auto simp: plain_stored_utf8)
    qed
  qed
qed

lemma pebble_delete_live:
  assumes "plain_ok kv s" "pebble_Delete P background a s = (e, s')"
  shows "map_call (CDelete background a) (plain_recs kv s) = (ADone e, plain_recs kv s')"
proof -
  obtain d where s: "s = Some d" using assms(1) plain_okD by blast
  let ?k = "bytes_of (trim_space a)"
  show ?thesis
  proof (cases "trim_space a = []")
    case True
    then show ?thesis using assms(2) by (auto simp: pebble_Delete_eq with_alias_def)
  next
    case False
    note f = False
    show ?thesis
    proof (cases "kv d ?k")
      case None
      then have "e = Some (Sentinel StoreErrNotFound)" "s' = s"
        using get_none [OF None] assms(2) f s by (simp_all add: pebble_Delete_eq remove_old_def db_read_def)
      with plain_recs_None [of kv d "trim_space a"] None assms(1) s f show ?thesis
        by (simp add: with_alias_def)
    next
      case (Some v)
      obtain d' where d': "pb_Delete P d ?k = (None, d')" using del_live by blast
      have e: "e = None" "s' = Some d'"
        using get_live [OF Some] assms(2) f s d'
        by (simp_all add: pebble_Delete_eq remove_old_def db_read_def db_write_def)
      have "plain_recs kv s' = (plain_recs kv s)(trim_space a := None)"
        using del_ok [OF d'] e s by (simp add: plain_recs_def fun_eq_iff)
      moreover have "plain_recs kv s (trim_space a) \<noteq> None"
        using plain_recs_None [of kv d "trim_space a"] Some assms(1) s by simp
      ultimately show ?thesis using e f by (simp add: with_alias_def del: not_None_eq)
    qed
  qed
qed

lemma pebble_get_live:
  assumes "plain_ok kv s"
  shows "pebble_Get P background a s = (if trim_space a = [] then Inl (Sentinel StoreErrInvalidAlias)
    else case plain_recs kv s (trim_space a) of None \<Rightarrow> Inl (Sentinel StoreErrNotFound) | Some r \<Rightarrow> Inr r)"
proof -
  obtain d where s: "s = Some d"
      and ok: "\<forall>k v. kv d k = Some v \<longrightarrow> (\<exists>r. plain_record k v = Some r \<and> valid_record r)"
    using plain_okD [OF assms] by blast
  let ?k = "bytes_of (trim_space a)"
  show ?thesis
  proof (cases "trim_space a = []")
    case True
    then show ?thesis by (simp add: pebble_Get_def ValidateAlias_def)
  next
    case False
    show ?thesis
    proof (cases "kv d ?k")
      case None
      with get_none [OF None] False s show ?thesis
        by (simp add: pebble_Get_def ValidateAlias_def db_read_def plain_recs_def Let_def)
    next
      case (Some v)
      then obtain r where r: "plain_record ?k v = Some r" "valid_record r" using ok by blast
      from r(1) have "r = \<lparr>rec_Alias = trim_space a, rec_CredentialID = rec_CredentialID r,
          rec_Salt = rec_Salt r, rec_RPID = rec_RPID r\<rparr>"
        by (auto simp: plain_record_def split: sum.splits)
      with get_live [OF Some] False s Some r show ?thesis
        by (auto simp: pebble_Get_def ValidateAlias_def db_read_def plain_recs_def Let_def
            plain_record_def split: sum.splits)
    qed
  qed
qed

lemma pebble_call:
  assumes "plain_ok kv s" "plain_call c" "do_call (pebble_ops P) c s = (a, s')"
  shows "plain_ok kv s' \<and> map_call c (plain_recs kv s) = (a, plain_recs kv s')"
proof -
  have ok: "plain_ok kv s'"
    by (rule conjunct1 [OF store_contract.call_refines [OF plain_contract assms(1,3)]])
  obtain d where s: "s = Some d"
      and all: "\<forall>k v. kv d k = Some v \<longrightarrow> (\<exists>r. plain_record k v = Some r \<and> valid_record r)"
    using plain_okD [OF assms(1)] by blast
  have "map_call c (plain_recs kv s) = (a, plain_recs kv s')"
  proof (cases c)
    case (CPut x r)
    with assms pebble_put_live [OF assms(1)] show ?thesis
      by (auto simp: pebble_ops_def simp del: map_call.simps split: prod.splits)
  next
    case (CDelete x b)
    with assms pebble_delete_live [OF assms(1)] show ?thesis
      by (auto simp: pebble_ops_def simp del: map_call.simps split: prod.splits)
  next
    case (CGet x b)
    with assms pebble_get_live [OF assms(1)] show ?thesis
      by (auto simp: pebble_ops_def with_alias_def)
  next
    case (CHas x b)
    have "plain_recs kv s (trim_space b) = None \<longleftrightarrow> kv d (bytes_of (trim_space b)) = None"
      using plain_recs_None [of kv d] assms(1) s by simp
    with CHas assms(2,3) s get_live [of d "bytes_of (trim_space b)"] get_none [of d "bytes_of (trim_space b)"]
    show ?thesis
      by (cases "kv d (bytes_of (trim_space b))")
        (auto simp: pebble_ops_def pebble_Has_def db_read_def ValidateAlias_def with_alias_def Let_def)
  next
    case (CList x)
    obtain ks where l: "pb_Iter P d [] None = Inr (ks, None)" using iter_live by blast
    have "dom (plain_recs kv s) = str_of ` dom (kv d)"
    proof (intro equalityI subsetI)
      fix b assume "b \<in> dom (plain_recs kv s)"
      then have "bytes_of b \<in> dom (kv d)" using s by (auto simp: plain_recs_def bind_eq_Some_conv)
      then show "b \<in> str_of ` dom (kv d)" by (metis image_eqI str_of_bytes_of)
    next
      fix b assume "b \<in> str_of ` dom (kv d)"
      then obtain k v where k: "b = str_of k" "kv d k = Some v" by auto
      then have "plain_recs kv s b \<noteq> None" using all s by (fastforce simp: plain_recs_def)
      then show "b \<in> dom (plain_recs kv s)" by (simp add: domIff)
    qed
    then have "map str_of ks = sorted_aliases (plain_recs kv s)"
      using iter_ok [OF l] by (intro sorted_aliases_eq)
        (auto simp: in_range_def distinct_map comp_def intro!: inj_onI dest: arg_cong [of _ _ bytes_of])
    with CList assms(2,3) s l show ?thesis
      by (auto simp: pebble_ops_def pebble_List_def db_read_def)
  qed
  with ok show ?thesis by blast
qed

sublocale computes: computes_map "pebble_ops P" "plain_recs kv" "plain_ok kv"
  using pebble_call by unfold_locales blast

lemma pebble_computes: "computes_map (pebble_ops P) (plain_recs kv) (plain_ok kv)"
  by (rule computes.computes_map_axioms)

end

end
