(* ===== verification/Envelope_Codec.thy ===== *)
theory Envelope_Codec
  imports Store
begin

text \<open>
  The wire formats of \<open>pkg/store/encrypted/encrypted.go\<close>: big-endian integers and
  length-prefixed byte strings, the plaintext of a record envelope (\<open>encodeRecord\<close>,
  \<open>decodeRecord\<close> with its \<open>payloadReader\<close>), the additional data that binds a wrapped DEK to
  its header and a record to its alias (\<open>headerAAD\<close>, \<open>recordAAD\<close>), and the format checks
  \<open>validateBlob\<close> and \<open>validateHeader\<close>.

  The lemmas show that decoding inverts encoding, that only encodings decode, that a proper
  prefix of an encoding is rejected, and that both forms of additional data are injective and
  never coincide.
\<close>

section \<open>Constants\<close>

definition FormatVersion :: "16 word" where
  "FormatVersion = 1"

definition AlgorithmXChaCha20Poly1305 :: string where
  "AlgorithmXChaCha20Poly1305 = ''xchacha20poly1305-v1''"

definition storeIDSize :: nat where
  "storeIDSize = 16"

definition maxPayloadField :: nat where
  "maxPayloadField = 2 ^ 20"

definition maxCiphertext :: nat where
  "maxCiphertext = 4 * 2 ^ 20"

definition headerAADPrefix :: bytes where
  "headerAADPrefix = bytes_of ''hmacsecret/encrypted-store/dek/v1''"

definition recordAADPrefix :: bytes where
  "recordAADPrefix = bytes_of ''hmacsecret/encrypted-store/record/v1''"

text \<open>The sizes of \<open>golang.org/x/crypto/chacha20poly1305\<close>.\<close>

definition KeySize :: nat where
  "KeySize = 32"

definition NonceSizeX :: nat where
  "NonceSizeX = 24"

definition Overhead :: nat where
  "Overhead = 16"

section \<open>Big-endian integers\<close>

fun be_bytes :: "nat \<Rightarrow> nat \<Rightarrow> bytes" where
  "be_bytes 0 n = []"
| "be_bytes (Suc k) n = be_bytes k (n div 256) @ [of_nat n]"

definition be_nat :: "bytes \<Rightarrow> nat" where
  "be_nat b = foldl (\<lambda>a x. a * 256 + unat x) 0 b"

lemma length_be_bytes [simp]: "length (be_bytes k n) = k"
  by (induction k arbitrary: n) simp_all

lemma be_nat_bytes [simp]: "be_nat (be_bytes k n) = n mod 256 ^ k"
proof (induction k arbitrary: n)
  case 0
  then show ?case by (simp add: be_nat_def)
next
  case (Suc k)
  have "be_nat (be_bytes (Suc k) n) = be_nat (be_bytes k (n div 256)) * 256 + n mod 256"
    by (simp add: be_nat_def unat_of_nat)
  also have "\<dots> = n mod 256 ^ Suc k"
    using mod_mult2_eq [of n 256 "256 ^ k"] by (simp add: Suc)
  finally show ?case .
qed

lemma be_nat_less: "be_nat b < 256 ^ length b"
proof (induction b rule: rev_induct)
  case Nil
  then show ?case by (simp add: be_nat_def)
next
  case (snoc x b)
  have "unat x < 256" using unsigned_less [of x] by simp
  moreover have "be_nat (b @ [x]) = be_nat b * 256 + unat x" by (simp add: be_nat_def)
  ultimately show ?case using snoc by simp
qed

lemma be_bytes_nat [simp]: "be_bytes (length b) (be_nat b) = b"
proof (induction b rule: rev_induct)
  case Nil
  then show ?case by simp
next
  case (snoc x b)
  have x: "unat x < 256" using unsigned_less [of x] by simp
  have n: "be_nat (b @ [x]) = be_nat b * 256 + unat x" by (simp add: be_nat_def)
  have "of_nat (be_nat b * 256 + unat x) = (of_nat (be_nat b) * 256 + x :: byte)" by simp
  also have "(256 :: byte) = 0" by simp
  finally have "of_nat (be_nat b * 256 + unat x) = x" by simp
  with n x snoc show ?case by simp
qed

lemma be_bytes_eq: "length b = k \<Longrightarrow> be_nat b = n \<Longrightarrow> be_bytes k n = b"
  by auto

lemma be_bytes_inject:
  "m < 256 ^ k \<Longrightarrow> n < 256 ^ k \<Longrightarrow> be_bytes k m = be_bytes k n \<longleftrightarrow> m = n"
  by (metis be_nat_bytes mod_less)

section \<open>Appending fields\<close>

definition appendUint16 :: "bytes \<Rightarrow> 16 word \<Rightarrow> bytes" where
  "appendUint16 dst v = dst @ be_bytes 2 (unat v)"

definition appendUint64 :: "bytes \<Rightarrow> 64 word \<Rightarrow> bytes" where
  "appendUint64 dst v = dst @ be_bytes 8 (unat v)"

text \<open>The length is converted to \<open>uint32\<close>, which wraps around.\<close>

definition appendLengthPrefixed :: "bytes \<Rightarrow> bytes \<Rightarrow> bytes" where
  "appendLengthPrefixed dst value =
     dst @ be_bytes 4 (unat (of_nat (length value) :: 32 word)) @ value"

definition headerAAD :: "encryption_header \<Rightarrow> bytes" where
  "headerAAD h =
     (let out = appendLengthPrefixed [] headerAADPrefix;
          out = appendUint16 out (hdr_Version h);
          out = appendUint64 out (hdr_Revision h);
          out = appendLengthPrefixed out (hdr_StoreID h);
          out = appendLengthPrefixed out (ref_CredentialID (hdr_KEK h));
          out = appendLengthPrefixed out (ref_Salt (hdr_KEK h));
          out = appendLengthPrefixed out (bytes_of (ref_RPID (hdr_KEK h)))
      in out)"

definition recordAAD :: "encryption_header \<Rightarrow> string \<Rightarrow> bytes" where
  "recordAAD h alias =
     (let out = appendLengthPrefixed [] recordAADPrefix;
          out = appendUint16 out FormatVersion;
          out = appendLengthPrefixed out (hdr_StoreID h);
          out = appendLengthPrefixed out (bytes_of alias)
      in out)"

definition encodeRecord :: "store_record \<Rightarrow> go_error + bytes" where
  "encodeRecord r =
     (if maxPayloadField < length (rec_CredentialID r) \<or> maxPayloadField < length (rec_RPID r)
      then Inl (errorf ''%w: record field is too large'' (Sentinel StoreErrInvalidRecord))
      else
        (let out = appendUint16 [] FormatVersion;
             out = appendLengthPrefixed out (rec_CredentialID r);
             out = appendLengthPrefixed out (rec_Salt r);
             out = appendLengthPrefixed out (bytes_of (rec_RPID r))
         in Inr out))"

section \<open>Reading fields\<close>

text \<open>The state of \<open>payloadReader\<close> is the data not yet read.\<close>

definition reader_uint16 :: "bytes \<Rightarrow> go_error + 16 word \<times> bytes" where
  "reader_uint16 data =
     (if length data < 2
      then Inl (errorf ''%w: truncated record'' (Sentinel StoreErrInvalidRecord))
      else Inr (of_nat (be_nat (take 2 data)), drop 2 data))"

definition reader_bytes :: "bytes \<Rightarrow> go_error + bytes \<times> bytes" where
  "reader_bytes data =
     (if length data < 4
      then Inl (errorf ''%w: truncated record'' (Sentinel StoreErrInvalidRecord))
      else
        (let size = (of_nat (be_nat (take 4 data)) :: 32 word); rest = drop 4 data in
         if maxPayloadField < unat size \<or> length rest < unat size
         then Inl (errorf ''%w: invalid record field size'' (Sentinel StoreErrInvalidRecord))
         else Inr (take (unat size) rest, drop (unat size) rest)))"

definition decodeRecord :: "string \<Rightarrow> bytes \<Rightarrow> go_error + store_record" where
  "decodeRecord alias data =
     (case reader_uint16 data of Inl e \<Rightarrow> Inl e
      | Inr (version, data) \<Rightarrow>
          if version \<noteq> FormatVersion
          then Inl (errorf ''%w: record version %d'' (Sentinel ErrUnsupportedFormat))
          else
            (case reader_bytes data of Inl e \<Rightarrow> Inl e
             | Inr (credentialID, data) \<Rightarrow>
                 (case reader_bytes data of Inl e \<Rightarrow> Inl e
                  | Inr (salt, data) \<Rightarrow>
                      (case reader_bytes data of Inl e \<Rightarrow> Inl e
                       | Inr (rpID, data) \<Rightarrow>
                           if length data \<noteq> 0
                           then Inl (errorf ''%w: trailing record data''
                             (Sentinel StoreErrInvalidRecord))
                           else Inr \<lparr>rec_Alias = alias, rec_CredentialID = credentialID,
                             rec_Salt = salt, rec_RPID = str_of rpID\<rparr>))))"

section \<open>Format checks\<close>

definition validateBlob :: "encrypted_blob \<Rightarrow> go_error option" where
  "validateBlob b =
     (if blob_Version b \<noteq> FormatVersion \<or> blob_Algorithm b \<noteq> AlgorithmXChaCha20Poly1305
      then Some (errorf ''%w: envelope version=%d algorithm=%q'' (Sentinel ErrUnsupportedFormat))
      else if length (blob_Nonce b) \<noteq> NonceSizeX
      then Some (errorf ''%w: invalid nonce size'' (Sentinel StoreErrInvalidRecord))
      else if length (blob_Ciphertext b) < Overhead
      then Some (errorf ''%w: ciphertext is too short'' (Sentinel StoreErrInvalidRecord))
      else if maxCiphertext < length (blob_Ciphertext b)
      then Some (errorf ''%w: ciphertext is too large'' (Sentinel StoreErrInvalidRecord))
      else None)"

definition validateHeader :: "encryption_header \<Rightarrow> go_error option" where
  "validateHeader h =
     (if hdr_Version h \<noteq> FormatVersion
      then Some (errorf ''%w: header version %d'' (Sentinel ErrUnsupportedFormat))
      else if hdr_Revision h = 0
      then Some (errorf ''%w: zero header revision'' (Sentinel StoreErrInvalidRecord))
      else if length (hdr_StoreID h) \<noteq> storeIDSize
      then Some (errorf ''%w: store id must be %d bytes'' (Sentinel StoreErrInvalidRecord))
      else (case ValidateKEKReference (hdr_KEK h) of
              Some e \<Rightarrow> Some e
            | None \<Rightarrow> validateBlob (hdr_WrappedDEK h)))"

text \<open>Copies share no memory with the original; the model's values never do.\<close>

definition cloneKEKReference :: "kek_reference \<Rightarrow> kek_reference" where
  "cloneKEKReference r =
     \<lparr>ref_CredentialID = [] @ ref_CredentialID r, ref_Salt = [] @ ref_Salt r,
      ref_RPID = ref_RPID r\<rparr>"

definition cloneBlob :: "encrypted_blob \<Rightarrow> encrypted_blob" where
  "cloneBlob b =
     \<lparr>blob_Version = blob_Version b, blob_Algorithm = blob_Algorithm b,
      blob_Nonce = [] @ blob_Nonce b, blob_Ciphertext = [] @ blob_Ciphertext b\<rparr>"

definition cloneHeader :: "encryption_header \<Rightarrow> encryption_header" where
  "cloneHeader h =
     \<lparr>hdr_Version = hdr_Version h, hdr_Revision = hdr_Revision h,
      hdr_StoreID = [] @ hdr_StoreID h, hdr_KEK = cloneKEKReference (hdr_KEK h),
      hdr_WrappedDEK = cloneBlob (hdr_WrappedDEK h)\<rparr>"

lemma cloneKEKReference_id [simp]: "cloneKEKReference r = r"
  by (simp add: cloneKEKReference_def)

lemma cloneBlob_id [simp]: "cloneBlob b = b"
  by (simp add: cloneBlob_def)

lemma cloneHeader_id [simp]: "cloneHeader h = h"
  by (simp add: cloneHeader_def)

section \<open>Length-prefixed strings\<close>

definition lp :: "bytes \<Rightarrow> bytes" where
  "lp v = be_bytes 4 (unat (of_nat (length v) :: 32 word)) @ v"

lemma appendLengthPrefixed_lp: "appendLengthPrefixed dst v = dst @ lp v"
  by (simp add: appendLengthPrefixed_def lp_def)

lemma length_lp [simp]: "length (lp v) = 4 + length v"
  by (simp add: lp_def)

lemma unat_len32 [simp]: "n < 4294967296 \<Longrightarrow> unat (of_nat n :: 32 word) = n"
  by (simp add: unat_of_nat take_bit_nat_eq_self)

lemma maxPayload_less [simp]: "n \<le> maxPayloadField \<Longrightarrow> n < 4294967296"
  by (simp add: maxPayloadField_def)

lemma lp_inject:
  assumes "length v < 4294967296" "length w < 4294967296"
  shows "lp v @ r = lp w @ s \<longleftrightarrow> v = w \<and> r = s"
proof
  assume eq: "lp v @ r = lp w @ s"
  then have "take 4 (lp v @ r) = take 4 (lp w @ s)" by simp
  then have "be_bytes 4 (length v) = be_bytes 4 (length w)"
    using assms by (simp add: lp_def del: be_bytes.simps)
  then have "length v = length w" using assms by (subst (asm) be_bytes_inject) simp_all
  then show "v = w \<and> r = s" using eq by (simp add: lp_def)
qed simp

lemma be_bytes_append_inject:
  "m < 256 ^ k \<Longrightarrow> n < 256 ^ k \<Longrightarrow>
     be_bytes k m @ r = be_bytes k n @ s \<longleftrightarrow> m = n \<and> r = s"
  by (auto simp: be_bytes_inject)

lemma unat16_bound: "unat (w :: 16 word) < 65536"
  using unsigned_less [of w] by simp

lemma unat64_bound: "unat (w :: 64 word) < 18446744073709551616"
  using unsigned_less [of w] by simp

lemma be_bytes_word [simp]:
  "be_bytes 2 (unat (v :: 16 word)) = be_bytes 2 (unat w) \<longleftrightarrow> v = w"
  "be_bytes 8 (unat (x :: 64 word)) = be_bytes 8 (unat y) \<longleftrightarrow> x = y"
  using unat16_bound [of v] unat16_bound [of w] unat64_bound [of x] unat64_bound [of y]
  by (auto simp: be_bytes_inject word_unat_eq_iff simp del: be_bytes.simps)

lemma reader_uint16_be: "reader_uint16 (be_bytes 2 (unat w) @ r) = Inr (w, r)"
  by (simp add: reader_uint16_def unat16_bound mod_less del: be_bytes.simps)

lemma reader_uint16_Inr: "reader_uint16 d = Inr (w, r) \<Longrightarrow> d = be_bytes 2 (unat w) @ r"
proof -
  assume a: "reader_uint16 d = Inr (w, r)"
  then have l: "length (take 2 d) = 2" and w: "w = of_nat (be_nat (take 2 d))" and r: "r = drop 2 d"
    by (auto simp: reader_uint16_def split: if_splits)
  have "be_nat (take 2 d) < 2 ^ 16" using be_nat_less [of "take 2 d"] l by simp
  then have "unat w = be_nat (take 2 d)" by (simp add: w unat_of_nat take_bit_nat_eq_self)
  then have "be_bytes 2 (unat w) = take 2 d" using be_bytes_eq [OF l] by simp
  then show ?thesis using r by simp
qed

lemma reader_bytes_lp: "length v \<le> maxPayloadField \<Longrightarrow> reader_bytes (lp v @ r) = Inr (v, r)"
  by (simp add: reader_bytes_def lp_def unat_len32 Let_def del: be_bytes.simps)

lemma reader_bytes_Inr:
  "reader_bytes d = Inr (v, r) \<Longrightarrow> d = lp v @ r \<and> length v \<le> maxPayloadField"
proof -
  assume a: "reader_bytes d = Inr (v, r)"
  define n where "n = unat (of_nat (be_nat (take 4 d)) :: 32 word)"
  from a have l: "length (take 4 d) = 4" and n: "n \<le> maxPayloadField" "n \<le> length (drop 4 d)"
    and v: "v = take n (drop 4 d)" and r: "r = drop n (drop 4 d)"
    by (auto simp: reader_bytes_def n_def Let_def split: if_splits)
  have "be_nat (take 4 d) < 4294967296" using be_nat_less [of "take 4 d"] l by simp
  then have "be_nat (take 4 d) = n" by (simp add: n_def unat_len32)
  then have be: "be_bytes 4 n = take 4 d" using be_bytes_eq [OF l] by simp
  have lv: "length v = n" using v n by simp
  have "lp v = take 4 d @ v" using be lv n by (simp add: lp_def unat_len32 del: be_bytes.simps)
  then have "lp v @ r = take 4 d @ (v @ r)" by simp
  also have "v @ r = drop 4 d" using v r by (metis append_take_drop_id)
  finally show ?thesis using lv n by simp
qed

lemma reader_errors:
  "reader_uint16 d = Inl e \<Longrightarrow> errors_is e StoreErrInvalidRecord"
  "reader_bytes d = Inl e \<Longrightarrow> errors_is e StoreErrInvalidRecord"
  by (auto simp: reader_uint16_def reader_bytes_def Let_def split: if_splits)

section \<open>Records\<close>

definition encoding :: "store_record \<Rightarrow> bytes" where
  "encoding r =
     be_bytes 2 (unat FormatVersion) @ lp (rec_CredentialID r) @ lp (rec_Salt r) @
     lp (bytes_of (rec_RPID r))"

definition fits :: "store_record \<Rightarrow> bool" where
  "fits r \<longleftrightarrow> length (rec_CredentialID r) \<le> maxPayloadField \<and> length (rec_RPID r) \<le> maxPayloadField"

lemma encodeRecord_eq:
  "encodeRecord r =
     (if fits r then Inr (encoding r)
      else Inl (errorf ''%w: record field is too large'' (Sentinel StoreErrInvalidRecord)))"
  by (simp add: encodeRecord_def encoding_def fits_def appendLengthPrefixed_lp appendUint16_def
      Let_def not_less del: be_bytes.simps)

lemma encoding_alias [simp]: "encoding (r\<lparr>rec_Alias := a\<rparr>) = encoding r"
  by (simp add: encoding_def)

lemma length_encoding:
  "length (encoding r) =
     14 + length (rec_CredentialID r) + length (rec_Salt r) + length (rec_RPID r)"
  by (simp add: encoding_def del: be_bytes.simps)

lemma decode_encoding:
  assumes "fits r" "length (rec_Salt r) \<le> maxPayloadField"
  shows "decodeRecord a (encoding r) = Inr (r\<lparr>rec_Alias := a\<rparr>)"
  using assms reader_bytes_lp [of "bytes_of (rec_RPID r)" "[]"]
  by (simp add: decodeRecord_def encoding_def reader_uint16_be reader_bytes_lp fits_def
      del: be_bytes.simps)

lemma decodeRecord_Inr:
  assumes "decodeRecord a d = Inr r"
  shows "d = encoding r \<and> rec_Alias r = a \<and> fits r \<and> length (rec_Salt r) \<le> maxPayloadField"
proof -
  from assms obtain d1 c d2 s d3 p where
      u: "reader_uint16 d = Inr (FormatVersion, d1)" and c: "reader_bytes d1 = Inr (c, d2)"
    and s: "reader_bytes d2 = Inr (s, d3)" and p: "reader_bytes d3 = Inr (p, [])"
    and r: "r = \<lparr>rec_Alias = a, rec_CredentialID = c, rec_Salt = s, rec_RPID = str_of p\<rparr>"
    by (auto simp: decodeRecord_def split: sum.splits prod.splits if_splits)
  show ?thesis
    using reader_uint16_Inr [OF u] reader_bytes_Inr [OF c] reader_bytes_Inr [OF s]
      reader_bytes_Inr [OF p] r
    by (simp add: encoding_def fits_def del: be_bytes.simps)
qed

lemma decodeRecord_Inl:
  "decodeRecord a d = Inl e \<Longrightarrow>
     errors_is e StoreErrInvalidRecord \<or>
     errors_is e ErrUnsupportedFormat \<and>
       (\<exists>v r. reader_uint16 d = Inr (v, r) \<and> v \<noteq> FormatVersion)"
  by (auto simp: decodeRecord_def split: sum.splits prod.splits if_splits dest: reader_errors)

lemma encoding_prefix_free:
  assumes "encoding r = encoding r' @ s" "fits r" "fits r'"
    "length (rec_Salt r) \<le> maxPayloadField" "length (rec_Salt r') \<le> maxPayloadField"
  shows "s = []"
proof -
  note b = assms(2-5) [unfolded fits_def]
  have "lp (rec_CredentialID r) @ lp (rec_Salt r) @ lp (bytes_of (rec_RPID r))
      = lp (rec_CredentialID r') @ lp (rec_Salt r') @ lp (bytes_of (rec_RPID r')) @ s"
    using assms(1) by (simp add: encoding_def del: be_bytes.simps)
  then have "lp (rec_Salt r) @ lp (bytes_of (rec_RPID r))
      = lp (rec_Salt r') @ lp (bytes_of (rec_RPID r')) @ s"
    using b by (subst (asm) lp_inject) auto
  then have "lp (bytes_of (rec_RPID r)) @ [] = lp (bytes_of (rec_RPID r')) @ s"
    using b by (subst (asm) lp_inject) auto
  then show ?thesis using b by (subst (asm) lp_inject) auto
qed

section \<open>Additional data\<close>

lemma recordAAD_eq:
  "recordAAD h a = lp recordAADPrefix @ be_bytes 2 (unat FormatVersion) @ lp (hdr_StoreID h) @
     lp (bytes_of a)"
  by (simp add: recordAAD_def appendLengthPrefixed_lp appendUint16_def Let_def del: be_bytes.simps)

lemma headerAAD_eq:
  "headerAAD h = lp headerAADPrefix @ be_bytes 2 (unat (hdr_Version h)) @
     be_bytes 8 (unat (hdr_Revision h)) @ lp (hdr_StoreID h) @ lp (ref_CredentialID (hdr_KEK h)) @
     lp (ref_Salt (hdr_KEK h)) @ lp (bytes_of (ref_RPID (hdr_KEK h)))"
  by (simp add: headerAAD_def appendLengthPrefixed_lp appendUint16_def appendUint64_def Let_def
      del: be_bytes.simps)

lemma lp_inject_end:
  "length v < 4294967296 \<Longrightarrow> length w < 4294967296 \<Longrightarrow> lp v = lp w \<longleftrightarrow> v = w"
  using lp_inject [of v w "[]" "[]"] by simp

text \<open>The fields of a header that its additional data covers.\<close>

definition bound_fields :: "encryption_header \<Rightarrow> 16 word \<times> 64 word \<times> bytes \<times> kek_reference" where
  "bound_fields h = (hdr_Version h, hdr_Revision h, hdr_StoreID h, hdr_KEK h)"

text \<open>Go's slices are shorter than \<open>2 ^ 63\<close>; the prefixes need \<open>2 ^ 32\<close>.\<close>

definition short_header :: "encryption_header \<Rightarrow> bool" where
  "short_header h \<longleftrightarrow>
     length (hdr_StoreID h) < 4294967296 \<and> length (ref_CredentialID (hdr_KEK h)) < 4294967296 \<and>
     length (ref_Salt (hdr_KEK h)) < 4294967296 \<and> length (ref_RPID (hdr_KEK h)) < 4294967296"

lemma recordAAD_inject:
  assumes "length (hdr_StoreID h) < 4294967296" "length (hdr_StoreID h') < 4294967296"
    "length a < 4294967296" "length a' < 4294967296"
  shows "recordAAD h a = recordAAD h' a' \<longleftrightarrow> hdr_StoreID h = hdr_StoreID h' \<and> a = a'"
  using assms by (simp add: recordAAD_eq lp_inject lp_inject_end del: be_bytes.simps)

lemma headerAAD_inject:
  assumes "short_header h" "short_header h'"
  shows "headerAAD h = headerAAD h' \<longleftrightarrow> bound_fields h = bound_fields h'"
proof
  assume "headerAAD h = headerAAD h'"
  then have "be_bytes 2 (unat (hdr_Version h)) @ be_bytes 8 (unat (hdr_Revision h)) @
      lp (hdr_StoreID h) @ lp (ref_CredentialID (hdr_KEK h)) @ lp (ref_Salt (hdr_KEK h)) @
      lp (bytes_of (ref_RPID (hdr_KEK h)))
    = be_bytes 2 (unat (hdr_Version h')) @ be_bytes 8 (unat (hdr_Revision h')) @
      lp (hdr_StoreID h') @ lp (ref_CredentialID (hdr_KEK h')) @ lp (ref_Salt (hdr_KEK h')) @
      lp (bytes_of (ref_RPID (hdr_KEK h')))"
    by (simp add: headerAAD_eq del: be_bytes.simps)
  then show "bound_fields h = bound_fields h'"
    using assms
    by (simp add: be_bytes_append_inject lp_inject lp_inject_end short_header_def bound_fields_def
        kek_reference.equality del: be_bytes.simps)
next
  assume "bound_fields h = bound_fields h'"
  then show "headerAAD h = headerAAD h'" by (simp add: headerAAD_eq bound_fields_def)
qed

lemma length_prefixes [simp]: "length headerAADPrefix = 33" "length recordAADPrefix = 36"
  by (simp_all add: headerAADPrefix_def recordAADPrefix_def)

lemma header_record_AAD_differ: "headerAAD h \<noteq> recordAAD h' a"
proof
  assume "headerAAD h = recordAAD h' a"
  then have "take 4 (headerAAD h) = take 4 (recordAAD h' a)" by simp
  then have "be_bytes 4 33 = be_bytes 4 36"
    by (simp add: headerAAD_eq recordAAD_eq lp_def del: be_bytes.simps)
  then show False by (subst (asm) be_bytes_inject) simp_all
qed

section \<open>What the format checks accept\<close>

definition valid_blob :: "encrypted_blob \<Rightarrow> bool" where
  "valid_blob b \<longleftrightarrow>
     blob_Version b = FormatVersion \<and> blob_Algorithm b = AlgorithmXChaCha20Poly1305 \<and>
     length (blob_Nonce b) = NonceSizeX \<and> Overhead \<le> length (blob_Ciphertext b) \<and>
     length (blob_Ciphertext b) \<le> maxCiphertext"

lemma validateBlob_None [simp]: "validateBlob b = None \<longleftrightarrow> valid_blob b"
  by (auto simp: validateBlob_def valid_blob_def)

lemma validateBlob_Some:
  "validateBlob b = Some e \<Longrightarrow>
     errors_is e StoreErrInvalidRecord \<or> errors_is e ErrUnsupportedFormat"
  by (auto simp: validateBlob_def split: if_splits)

definition valid_header :: "encryption_header \<Rightarrow> bool" where
  "valid_header h \<longleftrightarrow>
     hdr_Version h = FormatVersion \<and> hdr_Revision h \<noteq> 0 \<and> length (hdr_StoreID h) = storeIDSize \<and>
     ValidateKEKReference (hdr_KEK h) = None \<and> valid_blob (hdr_WrappedDEK h)"

lemma validateHeader_None [simp]: "validateHeader h = None \<longleftrightarrow> valid_header h"
  by (auto simp: validateHeader_def valid_header_def split: option.splits)

lemma validate_ok [simp]:
  "valid_blob b \<Longrightarrow> validateBlob b = None"
  "valid_header h \<Longrightarrow> validateHeader h = None"
  by simp_all

lemma validateHeader_Some:
  "validateHeader h = Some e \<Longrightarrow>
     errors_is e StoreErrInvalidRecord \<or> errors_is e ErrUnsupportedFormat"
  by (auto simp: validateHeader_def split: if_splits option.splits
      dest: ValidateKEKReference_Some validateBlob_Some)

lemma clean_valid_blob [simp]: "valid_blob b \<Longrightarrow> clean_blob b"
  by (auto simp: valid_blob_def clean_blob_def AlgorithmXChaCha20Poly1305_def ord_def
      intro!: valid_utf8_ascii)

section \<open>Properties\<close>

text \<open>C26: Decoding the encoding of a record gives the record back, under the alias it is
  looked up by, whenever the salt has the size that \<open>ValidateRecord\<close> requires.\<close>

theorem record_codec_roundtrip:
  assumes "encodeRecord r = Inr b" "length (rec_Salt r) = SaltSize"
  shows "decodeRecord a b = Inr (r\<lparr>rec_Alias := a\<rparr>)"
  using assms decode_encoding [of r a]
  by (simp add: encodeRecord_eq SaltSize_def maxPayloadField_def split: if_splits)

definition sample_record :: store_record where
  "sample_record = \<lparr>rec_Alias = ''mail'', rec_CredentialID = [7, 8, 9],
     rec_Salt = replicate 32 5, rec_RPID = ''example.org''\<rparr>"

lemma sample_fits [simp]: "fits sample_record"
  by (simp add: sample_record_def fits_def maxPayloadField_def)

lemma sample_encoding [simp]: "encodeRecord sample_record = Inr (encoding sample_record)"
  by (simp add: encodeRecord_eq)

lemma sample_salt [simp]: "length (rec_Salt sample_record) = SaltSize"
  by (simp add: sample_record_def SaltSize_def)

theorem record_codec_roundtrip_witness:
  "decodeRecord ''mail'' (encoding sample_record) = Inr sample_record \<and>
   length (encoding sample_record) = 60"
  using record_codec_roundtrip [OF sample_encoding sample_salt, of "''mail''"]
  by (simp add: sample_record_def length_encoding)

text \<open>C27: Only encodings decode: whatever \<open>decodeRecord\<close> accepts is, byte for byte, what
  \<open>encodeRecord\<close> makes of the record it returns, so no two texts decode to one record.\<close>

theorem record_decode_canonical:
  assumes "decodeRecord a d = Inr r"
  shows "encodeRecord r = Inr d \<and> rec_Alias r = a"
  using decodeRecord_Inr [OF assms] by (simp add: encodeRecord_eq)

theorem record_decode_canonical_witness:
  "encodeRecord (sample_record\<lparr>rec_Alias := ''work''\<rparr>) = Inr (encoding sample_record)"
  using record_decode_canonical [OF decode_encoding [of sample_record "''work''"]]
  by (simp add: sample_record_def fits_def maxPayloadField_def)

text \<open>A record encoding cut short is rejected as an invalid record, at whatever byte it
  is cut.\<close>

theorem record_truncation_rejected:
  assumes "encodeRecord r = Inr (p @ s)" "s \<noteq> []" "length (rec_Salt r) = SaltSize"
  shows "\<exists>e. decodeRecord a p = Inl e \<and> errors_is e StoreErrInvalidRecord"
proof (cases "decodeRecord a p")
  case (Inr r')
  note d = decodeRecord_Inr [OF Inr]
  have "encoding r = encoding r' @ s" "fits r" using assms(1) d
    by (auto simp: encodeRecord_eq split: if_splits)
  then have "s = []"
    using encoding_prefix_free d assms(3) by (simp add: SaltSize_def maxPayloadField_def)
  then show ?thesis using assms(2) by simp
next
  case (Inl e)
  have "v = FormatVersion" if u: "reader_uint16 p = Inr (v, q)" for v q
  proof -
    have "be_bytes 2 (unat v) @ q @ s = encoding r"
      using reader_uint16_Inr [OF u] assms(1) by (simp add: encodeRecord_eq split: if_splits)
    then show ?thesis by (simp add: encoding_def)
  qed
  then show ?thesis using decodeRecord_Inl [OF Inl] Inl by blast
qed

theorem record_truncation_rejected_witness:
  "\<exists>e. decodeRecord ''mail'' (take 59 (encoding sample_record)) = Inl e \<and>
     errors_is e StoreErrInvalidRecord"
proof -
  have "drop 59 (encoding sample_record) \<noteq> []"
    by (simp add: length_encoding sample_record_def)
  then show ?thesis
    using record_truncation_rejected [of sample_record "take 59 (encoding sample_record)"
        "drop 59 (encoding sample_record)"] by simp
qed

text \<open>C28: The additional data of a wrapped DEK determines the version, the revision, the store
  and the KEK reference of the header it was made for, and is never the additional data of a
  record: a wrapped DEK cannot be moved to another header, nor a record be passed off as one.\<close>

theorem header_aad_binding:
  assumes "short_header h" "short_header h'"
  shows "(headerAAD h = headerAAD h' \<longleftrightarrow> bound_fields h = bound_fields h') \<and>
    headerAAD h \<noteq> recordAAD h' a"
  using headerAAD_inject [OF assms] header_record_AAD_differ by blast

definition sample_header :: encryption_header where
  "sample_header =
     \<lparr>hdr_Version = 1, hdr_Revision = 1, hdr_StoreID = replicate 16 3,
      hdr_KEK = \<lparr>ref_CredentialID = [1, 2], ref_Salt = replicate 32 4, ref_RPID = ''example.org''\<rparr>,
      hdr_WrappedDEK = \<lparr>blob_Version = 1, blob_Algorithm = AlgorithmXChaCha20Poly1305,
        blob_Nonce = replicate 24 0, blob_Ciphertext = replicate 48 0\<rparr>\<rparr>"

theorem header_aad_binding_witness:
  "headerAAD sample_header \<noteq> headerAAD (sample_header\<lparr>hdr_Revision := 2\<rparr>)"
  using header_aad_binding [of sample_header "sample_header\<lparr>hdr_Revision := 2\<rparr>"]
  by (simp add: short_header_def bound_fields_def sample_header_def)

text \<open>The additional data of a record determines the store and the alias: a ciphertext
  cannot be moved to another alias or into another store.\<close>

theorem record_aad_binding:
  assumes "length (hdr_StoreID h) = storeIDSize" "length (hdr_StoreID h') = storeIDSize"
    "length a < 2 ^ 32" "length a' < 2 ^ 32"
  shows "recordAAD h a = recordAAD h' a' \<longleftrightarrow> hdr_StoreID h = hdr_StoreID h' \<and> a = a'"
  using recordAAD_inject assms by (simp add: storeIDSize_def)

theorem record_aad_binding_witness:
  "recordAAD sample_header ''mail'' \<noteq> recordAAD sample_header ''work''"
  using record_aad_binding [of sample_header sample_header "''mail''" "''work''"]
  by (simp add: sample_header_def storeIDSize_def)

end
