(* ===== verification/Sealing.thy ===== *)
theory Sealing
  imports Envelope_Codec
begin

text \<open>
  Sealed keys and authenticated encryption of \<open>pkg/store/encrypted/encrypted.go\<close>: \<open>seal\<close>,
  \<open>openLocked\<close>, \<open>wrapEnclave\<close>, \<open>unwrapEnclave\<close>, \<open>randomEnclave\<close> and \<open>withAEAD\<close>.

  Two packages outside the repository are parameters. \<open>memguard\<close> holds the operations of
  \<open>github.com/awnumar/memguard\<close> on enclaves (a nil \<open>*Enclave\<close> is \<open>None\<close>) and locked buffers
  (lists of bytes); \<open>aead_ops\<close> those of \<open>golang.org/x/crypto/chacha20poly1305\<close>. Their
  documented laws are the locales \<open>memguard_api\<close> (an enclave opens to what was sealed, if it
  opens), \<open>memguard_live\<close> (it opens, and buffers are allocated) and \<open>xchacha\<close> (opening
  inverts sealing, and accepts only what sealing produces).
\<close>

section \<open>The packages used\<close>

record 'e memguard =
  mg_Size :: "'e \<Rightarrow> nat"
  mg_Open :: "'e \<Rightarrow> go_error + bytes"
  mg_NewBuffer :: "nat \<Rightarrow> nat"            \<comment> \<open>the size of the buffer allocated\<close>
  mg_Seal :: "bytes \<Rightarrow> 'e option"          \<comment> \<open>nil for an empty buffer\<close>

record aead_ops =
  ae_NewX :: "bytes \<Rightarrow> go_error option"
  ae_Seal :: "bytes \<Rightarrow> bytes \<Rightarrow> bytes \<Rightarrow> bytes \<Rightarrow> bytes"           \<comment> \<open>key, nonce, plaintext, data\<close>
  ae_Open :: "bytes \<Rightarrow> bytes \<Rightarrow> bytes \<Rightarrow> bytes \<Rightarrow> bytes option"    \<comment> \<open>key, nonce, ciphertext, data\<close>

section \<open>The operations\<close>

definition validateKeyEnclave :: "'e memguard \<Rightarrow> 'e option \<Rightarrow> string \<Rightarrow> go_error option" where
  "validateKeyEnclave M key name =
     (if (case key of None \<Rightarrow> True | Some e \<Rightarrow> mg_Size M e \<noteq> KeySize)
      then Some (Errorf (''encrypted store: '' @ name @ '' must be a sealed 32-byte key''))
      else None)"

text \<open>\<open>fn\<close> gets the key of the cipher it would be given.\<close>

definition withAEAD ::
  "'e memguard \<Rightarrow> aead_ops \<Rightarrow> 'e option \<Rightarrow> (bytes \<Rightarrow> go_error + 'r) \<Rightarrow> go_error + 'r" where
  "withAEAD M A key fn =
     (case key of None \<Rightarrow> Inl nil_deref
      | Some e \<Rightarrow>
          (case mg_Open M e of Inl err \<Rightarrow> Inl err
           | Inr buf \<Rightarrow>
               (case ae_NewX A buf of Some err \<Rightarrow> Inl err
                | None \<Rightarrow> fn buf)))"

definition seal ::
  "'e memguard \<Rightarrow> aead_ops \<Rightarrow> rng \<Rightarrow> nat \<Rightarrow> 'e option \<Rightarrow> bytes \<Rightarrow> bytes
     \<Rightarrow> go_error + encrypted_blob" where
  "seal M A g k key plaintext aad =
     (case validateKeyEnclave M key ''key'' of Some e \<Rightarrow> Inl e
      | None \<Rightarrow>
          (case rand_Read g k NonceSizeX of Inl e \<Rightarrow> Inl e
           | Inr nonce \<Rightarrow>
               (case withAEAD M A key (\<lambda>aead. Inr (ae_Seal A aead nonce plaintext aad)) of
                  Inl e \<Rightarrow> Inl e
                | Inr ciphertext \<Rightarrow>
                    Inr \<lparr>blob_Version = FormatVersion,
                      blob_Algorithm = AlgorithmXChaCha20Poly1305,
                      blob_Nonce = nonce, blob_Ciphertext = ciphertext\<rparr>)))"

text \<open>
  \<open>aead.Open\<close> appends to the empty prefix of the locked buffer: what it appends lies in the
  buffer exactly when it fits its capacity, \<open>size\<close>.
\<close>

definition openLocked ::
  "'e memguard \<Rightarrow> aead_ops \<Rightarrow> 'e option \<Rightarrow> encrypted_blob \<Rightarrow> bytes \<Rightarrow> go_error + bytes" where
  "openLocked M A key blob aad =
     (case validateKeyEnclave M key ''key'' of Some e \<Rightarrow> Inl e
      | None \<Rightarrow>
          (case validateBlob blob of Some e \<Rightarrow> Inl e
           | None \<Rightarrow>
               (let sz = length (blob_Ciphertext blob) - Overhead in
                if mg_NewBuffer M sz \<noteq> sz
                then Inl (Errorf ''allocate locked plaintext buffer'')
                else withAEAD M A key (\<lambda>aead.
                  (case ae_Open A aead (blob_Nonce blob) (blob_Ciphertext blob) aad of
                     None \<Rightarrow> Inl (Sentinel ErrIntegrity)
                   | Some opened \<Rightarrow>
                       if length opened \<noteq> sz \<or> (0 < sz \<and> \<not> length opened \<le> sz)
                       then Inl (errorf ''%w: plaintext escaped locked buffer''
                         (Sentinel ErrIntegrity))
                       else Inr opened)))))"

definition wrapEnclave ::
  "'e memguard \<Rightarrow> aead_ops \<Rightarrow> rng \<Rightarrow> nat \<Rightarrow> 'e option \<Rightarrow> 'e option \<Rightarrow> bytes
     \<Rightarrow> go_error + encrypted_blob" where
  "wrapEnclave M A g k kek plaintext aad =
     (case validateKeyEnclave M plaintext ''DEK'' of Some e \<Rightarrow> Inl e
      | None \<Rightarrow>
          (case plaintext of None \<Rightarrow> Inl nil_deref
           | Some p \<Rightarrow>
               (case mg_Open M p of Inl e \<Rightarrow> Inl e
                | Inr buf \<Rightarrow> seal M A g k kek buf aad)))"

definition unwrapEnclave ::
  "'e memguard \<Rightarrow> aead_ops \<Rightarrow> 'e option \<Rightarrow> encrypted_blob \<Rightarrow> bytes \<Rightarrow> go_error + 'e option" where
  "unwrapEnclave M A kek blob aad =
     (case openLocked M A kek blob aad of Inl e \<Rightarrow> Inl e
      | Inr plaintext \<Rightarrow>
          if length plaintext \<noteq> KeySize
          then Inl (errorf ''%w: unwrapped DEK has invalid size'' (Sentinel ErrIntegrity))
          else Inr (mg_Seal M plaintext))"

definition randomEnclave :: "'e memguard \<Rightarrow> rng \<Rightarrow> nat \<Rightarrow> nat \<Rightarrow> go_error + 'e option" where
  "randomEnclave M g k n =
     (if mg_NewBuffer M n \<noteq> n then Inl (Errorf ''allocate locked buffer'')
      else (case rand_Read g k n of Inl e \<Rightarrow> Inl e
            | Inr plaintext \<Rightarrow> Inr (mg_Seal M plaintext)))"

lemmas sealing_defs = validateKeyEnclave_def withAEAD_def seal_def openLocked_def wrapEnclave_def
  unwrapEnclave_def randomEnclave_def

section \<open>The laws of the packages\<close>

locale memguard_api =
  fixes M :: "'e memguard"
    and content :: "'e \<Rightarrow> bytes"
  assumes size_content: "mg_Size M e = length (content e)"
    and open_content: "mg_Open M e = Inr b \<Longrightarrow> b = content e"
    and open_foreign: "mg_Open M e = Inl x \<Longrightarrow> \<not> errors_is x t"
    and seal_content: "mg_Seal M b = Some e \<Longrightarrow> content e = b"
    and seal_some: "b \<noteq> [] \<Longrightarrow> mg_Seal M b \<noteq> None"
begin

lemma validateKey_None:
  "validateKeyEnclave M key n = None \<longleftrightarrow> (\<exists>e. key = Some e \<and> length (content e) = KeySize)"
  by (cases key) (auto simp: validateKeyEnclave_def size_content)

lemma validateKey_Some: "validateKeyEnclave M key n = Some x \<Longrightarrow> \<not> errors_is x t"
  by (auto simp: validateKeyEnclave_def split: if_splits)

lemma seal_long: "length b = KeySize \<Longrightarrow> \<exists>e. mg_Seal M b = Some e \<and> content e = b"
  using seal_some [of b] seal_content by (force simp: KeySize_def)

lemma randomEnclave_Inr:
  "randomEnclave M g k KeySize = Inr d \<Longrightarrow>
     \<exists>e. d = Some e \<and> rand_Read g k KeySize = Inr (content e) \<and> length (content e) = KeySize"
  using seal_long rand_Read_length
  by (fastforce simp: randomEnclave_def split: if_splits sum.splits)

lemma randomEnclave_Inl: "randomEnclave M g k n = Inl x \<Longrightarrow> \<not> errors_is x t"
  by (auto simp: randomEnclave_def rand_Read_foreign split: if_splits sum.splits)

end

locale memguard_live = memguard_api +
  assumes open_live: "mg_Open M e = Inr (content e)"
    and buffer_live: "mg_NewBuffer M n = n"

locale xchacha =
  fixes A :: aead_ops
  assumes newx: "ae_NewX A k = None \<longleftrightarrow> length k = KeySize"
    and newx_foreign: "ae_NewX A k = Some x \<Longrightarrow> \<not> errors_is x t"
    and seal_length: "length (ae_Seal A k n p ad) = length p + Overhead"
    and open_seal: "length k = KeySize \<Longrightarrow> length n = NonceSizeX \<Longrightarrow>
      ae_Open A k n (ae_Seal A k n p ad) ad = Some p"
    and open_sound: "ae_Open A k n c ad = Some p \<Longrightarrow> c = ae_Seal A k n p ad"
begin

lemma newx_ok: "length k = KeySize \<Longrightarrow> ae_NewX A k = None"
  by (simp add: newx)

end

text \<open>The envelope of a plaintext.\<close>

definition sealed :: "aead_ops \<Rightarrow> bytes \<Rightarrow> bytes \<Rightarrow> bytes \<Rightarrow> bytes \<Rightarrow> encrypted_blob" where
  "sealed A k n p ad =
     \<lparr>blob_Version = FormatVersion, blob_Algorithm = AlgorithmXChaCha20Poly1305,
      blob_Nonce = n, blob_Ciphertext = ae_Seal A k n p ad\<rparr>"

lemma sealed_sel [simp]:
  "blob_Version (sealed A k n p ad) = FormatVersion"
  "blob_Algorithm (sealed A k n p ad) = AlgorithmXChaCha20Poly1305"
  "blob_Nonce (sealed A k n p ad) = n"
  "blob_Ciphertext (sealed A k n p ad) = ae_Seal A k n p ad"
  by (simp_all add: sealed_def)

locale sealing = memguard_api M content + xchacha A
  for M :: "'e memguard" and content A
begin

lemma valid_sealed:
  "length n = NonceSizeX \<Longrightarrow> length p + Overhead \<le> maxCiphertext \<Longrightarrow>
     valid_blob (sealed A k n p ad)"
  by (simp add: valid_blob_def seal_length)

lemma seal_Inr:
  assumes "seal M A g i key p ad = Inr blob"
  shows "\<exists>e n. key = Some e \<and> length (content e) = KeySize \<and> length n = NonceSizeX \<and>
    rand_Read g i NonceSizeX = Inr n \<and> blob = sealed A (content e) n p ad"
  using assms validateKey_None [of key] open_content rand_Read_length
  by (force simp: seal_def withAEAD_def sealed_def split: option.splits sum.splits)

lemma seal_Inl: "seal M A g i key p ad = Inl x \<Longrightarrow> \<not> errors_is x t"
  using validateKey_None [of key]
  by (auto simp: seal_def withAEAD_def rand_Read_foreign open_foreign newx_foreign
      split: option.splits sum.splits dest: validateKey_Some)

lemma openLocked_Inr:
  assumes "openLocked M A key blob ad = Inr p"
  shows "\<exists>e. key = Some e \<and> length (content e) = KeySize \<and> valid_blob blob \<and>
    blob = sealed A (content e) (blob_Nonce blob) p ad"
proof -
  have v: "validateBlob blob = None" and k: "validateKeyEnclave M key ''key'' = None"
    using assms by (auto simp: openLocked_def split: option.splits)
  obtain e where e: "key = Some e" "length (content e) = KeySize"
    using k validateKey_None by blast
  have "ae_Open A (content e) (blob_Nonce blob) (blob_Ciphertext blob) ad = Some p"
    using assms v k e open_content
    by (auto simp: openLocked_def withAEAD_def Let_def split: option.splits sum.splits if_splits)
  then have "blob_Ciphertext blob = ae_Seal A (content e) (blob_Nonce blob) p ad"
    by (rule open_sound)
  with v e show ?thesis by (auto simp: valid_blob_def sealed_def)
qed

lemma openLocked_wrong:
  assumes "openLocked M A key blob ad = Inl x" "errors_is x t"
  shows "t = ErrIntegrity \<or> t = StoreErrInvalidRecord \<or> t = ErrUnsupportedFormat"
proof (cases "validateBlob blob")
  case (Some y)
  then show ?thesis
    using assms validateKey_Some
    by (auto simp: openLocked_def validateBlob_def split: option.splits if_splits)
next
  case None
  show ?thesis
    using assms validateKey_Some open_foreign newx_foreign
    by (auto simp: openLocked_def withAEAD_def Let_def None
        split: option.splits sum.splits if_splits)
qed

lemma unwrap_Inr:
  assumes "unwrapEnclave M A kek blob ad = Inr d"
  shows "\<exists>k e. kek = Some k \<and> d = Some e \<and> length (content k) = KeySize \<and>
    length (content e) = KeySize \<and> valid_blob blob \<and>
    blob = sealed A (content k) (blob_Nonce blob) (content e) ad"
  using assms openLocked_Inr [of kek blob ad] seal_long
  by (fastforce simp: unwrapEnclave_def split: sum.splits if_splits)

lemma wrap_Inr:
  assumes "wrapEnclave M A g i kek d ad = Inr blob"
  shows "\<exists>k e n. kek = Some k \<and> d = Some e \<and> length (content k) = KeySize \<and>
    length (content e) = KeySize \<and> length n = NonceSizeX \<and>
    blob = sealed A (content k) n (content e) ad"
proof -
  obtain e where e: "d = Some e" "length (content e) = KeySize"
    using assms validateKey_None by (auto simp: wrapEnclave_def split: option.splits)
  then have "seal M A g i kek (content e) ad = Inr blob"
    using assms open_content [of e]
    by (auto simp: wrapEnclave_def split: option.splits sum.splits)
  with e seal_Inr show ?thesis by blast
qed

lemma wrap_Inl: "wrapEnclave M A g i kek d ad = Inl x \<Longrightarrow> \<not> errors_is x t"
  using seal_Inl open_foreign
  by (auto simp: wrapEnclave_def split: option.splits sum.splits dest: validateKey_Some)

end

locale sealing_live = sealing M content A + memguard_live M content
  for M :: "'e memguard" and content A
begin

lemma seal_live:
  "length (content e) = KeySize \<Longrightarrow> rand_Read g i NonceSizeX = Inr n \<Longrightarrow>
     seal M A g i (Some e) p ad = Inr (sealed A (content e) n p ad)"
  by (simp add: sealing_defs sealed_def size_content open_live newx_ok)

lemma openLocked_sealed:
  "length (content e) = KeySize \<Longrightarrow> length n = NonceSizeX \<Longrightarrow>
     length p + Overhead \<le> maxCiphertext \<Longrightarrow>
     openLocked M A (Some e) (sealed A (content e) n p ad) ad = Inr p"
  using valid_sealed [of n p "content e" ad]
  by (simp add: openLocked_def withAEAD_def validateKeyEnclave_def size_content open_live
      buffer_live newx_ok open_seal seal_length Let_def)

lemma openLocked_total:
  assumes "length (content e) = KeySize" "valid_blob blob"
  shows "openLocked M A (Some e) blob ad =
    (case ae_Open A (content e) (blob_Nonce blob) (blob_Ciphertext blob) ad of
       None \<Rightarrow> Inl (Sentinel ErrIntegrity) | Some p \<Rightarrow> Inr p)"
proof -
  have "length p = length (blob_Ciphertext blob) - Overhead"
    if "ae_Open A (content e) (blob_Nonce blob) (blob_Ciphertext blob) ad = Some p" for p
    using open_sound [OF that] by (simp add: seal_length)
  then show ?thesis
    using assms by (auto simp: openLocked_def withAEAD_def validateKeyEnclave_def size_content open_live
        buffer_live newx_ok Let_def split: option.splits)
qed

lemma unwrap_sealed:
  assumes "length (content k) = KeySize" "length (content e) = KeySize" "length n = NonceSizeX"
  shows "\<exists>d. unwrapEnclave M A (Some k) (sealed A (content k) n (content e) ad) ad = Inr (Some d) \<and>
    content d = content e"
proof -
  have "length (content e) + Overhead \<le> maxCiphertext"
    using assms by (simp add: KeySize_def Overhead_def maxCiphertext_def)
  then show ?thesis
    using openLocked_sealed [of k n "content e" ad] assms seal_long [of "content e"]
    by (auto simp: unwrapEnclave_def)
qed

lemma wrap_live:
  "length (content k) = KeySize \<Longrightarrow> length (content e) = KeySize \<Longrightarrow>
     rand_Read g i NonceSizeX = Inr n \<Longrightarrow>
     wrapEnclave M A g i (Some k) (Some e) ad = Inr (sealed A (content k) n (content e) ad)"
  by (simp add: wrapEnclave_def validateKeyEnclave_def size_content open_live seal_live)

end

end
