(* ===== verification/Encrypted_Store.thy ===== *)
theory Encrypted_Store
  imports Sealing
begin

text \<open>
  The encrypted store of \<open>pkg/store/encrypted/encrypted.go\<close>: the state of \<open>Store\<close>, one
  definition per method, and for each method a lemma that lists what its outcomes mean.

  A method takes the dictionary \<open>B\<close> of the backend's methods, the packages \<open>M\<close> and \<open>A\<close> and
  the random source \<open>g\<close>. Each call it makes gets the rest of the context's answers. A closed
  store has no backend, and calling it is a nil dereference.
\<close>

section \<open>State\<close>

record ('e, 'b) enc_store =
  es_backend :: "'b option"
  es_header :: encryption_header
  es_dek :: "'e option"

definition zero_blob :: encrypted_blob where
  "zero_blob = \<lparr>blob_Version = 0, blob_Algorithm = [], blob_Nonce = [], blob_Ciphertext = []\<rparr>"

definition zero_header :: encryption_header where
  "zero_header =
     \<lparr>hdr_Version = 0, hdr_Revision = 0, hdr_StoreID = [],
      hdr_KEK = \<lparr>ref_CredentialID = [], ref_Salt = [], ref_RPID = []\<rparr>,
      hdr_WrappedDEK = zero_blob\<rparr>"

definition enc_New :: "'b option \<Rightarrow> go_error + ('e, 'b) enc_store" where
  "enc_New backend =
     (case backend of
        None \<Rightarrow> Inl (Errorf ''encrypted store: backend is required'')
      | Some b \<Rightarrow> Inr \<lparr>es_backend = Some b, es_header = zero_header, es_dek = None\<rparr>)"

text \<open>A call of a method of \<open>s.backend\<close> that reads, and of one that writes.\<close>

definition asking :: "('e, 'b) enc_store \<Rightarrow> ('b \<Rightarrow> go_error + 'r) \<Rightarrow> go_error + 'r" where
  "asking s f = (case es_backend s of None \<Rightarrow> Inl nil_deref | Some b \<Rightarrow> f b)"

definition telling ::
  "('e, 'b) enc_store \<Rightarrow> ('b \<Rightarrow> go_error option \<times> 'b) \<Rightarrow> go_error option \<times> ('e, 'b) enc_store" where
  "telling s f =
     (case es_backend s of None \<Rightarrow> (Some nil_deref, s)
      | Some b \<Rightarrow> (case f b of (e, b') \<Rightarrow> (e, s\<lparr>es_backend := Some b'\<rparr>)))"

section \<open>Life cycle\<close>

definition enc_Header ::
  "'b envelope_ops \<Rightarrow> go_context \<Rightarrow> ('e, 'b) enc_store \<Rightarrow> go_error + encryption_header" where
  "enc_Header B ctx s =
     (case asking s (be_LoadHeader B ctx) of Inl e \<Rightarrow> Inl e
      | Inr header \<Rightarrow>
          (case validateHeader header of Some e \<Rightarrow> Inl e
           | None \<Rightarrow> Inr (cloneHeader header)))"

definition enc_Initialize ::
  "'b envelope_ops \<Rightarrow> 'e memguard \<Rightarrow> aead_ops \<Rightarrow> rng \<Rightarrow> go_context \<Rightarrow> kek_reference \<Rightarrow> 'e option
     \<Rightarrow> ('e, 'b) enc_store \<Rightarrow> go_error option \<times> ('e, 'b) enc_store" where
  "enc_Initialize B M A g ctx ref kek s =
     (case ctx_Err ctx of Some e \<Rightarrow> (Some e, s)
      | None \<Rightarrow>
     (let ref = cloneKEKReference ref; ref = ref\<lparr>ref_RPID := trim_space (ref_RPID ref)\<rparr> in
      case ValidateKEKReference ref of Some e \<Rightarrow> (Some e, s)
      | None \<Rightarrow>
     (case validateKeyEnclave M kek ''KEK'' of Some e \<Rightarrow> (Some e, s)
      | None \<Rightarrow>
     (case asking s (be_LoadHeader B (later ctx)) of
        Inr _ \<Rightarrow> (Some (Sentinel StoreErrExists), s)
      | Inl e \<Rightarrow>
     (if \<not> errors_is e ErrNotInitialized then (Some e, s)
      else
     (case asking s (be_ListEnvelopes B (later (later ctx))) of Inl e \<Rightarrow> (Some e, s)
      | Inr aliases \<Rightarrow>
     (if length aliases \<noteq> 0
      then (Some (errorf ''%w: encrypted records exist without a header''
             (Sentinel ErrConflict)), s)
      else
     (case rand_Read g 0 storeIDSize of
        Inl e \<Rightarrow> (Some (errorf ''encrypted store: generate store id: %w'' e), s)
      | Inr storeID \<Rightarrow>
     (case randomEnclave M g 1 KeySize of
        Inl e \<Rightarrow> (Some (errorf ''encrypted store: generate DEK: %w'' e), s)
      | Inr dek \<Rightarrow>
     (let header = \<lparr>hdr_Version = FormatVersion, hdr_Revision = 1, hdr_StoreID = storeID,
            hdr_KEK = ref, hdr_WrappedDEK = zero_blob\<rparr> in
      case wrapEnclave M A g 2 kek dek (headerAAD header) of
        Inl e \<Rightarrow> (Some (errorf ''encrypted store: wrap DEK: %w'' e), s)
      | Inr wrapped \<Rightarrow>
     (let header = header\<lparr>hdr_WrappedDEK := wrapped\<rparr> in
      case telling s (be_CreateHeader B (later (later (later ctx))) header) of
        (Some e, s') \<Rightarrow> (Some (errorf ''encrypted store: create header: %w'' e), s')
      | (None, s') \<Rightarrow> (None, s'\<lparr>es_header := cloneHeader header, es_dek := dek\<rparr>))))))))))))"

definition enc_Unlock ::
  "'b envelope_ops \<Rightarrow> 'e memguard \<Rightarrow> aead_ops \<Rightarrow> go_context \<Rightarrow> 'e option
     \<Rightarrow> ('e, 'b) enc_store \<Rightarrow> go_error option \<times> ('e, 'b) enc_store" where
  "enc_Unlock B M A ctx kek s =
     (case ctx_Err ctx of Some e \<Rightarrow> (Some e, s)
      | None \<Rightarrow>
     (case validateKeyEnclave M kek ''KEK'' of Some e \<Rightarrow> (Some e, s)
      | None \<Rightarrow>
     (case asking s (be_LoadHeader B (later ctx)) of Inl e \<Rightarrow> (Some e, s)
      | Inr header \<Rightarrow>
     (case validateHeader header of Some e \<Rightarrow> (Some e, s)
      | None \<Rightarrow>
     (case unwrapEnclave M A kek (hdr_WrappedDEK header) (headerAAD header) of
        Inl e \<Rightarrow> (Some (errorf ''encrypted store: unwrap DEK: %w'' e), s)
      | Inr dek \<Rightarrow> (None, s\<lparr>es_header := cloneHeader header, es_dek := dek\<rparr>))))))"

definition enc_Lock :: "('e, 'b) enc_store \<Rightarrow> ('e, 'b) enc_store" where
  "enc_Lock s = s\<lparr>es_header := zero_header, es_dek := None\<rparr>"

definition enc_RotateKEK ::
  "'b envelope_ops \<Rightarrow> 'e memguard \<Rightarrow> aead_ops \<Rightarrow> rng \<Rightarrow> go_context \<Rightarrow> kek_reference \<Rightarrow> 'e option
     \<Rightarrow> ('e, 'b) enc_store \<Rightarrow> go_error option \<times> ('e, 'b) enc_store" where
  "enc_RotateKEK B M A g ctx nxt nextKEK s =
     (case ctx_Err ctx of Some e \<Rightarrow> (Some e, s)
      | None \<Rightarrow>
     (let nxt = cloneKEKReference nxt; nxt = nxt\<lparr>ref_RPID := trim_space (ref_RPID nxt)\<rparr> in
      case ValidateKEKReference nxt of Some e \<Rightarrow> (Some e, s)
      | None \<Rightarrow>
     (case validateKeyEnclave M nextKEK ''KEK'' of Some e \<Rightarrow> (Some e, s)
      | None \<Rightarrow>
     (if es_dek s = None then (Some (Sentinel ErrLocked), s)
      else
     (case asking s (be_LoadHeader B (later ctx)) of Inl e \<Rightarrow> (Some e, s)
      | Inr current \<Rightarrow>
     (case validateHeader current of Some e \<Rightarrow> (Some e, s)
      | None \<Rightarrow>
     (if hdr_Revision current \<noteq> hdr_Revision (es_header s)
      then (Some (Sentinel ErrConflict), s)
      else
     (let rotated = cloneHeader current;
          rotated = rotated\<lparr>hdr_Revision := hdr_Revision rotated + 1\<rparr>;
          rotated = rotated\<lparr>hdr_KEK := nxt\<rparr> in
      case wrapEnclave M A g 0 nextKEK (es_dek s) (headerAAD rotated) of
        Inl e \<Rightarrow> (Some (errorf ''encrypted store: rewrap DEK: %w'' e), s)
      | Inr wrapped \<Rightarrow>
     (let rotated = rotated\<lparr>hdr_WrappedDEK := wrapped\<rparr> in
      case telling s
        (be_CompareAndSwapHeader B (later (later ctx)) (hdr_Revision current) rotated) of
        (Some e, s') \<Rightarrow> (Some (errorf ''encrypted store: rotate header: %w'' e), s')
      | (None, s') \<Rightarrow> (None, s'\<lparr>es_header := cloneHeader rotated\<rparr>))))))))))"

definition enc_Close ::
  "'b envelope_ops \<Rightarrow> ('e, 'b) enc_store option \<Rightarrow> go_error option \<times> ('e, 'b) enc_store option" where
  "enc_Close B s =
     (case s of None \<Rightarrow> (None, None)
      | Some s \<Rightarrow>
          (let s = enc_Lock s in
           case es_backend s of None \<Rightarrow> (None, Some s)
           | Some b \<Rightarrow>
               (let err = fst (be_Close B b) in (err, Some (s\<lparr>es_backend := None\<rparr>)))))"

section \<open>Records\<close>

definition snapshot :: "('e, 'b) enc_store \<Rightarrow> go_error + encryption_header \<times> 'e option" where
  "snapshot s =
     (if es_dek s = None then Inl (Sentinel ErrLocked)
      else Inr (cloneHeader (es_header s), es_dek s))"

definition enc_Put ::
  "'b envelope_ops \<Rightarrow> 'e memguard \<Rightarrow> aead_ops \<Rightarrow> rng \<Rightarrow> go_context \<Rightarrow> store_record
     \<Rightarrow> ('e, 'b) enc_store \<Rightarrow> go_error option \<times> ('e, 'b) enc_store" where
  "enc_Put B M A g ctx r s =
     (case ctx_Err ctx of Some e \<Rightarrow> (Some e, s)
      | None \<Rightarrow>
     (let r = r\<lparr>rec_Alias := trim_space (rec_Alias r)\<rparr>;
          r = r\<lparr>rec_RPID := trim_space (rec_RPID r)\<rparr> in
      case ValidateRecord r of Some e \<Rightarrow> (Some e, s)
      | None \<Rightarrow>
     (case snapshot s of Inl e \<Rightarrow> (Some e, s)
      | Inr (header, dek) \<Rightarrow>
     (case encodeRecord r of Inl e \<Rightarrow> (Some e, s)
      | Inr plaintext \<Rightarrow>
     (case seal M A g 0 dek plaintext (recordAAD header (rec_Alias r)) of
        Inl e \<Rightarrow> (Some (errorf ''encrypted store: encrypt record: %w'' e), s)
      | Inr blob \<Rightarrow>
          telling s (be_PutEnvelope B (later ctx) (rec_Alias r) blob))))))"

definition enc_Get ::
  "'b envelope_ops \<Rightarrow> 'e memguard \<Rightarrow> aead_ops \<Rightarrow> go_context \<Rightarrow> string
     \<Rightarrow> ('e, 'b) enc_store \<Rightarrow> go_error + store_record" where
  "enc_Get B M A ctx alias s =
     (case ctx_Err ctx of Some e \<Rightarrow> Inl e
      | None \<Rightarrow>
     (let alias = trim_space alias in
      case ValidateAlias alias of Some e \<Rightarrow> Inl e
      | None \<Rightarrow>
     (case snapshot s of Inl e \<Rightarrow> Inl e
      | Inr (header, dek) \<Rightarrow>
     (case asking s (be_GetEnvelope B (later ctx) alias) of Inl e \<Rightarrow> Inl e
      | Inr blob \<Rightarrow>
     (case openLocked M A dek blob (recordAAD header alias) of
        Inl e \<Rightarrow> Inl (errorf ''encrypted store: decrypt record: %w'' e)
      | Inr plaintext \<Rightarrow>
     (case decodeRecord alias plaintext of Inl e \<Rightarrow> Inl e
      | Inr r \<Rightarrow>
     (case ValidateRecord r of Some e \<Rightarrow> Inl e | None \<Rightarrow> Inr r)))))))"

definition enc_Delete ::
  "'b envelope_ops \<Rightarrow> go_context \<Rightarrow> string
     \<Rightarrow> ('e, 'b) enc_store \<Rightarrow> go_error option \<times> ('e, 'b) enc_store" where
  "enc_Delete B ctx alias s =
     (case ctx_Err ctx of Some e \<Rightarrow> (Some e, s)
      | None \<Rightarrow>
     (let alias = trim_space alias in
      case ValidateAlias alias of Some e \<Rightarrow> (Some e, s)
      | None \<Rightarrow>
     (case snapshot s of Inl e \<Rightarrow> (Some e, s)
      | Inr _ \<Rightarrow> telling s (be_DeleteEnvelope B (later ctx) alias))))"

definition enc_Has ::
  "'b envelope_ops \<Rightarrow> go_context \<Rightarrow> string \<Rightarrow> ('e, 'b) enc_store \<Rightarrow> go_error + bool" where
  "enc_Has B ctx alias s =
     (case ctx_Err ctx of Some e \<Rightarrow> Inl e
      | None \<Rightarrow>
     (let alias = trim_space alias in
      case ValidateAlias alias of Some e \<Rightarrow> Inl e
      | None \<Rightarrow> asking s (be_HasEnvelope B (later ctx) alias)))"

definition enc_List ::
  "'b envelope_ops \<Rightarrow> go_context \<Rightarrow> ('e, 'b) enc_store \<Rightarrow> go_error + string list" where
  "enc_List B ctx s =
     (case ctx_Err ctx of Some e \<Rightarrow> Inl e
      | None \<Rightarrow> asking s (be_ListEnvelopes B (later ctx)))"

text \<open>
  The methods of the interface \<open>lib/store.Store\<close>. The state carries the number of reads of the
  random source, one for each \<open>Put\<close>.
\<close>

definition enc_ops ::
  "'b envelope_ops \<Rightarrow> 'e memguard \<Rightarrow> aead_ops \<Rightarrow> rng
     \<Rightarrow> (('e, 'b) enc_store \<times> nat) store_ops" where
  "enc_ops B M A g =
     \<lparr>st_Put = (\<lambda>ctx r (s, k). case enc_Put B M A (rng_from g k) ctx r s of
        (e, s') \<Rightarrow> (e, (s', Suc k))),
      st_Get = (\<lambda>ctx a (s, k). enc_Get B M A ctx a s),
      st_Delete = (\<lambda>ctx a (s, k). case enc_Delete B ctx a s of (e, s') \<Rightarrow> (e, (s', k))),
      st_Has = (\<lambda>ctx a (s, k). enc_Has B ctx a s),
      st_List = (\<lambda>ctx (s, k). enc_List B ctx s),
      st_Close = (\<lambda>(s, k). case enc_Close B (Some s) of
        (e, s') \<Rightarrow> (e, (case s' of None \<Rightarrow> s | Some s' \<Rightarrow> s', k)))\<rparr>"

lemmas enc_lifecycle_defs = enc_Header_def enc_Initialize_def enc_Unlock_def enc_Lock_def
  enc_RotateKEK_def enc_Close_def

lemmas enc_record_defs = enc_Put_def enc_Get_def enc_Delete_def enc_Has_def enc_List_def
  snapshot_def

end
