(* ===== verification/Encrypted_Contract.thy ===== *)
theory Encrypted_Contract
  imports Encrypted_Store
begin

text \<open>
  The encrypted store keeps the contract of \<open>lib/store.Store\<close>: over any backend that keeps
  the contract of an \<open>EnvelopeBackend\<close>, it is an alias map of records, kept as envelopes that
  the store's DEK opens.
\<close>

section \<open>Outcomes of the methods\<close>

definition record_data :: "bytes \<Rightarrow> string \<Rightarrow> bytes" where
  "record_data sid a = recordAAD (zero_header\<lparr>hdr_StoreID := sid\<rparr>) a"

lemma recordAAD_data: "recordAAD h a = record_data (hdr_StoreID h) a"
  by (simp add: recordAAD_def record_data_def)

lemma norm_record_steps:
  "r\<lparr>rec_Alias := trim_space (rec_Alias r),
     rec_RPID := trim_space (rec_RPID (r\<lparr>rec_Alias := trim_space (rec_Alias r)\<rparr>))\<rparr> = norm_record r"
  by (simp add: norm_record_def)

lemma enc_Put_norm:
  "enc_Put B M A g ctx r s =
     (case ctx_Err ctx of Some e \<Rightarrow> (Some e, s)
      | None \<Rightarrow>
     (case ValidateRecord (norm_record r) of Some e \<Rightarrow> (Some e, s)
      | None \<Rightarrow>
     (case snapshot s of Inl e \<Rightarrow> (Some e, s)
      | Inr (header, dek) \<Rightarrow>
     (case encodeRecord (norm_record r) of Inl e \<Rightarrow> (Some e, s)
      | Inr plaintext \<Rightarrow>
     (case seal M A g 0 dek plaintext (recordAAD header (trim_space (rec_Alias r))) of
        Inl e \<Rightarrow> (Some (errorf ''encrypted store: encrypt record: %w'' e), s)
      | Inr blob \<Rightarrow>
          telling s (be_PutEnvelope B (later ctx) (trim_space (rec_Alias r)) blob))))))"
  unfolding enc_Put_def Let_def norm_record_steps norm_record_sel ..

lemma snapshot_Inr:
  "snapshot s = Inr (h, d) \<longleftrightarrow> es_dek s \<noteq> None \<and> h = es_header s \<and> d = es_dek s"
  by (auto simp: snapshot_def)

lemma snapshot_Inl: "snapshot s = Inl e \<longleftrightarrow> es_dek s = None \<and> e = Sentinel ErrLocked"
  by (auto simp: snapshot_def)

lemma telling_cases:
  assumes "telling s f = (e, s')"
  shows "es_backend s = None \<and> e = Some nil_deref \<and> s' = s \<or>
    (\<exists>b b'. es_backend s = Some b \<and> f b = (e, b') \<and> s' = s\<lparr>es_backend := Some b'\<rparr>)"
  using assms by (auto simp: telling_def split: option.splits prod.splits)

lemma asking_Inr: "asking s f = Inr r \<longleftrightarrow> (\<exists>b. es_backend s = Some b \<and> f b = Inr r)"
  by (auto simp: asking_def split: option.splits)

lemma asking_Inl:
  "asking s f = Inl e \<Longrightarrow> errors_is e t \<Longrightarrow> \<exists>b. es_backend s = Some b \<and> f b = Inl e"
  by (auto simp: asking_def split: option.splits)

lemma encodeRecord_Inr: "encodeRecord r = Inr b \<longleftrightarrow> fits r \<and> b = encoding r"
  by (auto simp: encodeRecord_eq)

lemma encodeRecord_Inl: "encodeRecord r = Inl e \<Longrightarrow> errors_is e t \<Longrightarrow> t = StoreErrInvalidRecord"
  by (auto simp: encodeRecord_eq split: if_splits)

text \<open>The sentinels that each step can report.\<close>

lemma ctx_Err_is: "ctx_Err c = Some e \<Longrightarrow> errors_is e t \<Longrightarrow> False"
  by (simp add: ctx_Err_foreign)

lemma ValidateRecord_is:
  "ValidateRecord r = Some e \<Longrightarrow> errors_is e t \<Longrightarrow> t = StoreErrInvalidAlias \<or> t = StoreErrInvalidRecord"
  by (auto simp: ValidateRecord_def split: option.splits if_splits)

lemma decodeRecord_is:
  "decodeRecord a p = Inl e \<Longrightarrow> errors_is e t \<Longrightarrow> t = StoreErrInvalidRecord \<or> t = ErrUnsupportedFormat"
  using decodeRecord_Inl errors_is_unique by blast

lemmas step_errors = ctx_Err_is ValidateRecord_is decodeRecord_is encodeRecord_Inl

text \<open>The envelope that \<open>Put\<close> makes of a record.\<close>

definition record_envelope :: "aead_ops \<Rightarrow> bytes \<Rightarrow> bytes \<Rightarrow> bytes \<Rightarrow> store_record \<Rightarrow> encrypted_blob"
  where
  "record_envelope A k sid n r =
     sealed A k n (encoding r) (record_data sid (rec_Alias r))"

context sealing
begin

lemma put_cases:
  assumes "enc_Put B M A g c r s = (e, s')"
  shows "s' = s \<and> (\<exists>x. e = Some x \<and> \<not> errors_is x StoreErrExists) \<or>
    (\<exists>b b' d n. es_backend s = Some b \<and> es_dek s = Some d \<and> length (content d) = KeySize \<and>
       length n = NonceSizeX \<and> valid_record (norm_record r) \<and> fits (norm_record r) \<and>
       be_PutEnvelope B (later c) (trim_space (rec_Alias r))
         (record_envelope A (content d) (hdr_StoreID (es_header s)) n (norm_record r)) b = (e, b') \<and>
       s' = s\<lparr>es_backend := Some b'\<rparr>)"
proof -
  let ?r = "norm_record r"
  let ?stop = "s' = s \<and> (\<exists>x. e = Some x \<and> \<not> errors_is x StoreErrExists)"
  let ?h = "recordAAD (es_header s) (trim_space (rec_Alias r))"
  note put = assms [unfolded enc_Put_norm]
  show ?thesis
  proof (cases "ctx_Err c")
    case (Some x)
    then have "e = Some x" "s' = s" using put by auto
    then show ?thesis using ctx_Err_foreign [OF Some] by blast
  next
    case None
    note c = None
    show ?thesis
    proof (cases "ValidateRecord ?r")
      case (Some x)
      then have "e = Some x" "s' = s" using put c by auto
      then show ?thesis using ValidateRecord_is [OF Some] by blast
    next
      case None
      note cv = c None
      show ?thesis
      proof (cases "es_dek s = None \<or> \<not> fits ?r")
        case True
        then have ?stop using put cv by (auto simp: snapshot_def encodeRecord_eq split: if_splits)
        then show ?thesis ..
      next
        case False
        then obtain d where d: "es_dek s = Some d" "fits ?r" by auto
        show ?thesis
        proof (cases "seal M A g 0 (Some d) (encoding ?r) ?h")
          case (Inl x)
          then have ?stop using put cv d seal_Inl [OF Inl]
            by (auto simp: snapshot_def encodeRecord_eq)
          then show ?thesis ..
        next
          case (Inr blob)
          then have "telling s (be_PutEnvelope B (later c) (trim_space (rec_Alias r)) blob) = (e, s')"
            using put cv d by (simp add: snapshot_def encodeRecord_eq)
          from telling_cases [OF this] seal_Inr [OF Inr] d cv(2) show ?thesis
            by (auto simp: record_envelope_def recordAAD_data)
        qed
      qed
    qed
  qed
qed

lemma get_Inr:
  assumes "enc_Get B M A c a s = Inr r"
  shows "\<exists>b d blob. es_backend s = Some b \<and> es_dek s = Some d \<and> length (content d) = KeySize \<and>
    be_GetEnvelope B (later c) (trim_space a) b = Inr blob \<and> valid_blob blob \<and>
    valid_record r \<and> rec_Alias r = trim_space a \<and> fits r \<and>
    blob = record_envelope A (content d) (hdr_StoreID (es_header s)) (blob_Nonce blob) r"
proof -
  obtain d blob p where d: "es_dek s = Some d"
    and ask: "asking s (be_GetEnvelope B (later c) (trim_space a)) = Inr blob"
    and op: "openLocked M A (Some d) blob (recordAAD (es_header s) (trim_space a)) = Inr p"
    and dec: "decodeRecord (trim_space a) p = Inr r" and v: "valid_record r"
    using assms by (auto simp: enc_Get_def snapshot_Inr Let_def split: option.splits sum.splits)
  from openLocked_Inr [OF op] decodeRecord_Inr [OF dec] ask d v show ?thesis
    by (auto simp: asking_Inr record_envelope_def recordAAD_data)
qed

lemma get_Inl_notfound:
  assumes "enc_Get B M A c a s = Inl x" "errors_is x StoreErrNotFound"
  shows "\<exists>b. es_backend s = Some b \<and> be_GetEnvelope B (later c) (trim_space a) b = Inl x"
proof -
  have op: False if "openLocked M A k e ad = Inl y" "errors_is y StoreErrNotFound" for k e ad y
    using openLocked_wrong [OF that] by blast
  show ?thesis
    using assms
    by (auto simp: enc_Get_def Let_def snapshot_def
        split: option.splits sum.splits if_splits simp del: ValidateRecord_None)
      (blast dest: asking_Inl op step_errors)+
qed

end

lemma delete_cases:
  assumes "enc_Delete B c a s = (e, s')"
  shows "s' = s \<and> (\<exists>x. e = Some x \<and> \<not> errors_is x StoreErrNotFound) \<or>
    (\<exists>b b'. es_backend s = Some b \<and> es_dek s \<noteq> None \<and> trim_space a \<noteq> [] \<and>
       be_DeleteEnvelope B (later c) (trim_space a) b = (e, b') \<and>
       s' = s\<lparr>es_backend := Some b'\<rparr>)"
  using assms
  by (auto simp: enc_Delete_def Let_def snapshot_def ctx_Err_foreign dest!: telling_cases
      split: option.splits sum.splits if_splits)

lemma has_Inr:
  assumes "enc_Has B c a s = Inr v"
  shows "\<exists>b. es_backend s = Some b \<and> be_HasEnvelope B (later c) (trim_space a) b = Inr v"
  using assms by (auto simp: enc_Has_def Let_def asking_Inr split: option.splits)

lemma list_Inr:
  assumes "enc_List B c s = Inr as"
  shows "\<exists>b. es_backend s = Some b \<and> be_ListEnvelopes B (later c) b = Inr as"
  using assms by (auto simp: enc_List_def asking_Inr split: option.splits)

section \<open>The alias map of a vault\<close>

text \<open>
  A vault is an encrypted store whose DEK has the bytes \<open>k\<close> and whose store ID is \<open>sid\<close>. An
  envelope under alias \<open>a\<close> is \<open>honest\<close> when it is what \<open>Put\<close> makes of a valid record of that
  alias, and \<open>record_at\<close> is the record it holds.
\<close>

definition honest :: "aead_ops \<Rightarrow> bytes \<Rightarrow> bytes \<Rightarrow> string \<Rightarrow> encrypted_blob \<Rightarrow> bool" where
  "honest A k sid a e \<longleftrightarrow>
     (\<exists>n r. length n = NonceSizeX \<and> valid_record r \<and> fits r \<and> rec_Alias r = a \<and>
        e = record_envelope A k sid n r)"

definition record_at ::
  "aead_ops \<Rightarrow> bytes \<Rightarrow> bytes \<Rightarrow> string \<Rightarrow> encrypted_blob \<Rightarrow> store_record option" where
  "record_at A k sid a e =
     (case ae_Open A k (blob_Nonce e) (blob_Ciphertext e) (record_data sid a) of
        None \<Rightarrow> None
      | Some p \<Rightarrow> (case decodeRecord a p of Inl _ \<Rightarrow> None | Inr r \<Rightarrow> Some r))"

definition vault_recs ::
  "aead_ops \<Rightarrow> bytes \<Rightarrow> bytes \<Rightarrow> (string \<Rightarrow> encrypted_blob option) \<Rightarrow> string \<Rightarrow> store_record option"
  where
  "vault_recs A k sid m a = Option.bind (m a) (record_at A k sid a)"

lemma valid_fits_salt: "valid_record r \<Longrightarrow> length (rec_Salt r) \<le> maxPayloadField"
  by (simp add: valid_record_def SaltSize_def maxPayloadField_def)

definition map_of_store ::
  "('b \<Rightarrow> string \<Rightarrow> encrypted_blob option) \<Rightarrow> aead_ops \<Rightarrow> bytes \<Rightarrow> bytes
     \<Rightarrow> ('e, 'b) enc_store \<times> nat \<Rightarrow> string \<Rightarrow> store_record option" where
  "map_of_store envs A k sid s =
     (case es_backend (fst s) of None \<Rightarrow> (\<lambda>_. None) | Some b \<Rightarrow> vault_recs A k sid (envs b))"

definition vault_ok ::
  "('b \<Rightarrow> bool) \<Rightarrow> ('b \<Rightarrow> string \<Rightarrow> encrypted_blob option) \<Rightarrow> ('e \<Rightarrow> bytes) \<Rightarrow> aead_ops
     \<Rightarrow> bytes \<Rightarrow> bytes \<Rightarrow> ('e, 'b) enc_store \<times> nat \<Rightarrow> bool" where
  "vault_ok good envs content A k sid s \<longleftrightarrow>
     (case es_backend (fst s) of None \<Rightarrow> False
      | Some b \<Rightarrow> good b \<and> (\<forall>a e. envs b a = Some e \<longrightarrow> honest A k sid a e)) \<and>
     (case es_dek (fst s) of None \<Rightarrow> True
      | Some d \<Rightarrow> content d = k \<and> hdr_StoreID (es_header (fst s)) = sid)"

context xchacha
begin

lemma record_at_envelope:
  assumes "length k = KeySize" "length n = NonceSizeX" "valid_record r" "fits r" "rec_Alias r = a"
  shows "record_at A k sid a (record_envelope A k sid n r) = Some r"
proof -
  have "r\<lparr>rec_Alias := a\<rparr> = r" using assms(5) by simp
  then show ?thesis
    using assms decode_encoding [OF assms(4) valid_fits_salt [OF assms(3)], of a]
    by (simp add: record_at_def record_envelope_def open_seal)
qed

lemma honest_record: "length k = KeySize \<Longrightarrow> honest A k sid a e \<Longrightarrow> record_at A k sid a e \<noteq> None"
  using record_at_envelope by (auto simp: honest_def)

lemma vault_update:
  assumes "length k = KeySize" "length n = NonceSizeX" "valid_record r" "fits r"
  shows "vault_recs A k sid (m(rec_Alias r \<mapsto> record_envelope A k sid n r)) =
    (vault_recs A k sid m)(rec_Alias r \<mapsto> r)"
  using record_at_envelope [OF assms] by (auto simp: vault_recs_def)

lemma vault_None:
  assumes "length k = KeySize" "\<And>a e. m a = Some e \<Longrightarrow> honest A k sid a e"
  shows "vault_recs A k sid m a = None \<longleftrightarrow> m a = None"
  using honest_record [OF assms(1) assms(2)] by (cases "m a") (auto simp: vault_recs_def)

end

lemma vault_delete: "vault_recs A k sid (m(a := None)) = (vault_recs A k sid m)(a := None)"
  by (auto simp: vault_recs_def)

lemma clean_record_envelope: "clean_blob (record_envelope A k sid n r)"
  by (auto simp: record_envelope_def clean_blob_def sealed_def AlgorithmXChaCha20Poly1305_def
      ord_def intro!: valid_utf8_ascii)

lemma honest_envelope:
  "length n = NonceSizeX \<Longrightarrow> valid_record r \<Longrightarrow> fits r \<Longrightarrow>
     honest A k sid (rec_Alias r) (record_envelope A k sid n r)"
  by (auto simp: honest_def)

end
