(* ===== verification/Encrypted_Vault.thy ===== *)
theory Encrypted_Vault
  imports Encrypted_Contract
begin

text \<open>
  The refinement: over every backend that keeps the contract \<open>envelope_backend\<close>, the
  encrypted store keeps the contract \<open>store_contract\<close> for the alias map of its envelopes
  (\<open>enc_vault\<close>), and answers when backend, random source and memory do (\<open>enc_vault_live\<close>).
\<close>

locale enc_over = envelope_backend B hdr envs kept kept_blob good + sealing M content A
  for B :: "'b envelope_ops" and hdr envs kept kept_blob good
    and M :: "'e memguard" and content A

locale enc_vault = enc_over B hdr envs kept kept_blob good M content A
  for B :: "'b envelope_ops" and hdr envs kept kept_blob good
    and M :: "'e memguard" and content A +
  fixes K :: bytes and sid :: bytes and g :: rng
  assumes K_size: "length K = KeySize"
begin

abbreviation ops :: "(('e, 'b) enc_store \<times> nat) store_ops" where
  "ops \<equiv> enc_ops B M A g"

abbreviation map_of :: "('e, 'b) enc_store \<times> nat \<Rightarrow> string \<Rightarrow> store_record option" where
  "map_of \<equiv> map_of_store envs A K sid"

abbreviation okv :: "('e, 'b) enc_store \<times> nat \<Rightarrow> bool" where
  "okv \<equiv> vault_ok good envs content A K sid"

lemma okvE:
  assumes "okv s"
  obtains b where "es_backend (fst s) = Some b" "good b"
    "\<And>a e. envs b a = Some e \<Longrightarrow> honest A K sid a e"
    "\<And>d. es_dek (fst s) = Some d \<Longrightarrow> content d = K \<and> hdr_StoreID (es_header (fst s)) = sid"
    "map_of s = vault_recs A K sid (envs b)"
  using assms by (force simp: vault_ok_def map_of_store_def split: option.splits)

lemma okvI:
  "\<lbrakk>es_backend s' = Some b; good b; \<And>a e. envs b a = Some e \<Longrightarrow> honest A K sid a e;
    es_dek s' = es_dek (fst s); es_header s' = es_header (fst s); okv s\<rbrakk> \<Longrightarrow> okv (s', k)"
  by (auto simp: vault_ok_def split: option.splits)

lemma put_step:
  assumes ok: "okv s" and put: "st_Put ops c r s = (e, s')"
  shows "okv s' \<and>
    (map_of s' = map_of s \<and> e \<noteq> None \<and>
       (errors_is (the e) StoreErrExists \<longrightarrow> map_of s (trim_space (rec_Alias r)) \<noteq> None) \<or>
     map_of s (trim_space (rec_Alias r)) = None \<and> valid_record (norm_record r) \<and>
       (\<forall>x. e = Some x \<longrightarrow> \<not> errors_is x StoreErrExists) \<and>
       map_of s' = (map_of s)(trim_space (rec_Alias r) \<mapsto> norm_record r))"
proof -
  obtain t k where s: "s = (t, k)" by (cases s)
  obtain t' where s': "s' = (t', Suc k)" and p: "enc_Put B M A (rng_from g k) c r t = (e, t')"
    using put by (auto simp: enc_ops_def s split: prod.splits)
  obtain b where b: "es_backend t = Some b" "good b"
      and hon: "\<And>a e. envs b a = Some e \<Longrightarrow> honest A K sid a e"
      and dek: "\<And>d. es_dek t = Some d \<Longrightarrow> content d = K \<and> hdr_StoreID (es_header t) = sid"
      and mp: "map_of s = vault_recs A K sid (envs b)"
    by (rule okvE [OF ok, unfolded s fst_conv, folded s]) (rule that)
  let ?r = "norm_record r" and ?a = "trim_space (rec_Alias r)"
  from put_cases [OF p] consider
    (stop) x where "t' = t" "e = Some x" "\<not> errors_is x StoreErrExists"
  | (go) b' n where "length n = NonceSizeX" "valid_record ?r" "fits ?r"
      "be_PutEnvelope B (later c) ?a (record_envelope A K sid n ?r) b = (e, b')"
      "t' = t\<lparr>es_backend := Some b'\<rparr>"
    using b dek by fastforce
  then show ?thesis
  proof cases
    case stop
    then have "okv s'" "map_of s' = map_of s"
      using ok s s' by (auto simp: vault_ok_def map_of_store_def split: option.splits)
    with stop show ?thesis by simp
  next
    case go
    let ?e = "record_envelope A K sid n ?r"
    have m': "map_of s' = vault_recs A K sid (envs b')"
      using s' go(5) by (simp add: map_of_store_def)
    have ins: "envs b' = (envs b)(?a \<mapsto> ?e) \<Longrightarrow>
        map_of s' = (map_of s)(?a \<mapsto> ?r) \<and> okv s'" if "good b'"
      using vault_update [OF K_size go(1,2,3), of sid "envs b"] m' mp hon that go s s' ok
        honest_envelope [OF go(1,2,3)]
      by (auto intro!: okvI split: if_splits)
    have keep: "envs b' = envs b \<Longrightarrow> map_of s' = map_of s \<and> okv s'" if "good b'"
      using m' mp hon that go s s' ok by (auto intro!: okvI)
    have none: "map_of s ?a = None \<longleftrightarrow> envs b ?a = None"
      using vault_None [OF K_size hon] mp by simp
    have kb: "kept_blob ?e = ?e" by (simp add: kept_blob_clean clean_record_envelope)
    show ?thesis
    proof (cases e)
      case None
      with putenv_ok [OF b(2), of "later c" ?a ?e b'] go kb ins none show ?thesis by simp
    next
      case (Some x)
      with putenv_err [OF b(2), of "later c" ?a ?e x b']
        putenv_exists [OF b(2), of "later c" ?a ?e x b'] go(2,4) kb ins keep none
      show ?thesis by auto
    qed
  qed
qed

lemma delete_step:
  assumes ok: "okv s" and del: "st_Delete ops c a s = (e, s')"
  shows "okv s' \<and>
    (map_of s' = map_of s \<and> e \<noteq> None \<and>
       (errors_is (the e) StoreErrNotFound \<longrightarrow> map_of s (trim_space a) = None) \<or>
     (e = None \<longrightarrow> map_of s (trim_space a) \<noteq> None) \<and>
       (\<forall>x. e = Some x \<longrightarrow> errors_is x StoreErrNotFound \<longrightarrow> map_of s' = map_of s \<and>
          map_of s (trim_space a) = None) \<and>
       map_of s' = (map_of s)(trim_space a := None))"
proof -
  obtain t k where s: "s = (t, k)" by (cases s)
  obtain t' where s': "s' = (t', k)" and d: "enc_Delete B c a t = (e, t')"
    using del by (auto simp: enc_ops_def s split: prod.splits)
  obtain b where b: "es_backend t = Some b" "good b"
      and hon: "\<And>a e. envs b a = Some e \<Longrightarrow> honest A K sid a e"
      and dek: "\<And>d. es_dek t = Some d \<Longrightarrow> content d = K \<and> hdr_StoreID (es_header t) = sid"
      and mp: "map_of s = vault_recs A K sid (envs b)"
    by (rule okvE [OF ok, unfolded s fst_conv, folded s]) (rule that)
  let ?a = "trim_space a"
  have none: "map_of s ?a = None \<longleftrightarrow> envs b ?a = None"
    using vault_None [OF K_size hon] mp by simp
  from delete_cases [OF d] consider
    (stop) x where "t' = t" "e = Some x" "\<not> errors_is x StoreErrNotFound"
  | (go) b' where "be_DeleteEnvelope B (later c) ?a b = (e, b')" "t' = t\<lparr>es_backend := Some b'\<rparr>"
    using b by fastforce
  then show ?thesis
  proof cases
    case stop
    then have "okv s'" "map_of s' = map_of s"
      using ok s s' by (auto simp: vault_ok_def map_of_store_def split: option.splits)
    with stop show ?thesis by simp
  next
    case go
    have m': "map_of s' = vault_recs A K sid (envs b')"
      using s' go(2) by (simp add: map_of_store_def)
    have del: "envs b' = (envs b)(?a := None) \<Longrightarrow>
        map_of s' = (map_of s)(?a := None) \<and> okv s'" if "good b'"
      using vault_delete [of A K sid "envs b" ?a] m' mp hon that go s s' ok
      by (auto intro!: okvI split: if_splits)
    have keep: "envs b' = envs b \<Longrightarrow> map_of s' = map_of s \<and> okv s'" if "good b'"
      using m' mp hon that go s s' ok by (auto intro!: okvI)
    show ?thesis
    proof (cases e)
      case None
      with delenv_ok [OF b(2), of "later c" ?a b'] go del none show ?thesis by simp
    next
      case (Some x)
      with delenv_err [OF b(2), of "later c" ?a x b']
        delenv_absent [OF b(2), of "later c" ?a x b'] go del keep none
      show ?thesis by auto
    qed
  qed
qed

lemma get_step:
  assumes ok: "okv s"
  shows "st_Get ops c a s = Inr r \<Longrightarrow> map_of s (trim_space a) = Some r"
    and "st_Get ops c a s = Inl x \<Longrightarrow> errors_is x StoreErrNotFound \<Longrightarrow> map_of s (trim_space a) = None"
proof -
  obtain t k where s: "s = (t, k)" by (cases s)
  obtain b where b: "es_backend t = Some b" "good b"
      and hon: "\<And>a e. envs b a = Some e \<Longrightarrow> honest A K sid a e"
      and dek: "\<And>d. es_dek t = Some d \<Longrightarrow> content d = K \<and> hdr_StoreID (es_header t) = sid"
      and mp: "map_of s = vault_recs A K sid (envs b)"
    by (rule okvE [OF ok, unfolded s fst_conv, folded s]) (rule that)
  { assume "st_Get ops c a s = Inr r"
    then obtain blob where "envs b (trim_space a) = Some blob" "valid_blob blob"
        "blob = record_envelope A K sid (blob_Nonce blob) r" "rec_Alias r = trim_space a"
        "valid_record r" "fits r"
      using get_Inr [of B c a t r] b dek getenv_ok [OF b(2), of "later c" "trim_space a"]
      by (fastforce simp: enc_ops_def s)
    then show "map_of s (trim_space a) = Some r"
      using record_at_envelope [OF K_size] mp
      by (simp add: vault_recs_def valid_blob_def) metis }
  { assume "st_Get ops c a s = Inl x" "errors_is x StoreErrNotFound"
    then have "be_GetEnvelope B (later c) (trim_space a) b = Inl x"
      using get_Inl_notfound [of B c a t x] b by (auto simp: enc_ops_def s)
    then have "envs b (trim_space a) = None"
      using getenv_absent [OF b(2), of "later c" "trim_space a" x] \<open>errors_is x StoreErrNotFound\<close>
      by simp
    then show "map_of s (trim_space a) = None" by (simp add: mp vault_recs_def) }
qed

lemma has_step:
  assumes ok: "okv s" and has: "st_Has ops c a s = Inr v"
  shows "v = (map_of s (trim_space a) \<noteq> None)"
proof -
  obtain b where b: "es_backend (fst s) = Some b" "good b"
      and hon: "\<And>a e. envs b a = Some e \<Longrightarrow> honest A K sid a e"
      and dek: "\<And>d. es_dek (fst s) = Some d \<Longrightarrow> content d = K \<and> hdr_StoreID (es_header (fst s)) = sid"
      and mp: "map_of s = vault_recs A K sid (envs b)"
    by (rule okvE [OF ok]) (rule that)
  have "enc_Has B c a (fst s) = Inr v" using has by (simp add: enc_ops_def split: prod.splits)
  then have "v = (envs b (trim_space a) \<noteq> None)"
    using has_Inr [of B c a "fst s" v] b hasenv_ok [OF b(2), of "later c" "trim_space a" v] by simp
  then show ?thesis using vault_None [OF K_size hon] mp by simp
qed

lemma list_step:
  assumes ok: "okv s" and ls: "st_List ops c s = Inr as"
  shows "distinct as \<and> set as = dom (map_of s)"
proof -
  obtain b where b: "es_backend (fst s) = Some b" "good b"
      and hon: "\<And>a e. envs b a = Some e \<Longrightarrow> honest A K sid a e"
      and dek: "\<And>d. es_dek (fst s) = Some d \<Longrightarrow> content d = K \<and> hdr_StoreID (es_header (fst s)) = sid"
      and mp: "map_of s = vault_recs A K sid (envs b)"
    by (rule okvE [OF ok]) (rule that)
  have "enc_List B c (fst s) = Inr as" using ls by (simp add: enc_ops_def split: prod.splits)
  then have "distinct as \<and> set as = dom (envs b)"
    using list_Inr [of B c "fst s" as] b listenv_ok [OF b(2), of "later c" as] by simp
  moreover have "dom (envs b) = dom (map_of s)"
    using vault_None [OF K_size hon] mp by (auto simp: dom_def)
  ultimately show ?thesis by simp
qed

sublocale st: store_contract ops map_of norm_record okv
proof (unfold_locales, goal_cases)
  case (5 s c r s')
  then show ?case using put_step [OF 5] by auto
next
  case (6 s c r e s')
  then show ?case using put_step [OF 6] by auto
next
  case (7 s c r e s')
  then show ?case using put_step [OF 7(1,2)] by auto
next
  case (8 s c a r)
  then show ?case by (rule get_step)
next
  case (9 s c a e)
  then show ?case by (rule get_step)
next
  case (10 s c a s')
  then show ?case using delete_step [OF 10] by auto
next
  case (11 s c a e s')
  then show ?case using delete_step [OF 11] by auto
next
  case (12 s c a e s')
  then show ?case using delete_step [OF 12(1,2)] by auto
next
  case (13 s c a b)
  then show ?case by (rule has_step)
next
  case (14 s c as)
  then show ?case by (rule list_step)
qed simp_all

lemma contract: "store_contract ops map_of norm_record okv"
  by (rule st.store_contract_axioms)

end

section \<open>When the store answers\<close>

definition vault_up :: "('b \<Rightarrow> bool) \<Rightarrow> ('e, 'b) enc_store \<times> nat \<Rightarrow> bool" where
  "vault_up up s \<longleftrightarrow>
     es_dek (fst s) \<noteq> None \<and> (case es_backend (fst s) of None \<Rightarrow> False | Some b \<Rightarrow> up b)"

definition vault_takes :: "store_record \<Rightarrow> bool" where
  "vault_takes r \<longleftrightarrow> fits (norm_record r)"

lemma fits_length:
  "fits r \<Longrightarrow> valid_record r \<Longrightarrow> length (encoding r) + Overhead \<le> maxCiphertext"
  by (simp add: fits_def valid_record_def length_encoding SaltSize_def maxPayloadField_def
      Overhead_def maxCiphertext_def)

lemma rand_Read_live: "rng_err g k = None \<Longrightarrow> \<exists>b. rand_Read g k n = Inr b \<and> length b = n"
  by (simp add: rand_Read_def)

locale enc_vault_live =
  enc_vault B hdr envs kept kept_blob good M content A K sid g +
  live_backend B hdr envs kept kept_blob good up + sealing_live M content A
  for B :: "'b envelope_ops" and hdr envs kept kept_blob good
    and M :: "'e memguard" and content A K sid g and up +
  assumes rng_ok: "rng_err g i = None"
begin

lemma put_up:
  assumes ok: "okv s" and up: "vault_up up s" and v: "valid_record (norm_record r)"
    and fits: "fits (norm_record r)" and new: "map_of s (trim_space (rec_Alias r)) = None"
  shows "\<exists>s'. st_Put ops background r s = (None, s') \<and> vault_up up s'"
proof -
  obtain t k where s: "s = (t, k)" by (cases s)
  obtain b where b: "es_backend t = Some b" "good b"
      and hon: "\<And>a e. envs b a = Some e \<Longrightarrow> honest A K sid a e"
      and dek: "\<And>d. es_dek t = Some d \<Longrightarrow> content d = K \<and> hdr_StoreID (es_header t) = sid"
      and mp: "map_of s = vault_recs A K sid (envs b)"
    by (rule okvE [OF ok, unfolded s fst_conv, folded s]) (rule that)
  let ?r = "norm_record r" and ?a = "trim_space (rec_Alias r)"
  obtain d where d: "es_dek t = Some d" and ub: "up b"
    using up b by (auto simp: vault_up_def s)
  have "rng_err (rng_from g k) 0 = None" by (simp add: rng_from_def rng_ok)
  then obtain n where n: "rand_Read (rng_from g k) 0 NonceSizeX = Inr n"
    using rand_Read_live by blast
  define blob where "blob = sealed A (content d) n (encoding ?r) (recordAAD (es_header t) ?a)"
  have "envs b ?a = None" using vault_None [OF K_size hon] new mp by simp
  moreover have "?a \<noteq> []" using v by (simp add: valid_record_def)
  ultimately obtain b' where b': "be_PutEnvelope B background ?a blob b = (None, b')" "up b'"
    using putenv_live [OF b(2) ub, of ?a blob] by auto
  have "length (content d) = KeySize" using dek [OF d] K_size by simp
  then have "enc_Put B M A (rng_from g k) background r t = (None, t\<lparr>es_backend := Some b'\<rparr>)"
    using v fits d b b' n
    by (simp add: enc_Put_norm snapshot_def encodeRecord_eq seal_live blob_def telling_def)
  then show ?thesis using d b'(2) by (simp add: enc_ops_def s vault_up_def)
qed

lemma get_up:
  assumes ok: "okv s" and up: "vault_up up s" and r: "map_of s (trim_space a) = Some r"
  shows "st_Get ops background a s = Inr r"
proof -
  obtain t k where s: "s = (t, k)" by (cases s)
  obtain b where b: "es_backend t = Some b" "good b"
      and hon: "\<And>a e. envs b a = Some e \<Longrightarrow> honest A K sid a e"
      and dek: "\<And>d. es_dek t = Some d \<Longrightarrow> content d = K \<and> hdr_StoreID (es_header t) = sid"
      and mp: "map_of s = vault_recs A K sid (envs b)"
    by (rule okvE [OF ok, unfolded s fst_conv, folded s]) (rule that)
  obtain d where d: "es_dek t = Some d" and ub: "up b"
    using up b by (auto simp: vault_up_def s)
  obtain e where e: "envs b (trim_space a) = Some e" "record_at A K sid (trim_space a) e = Some r"
    using r mp by (auto simp: vault_recs_def bind_eq_Some_conv)
  obtain n r' where n: "length n = NonceSizeX" "valid_record r'" "fits r'"
      "rec_Alias r' = trim_space a" "e = record_envelope A K sid n r'"
    using hon [OF e(1)] by (auto simp: honest_def)
  have r': "r' = r" using record_at_envelope [OF K_size n(1-4), of sid] e(2) n(5) by simp
  have ne: "trim_space a \<noteq> []" using n(2,4) by (auto simp: valid_record_def)
  have "be_GetEnvelope B background (trim_space a) b = Inr e"
    using getenv_live [OF b(2) ub, of "trim_space a"] e(1) ne by simp
  moreover have "openLocked M A (Some d) e (recordAAD (es_header t) (trim_space a)) = Inr (encoding r)"
    using openLocked_sealed [of d n "encoding r" "record_data sid (trim_space a)"] dek [OF d]
      K_size n r' fits_length by (simp add: record_envelope_def recordAAD_data)
  moreover have "decodeRecord (trim_space a) (encoding r) = Inr r"
    using decode_encoding [of r "trim_space a"] n r' valid_fits_salt by fastforce
  ultimately show ?thesis
    using d b n(2) r' ne by (simp add: enc_ops_def s enc_Get_def Let_def snapshot_def asking_def)
qed

lemma delete_up:
  assumes ok: "okv s" and up: "vault_up up s" and r: "map_of s (trim_space a) = Some r"
  shows "\<exists>s'. st_Delete ops background a s = (None, s') \<and> vault_up up s'"
proof -
  obtain t k where s: "s = (t, k)" by (cases s)
  obtain b where b: "es_backend t = Some b" "good b"
      and hon: "\<And>a e. envs b a = Some e \<Longrightarrow> honest A K sid a e"
      and dek: "\<And>d. es_dek t = Some d \<Longrightarrow> content d = K \<and> hdr_StoreID (es_header t) = sid"
      and mp: "map_of s = vault_recs A K sid (envs b)"
    by (rule okvE [OF ok, unfolded s fst_conv, folded s]) (rule that)
  obtain d where d: "es_dek t = Some d" and ub: "up b"
    using up b by (auto simp: vault_up_def s)
  obtain e where e: "envs b (trim_space a) = Some e"
    using r mp by (auto simp: vault_recs_def bind_eq_Some_conv)
  then have ne: "trim_space a \<noteq> []" using hon by (fastforce simp: honest_def valid_record_def)
  obtain b' where "be_DeleteEnvelope B background (trim_space a) b = (None, b')" "up b'"
    using delenv_live [OF b(2) ub, of "trim_space a" e] e ne by auto
  then show ?thesis
    using d b ne
    by (simp add: enc_ops_def s enc_Delete_def Let_def snapshot_def telling_def vault_up_def)
qed

sublocale st: live_store ops map_of norm_record okv "vault_up up" vault_takes
proof (unfold_locales, goal_cases)
  case (1 s r)
  then show ?case using put_up by (simp add: vault_takes_def)
next
  case (2 s a r)
  then show ?case by (rule get_up)
next
  case (3 s a r)
  then show ?case by (rule delete_up)
next
  case (4 s a)
  then obtain b where b: "es_backend (fst s) = Some b" "good b" "up b"
    by (auto simp: vault_ok_def vault_up_def split: option.splits)
  then obtain v where "be_HasEnvelope B background (trim_space a) b = Inr v"
    using hasenv_live [OF b(2,3), of "trim_space a"] 4 by auto
  then have "enc_Has B background a (fst s) = Inr v"
    using b 4 by (simp add: enc_Has_def Let_def asking_def)
  then show ?case by (auto simp: enc_ops_def split: prod.splits)
qed

lemma live_contract: "live_store ops map_of norm_record okv (vault_up up) vault_takes"
  by (rule st.live_store_axioms)

end

end
