(* ===== verification/Encrypted_Lifecycle.thy ===== *)
theory Encrypted_Lifecycle
  imports Encrypted_Vault
begin

text \<open>
  The life cycle of an encrypted store: what \<open>Initialize\<close>, \<open>Unlock\<close>, \<open>RotateKEK\<close>, \<open>Lock\<close> and
  \<open>Close\<close> leave behind when they succeed and when they fail, over every backend with the
  contract \<open>envelope_backend\<close>.
\<close>

section \<open>Headers that wrap a DEK\<close>

definition trim_ref :: "kek_reference \<Rightarrow> kek_reference" where
  "trim_ref r = r\<lparr>ref_RPID := trim_space (ref_RPID r)\<rparr>"

text \<open>The header \<open>h\<close> holds the DEK \<open>k\<close> sealed under the KEK \<open>kk\<close>.\<close>

definition wraps :: "aead_ops \<Rightarrow> bytes \<Rightarrow> bytes \<Rightarrow> encryption_header \<Rightarrow> bool" where
  "wraps A kk k h \<longleftrightarrow>
     hdr_WrappedDEK h = sealed A kk (blob_Nonce (hdr_WrappedDEK h)) k (headerAAD h)"

lemma headerAAD_wrapped [simp]: "headerAAD (h\<lparr>hdr_WrappedDEK := w\<rparr>) = headerAAD h"
  by (simp add: headerAAD_eq)

lemma wraps_sealed: "wraps A kk k (h\<lparr>hdr_WrappedDEK := sealed A kk n k (headerAAD h)\<rparr>)"
  by (simp add: wraps_def)

lemma clean_sealed: "clean_blob (sealed A k n p ad)"
  by (auto simp: clean_blob_def sealed_def AlgorithmXChaCha20Poly1305_def ord_def
      intro!: valid_utf8_ascii)

lemma clean_valid_header:
  "valid_header h \<Longrightarrow> valid_utf8 (ref_RPID (hdr_KEK h)) \<Longrightarrow> clean_header h"
  by (simp add: clean_header_def valid_header_def)

context sealing
begin

lemma valid_wrapped:
  "length n = NonceSizeX \<Longrightarrow> length p = KeySize \<Longrightarrow> valid_blob (sealed A k n p ad)"
  by (rule valid_sealed) (simp_all add: KeySize_def Overhead_def maxCiphertext_def)

end

section \<open>Outcomes\<close>

context enc_over
begin

text \<open>What \<open>Initialize\<close> has done when it reaches the backend's \<open>CreateHeader\<close>.\<close>

lemma initialize_reach:
  assumes i: "enc_Initialize B M A g c ref kek s = (e, s')"
    and b: "es_backend s = Some b" "good b"
  obtains (stopped) "s' = s" "e \<noteq> None"
  | (reached) k d h y b' where "hdr b = None" "envs b = Map.empty" "kek = Some k"
      "length (content k) = KeySize" "length (content d) = KeySize" "valid_header h"
      "hdr_KEK h = trim_ref ref" "hdr_Revision h = 1" "wraps A (content k) (content d) h"
      "rand_Read g 0 storeIDSize = Inr (hdr_StoreID h)" "rand_Read g 1 KeySize = Inr (content d)"
      "be_CreateHeader B (later (later (later c))) h b = (y, b')"
      "e = None \<Longrightarrow> y = None \<and> s' = s\<lparr>es_backend := Some b', es_header := h, es_dek := Some d\<rparr>"
      "e \<noteq> None \<Longrightarrow> y \<noteq> None \<and> s' = s\<lparr>es_backend := Some b'\<rparr>"
proof -
  let ?ref = "trim_ref ref"
  have "s' = s \<and> e \<noteq> None \<or> (\<exists>x sid dk w y t. ValidateKEKReference ?ref = None \<and>
      validateKeyEnclave M kek ''KEK'' = None \<and>
      asking s (be_LoadHeader B (later c)) = Inl x \<and> errors_is x ErrNotInitialized \<and>
      asking s (be_ListEnvelopes B (later (later c))) = Inr [] \<and>
      rand_Read g 0 storeIDSize = Inr sid \<and> randomEnclave M g 1 KeySize = Inr dk \<and>
      wrapEnclave M A g 2 kek dk (headerAAD \<lparr>hdr_Version = FormatVersion,
        hdr_Revision = 1, hdr_StoreID = sid, hdr_KEK = ?ref, hdr_WrappedDEK = zero_blob\<rparr>) = Inr w \<and>
      telling s (be_CreateHeader B (later (later (later c))) \<lparr>hdr_Version = FormatVersion,
        hdr_Revision = 1, hdr_StoreID = sid, hdr_KEK = ?ref, hdr_WrappedDEK = w\<rparr>) = (y, t) \<and>
      (e \<noteq> None \<and> y \<noteq> None \<and> s' = t \<or> e = None \<and> y = None \<and> s' = t\<lparr>es_header := \<lparr>hdr_Version = FormatVersion,
          hdr_Revision = 1, hdr_StoreID = sid, hdr_KEK = ?ref, hdr_WrappedDEK = w\<rparr>, es_dek := dk\<rparr>))"
    using i by (auto simp: enc_Initialize_def Let_def trim_ref_def
        split: option.splits sum.splits if_splits prod.splits)
  then show thesis
  proof (elim disjE [of "s' = s \<and> e \<noteq> None"] exE conjE, goal_cases)
    case (2 x sid dk w y t)
    let ?z = "\<lparr>hdr_Version = FormatVersion, hdr_Revision = 1, hdr_StoreID = sid, hdr_KEK = ?ref,
       hdr_WrappedDEK = zero_blob\<rparr>"
    let ?h = "\<lparr>hdr_Version = FormatVersion, hdr_Revision = 1, hdr_StoreID = sid, hdr_KEK = ?ref,
       hdr_WrappedDEK = w\<rparr>"
    note ref = 2(1) and kek = 2(2) and ld = 2(3,4) and ls = 2(5) and sid = 2(6) and dk = 2(7)
      and w = 2(8) and t = 2(9) and s' = 2(10)
    obtain k where k: "kek = Some k" "length (content k) = KeySize"
      using kek validateKey_None by blast
    obtain d where d: "dk = Some d" "length (content d) = KeySize" "rand_Read g 1 KeySize = Inr (content d)"
      using randomEnclave_Inr [OF dk] by blast
    obtain n where n: "length n = NonceSizeX" "w = sealed A (content k) n (content d) (headerAAD ?z)"
      using wrap_Inr [OF w] k d by auto
    obtain b' where b': "be_CreateHeader B (later (later (later c))) ?h b = (y, b')"
        "t = s\<lparr>es_backend := Some b'\<rparr>"
      using t b by (auto simp: telling_def split: prod.splits)
    have vw: "valid_blob w" using n d valid_wrapped by metis
    have "hdr b = None" using ld b load_absent by (auto simp: asking_def)
    moreover have "envs b = Map.empty"
      using ls b listenv_ok [OF b(2), of "later (later c)" "[]"]
      by (simp add: asking_def flip: dom_eq_empty_conv)
    moreover have "valid_header ?h"
      using ref sid rand_Read_length vw by (auto simp: valid_header_def)
    moreover have "wraps A (content k) (content d) ?h"
      using n(2) by (simp add: wraps_def headerAAD_eq)
    ultimately show thesis
      using reached [of k d ?h y b'] k d sid b' s' by auto
  qed (rule stopped)
qed

lemma initialize_ok:
  assumes i: "enc_Initialize B M A g c ref kek s = (None, s')"
    and b: "es_backend s = Some b" "good b"
  shows "\<exists>b' k d h. es_backend s' = Some b' \<and> good b' \<and> hdr b = None \<and> envs b = Map.empty \<and>
    envs b' = Map.empty \<and> hdr b' = Some (kept h) \<and> es_header s' = h \<and> es_dek s' = Some d \<and>
    kek = Some k \<and> length (content k) = KeySize \<and> length (content d) = KeySize \<and>
    valid_header h \<and> hdr_KEK h = trim_ref ref \<and> hdr_Revision h = 1 \<and>
    rand_Read g 0 storeIDSize = Inr (hdr_StoreID h) \<and> rand_Read g 1 KeySize = Inr (content d) \<and>
    wraps A (content k) (content d) h"
  using i b
proof (cases rule: initialize_reach)
  case (reached k d h y b')
  then have y: "be_CreateHeader B (later (later (later c))) h b = (None, b')" by simp
  show ?thesis
    using reached create_ok [OF b(2) y]
    by (intro exI [of _ b'] exI [of _ k] exI [of _ d] exI [of _ h]) simp
qed simp

lemma initialize_err:
  assumes "enc_Initialize B M A g c ref kek s = (Some e, s')" "es_backend s = Some b" "good b"
  shows "es_dek s' = es_dek s \<and> es_header s' = es_header s \<and>
    (\<exists>b'. es_backend s' = Some b' \<and> good b' \<and> envs b' = envs b \<and>
       (hdr b \<noteq> None \<longrightarrow> hdr b' = hdr b))"
  using assms
proof (cases rule: initialize_reach)
  case (reached k d h y b')
  then obtain x where "be_CreateHeader B (later (later (later c))) h b = (Some x, b')" by auto
  from create_err [OF assms(3) this] reached show ?thesis by auto
qed (use assms in auto)

lemma unlock_ok:
  assumes u: "enc_Unlock B M A c kek s = (None, s')"
    and b: "es_backend s = Some b" "good b"
  shows "\<exists>h k d. hdr b = Some h \<and> valid_header h \<and> kek = Some k \<and> length (content k) = KeySize \<and>
    length (content d) = KeySize \<and> wraps A (content k) (content d) h \<and>
    s' = s\<lparr>es_header := h, es_dek := Some d\<rparr>"
proof -
  obtain h dk where ld: "be_LoadHeader B (later c) b = Inr h" and v: "valid_header h"
    and un: "unwrapEnclave M A kek (hdr_WrappedDEK h) (headerAAD h) = Inr dk"
    and s': "s' = s\<lparr>es_header := h, es_dek := dk\<rparr>"
    using u b by (auto simp: enc_Unlock_def asking_def split: option.splits sum.splits)
  from unwrap_Inr [OF un] load_ok [OF b(2) ld] v s' show ?thesis by (auto simp: wraps_def)
qed

lemma unlock_err: "enc_Unlock B M A c kek s = (Some e, s') \<Longrightarrow> s' = s"
  by (auto simp: enc_Unlock_def split: option.splits sum.splits)

text \<open>What \<open>RotateKEK\<close> has done when it reaches \<open>CompareAndSwapHeader\<close>.\<close>

lemma rotate_reach:
  assumes u: "enc_RotateKEK B M A g c ref kek s = (e, s')"
    and b: "es_backend s = Some b" "good b"
  obtains (stopped) "s' = s" "e \<noteq> None"
  | (reached) cur k d h y b' where "hdr b = Some cur" "valid_header cur"
      "hdr_Revision cur = hdr_Revision (es_header s)" "es_dek s = Some d" "kek = Some k"
      "length (content k) = KeySize" "length (content d) = KeySize"
      "hdr_Revision h = hdr_Revision cur + 1" "hdr_StoreID h = hdr_StoreID cur"
      "hdr_KEK h = trim_ref ref" "wraps A (content k) (content d) h"
      "hdr_Revision h \<noteq> 0 \<Longrightarrow> valid_header h"
      "be_CompareAndSwapHeader B (later (later c)) (hdr_Revision cur) h b = (y, b')"
      "e = None \<Longrightarrow> y = None \<and> s' = s\<lparr>es_backend := Some b', es_header := h\<rparr>"
      "e \<noteq> None \<Longrightarrow> y \<noteq> None \<and> s' = s\<lparr>es_backend := Some b'\<rparr>"
proof -
  let ?ref = "trim_ref ref"
  have "s' = s \<and> e \<noteq> None \<or> (\<exists>cur w y t. ValidateKEKReference ?ref = None \<and> es_dek s \<noteq> None \<and>
      asking s (be_LoadHeader B (later c)) = Inr cur \<and> valid_header cur \<and>
      hdr_Revision cur = hdr_Revision (es_header s) \<and>
      wrapEnclave M A g 0 kek (es_dek s)
        (headerAAD (cur\<lparr>hdr_Revision := hdr_Revision cur + 1, hdr_KEK := ?ref\<rparr>)) = Inr w \<and>
      telling s (be_CompareAndSwapHeader B (later (later c)) (hdr_Revision cur)
        (cur\<lparr>hdr_Revision := hdr_Revision cur + 1, hdr_KEK := ?ref, hdr_WrappedDEK := w\<rparr>)) = (y, t) \<and>
      (e \<noteq> None \<and> y \<noteq> None \<and> s' = t \<or> e = None \<and> y = None \<and> s' = t\<lparr>es_header :=
        cur\<lparr>hdr_Revision := hdr_Revision cur + 1, hdr_KEK := ?ref, hdr_WrappedDEK := w\<rparr>\<rparr>))"
    using u by (auto simp: enc_RotateKEK_def Let_def trim_ref_def
        split: option.splits sum.splits if_splits prod.splits)
  then show thesis
  proof (elim disjE [of "s' = s \<and> e \<noteq> None"] exE conjE, goal_cases)
    case (2 cur w y t)
    let ?z = "cur\<lparr>hdr_Revision := hdr_Revision cur + 1, hdr_KEK := ?ref\<rparr>"
    let ?h = "?z\<lparr>hdr_WrappedDEK := w\<rparr>"
    note ref = 2(1) and ld = 2(3) and v = 2(4) and rv = 2(5) and w = 2(6) and t = 2(7) and s' = 2(8)
    obtain k d n where k: "kek = Some k" "length (content k) = KeySize" and d: "es_dek s = Some d"
        "length (content d) = KeySize" and n: "length n = NonceSizeX"
        "w = sealed A (content k) n (content d) (headerAAD ?z)"
      using wrap_Inr [OF w] by blast
    obtain b' where b': "be_CompareAndSwapHeader B (later (later c)) (hdr_Revision cur) ?h b = (y, b')"
        "t = s\<lparr>es_backend := Some b'\<rparr>"
      using t b by (auto simp: telling_def split: prod.splits)
    have "hdr b = Some cur" using ld b load_ok by (auto simp: asking_def)
    moreover have "hdr_Revision ?h \<noteq> 0 \<Longrightarrow> valid_header ?h"
      using v ref n d valid_wrapped by (simp add: valid_header_def)
    moreover have "wraps A (content k) (content d) ?h"
      using n(2) by (simp add: wraps_def)
    ultimately show thesis
      using reached [of cur d k ?h y b'] k d v rv b' s' by auto
  qed (rule stopped)
qed

lemma rotate_ok:
  assumes u: "enc_RotateKEK B M A g c ref kek s = (None, s')"
    and b: "es_backend s = Some b" "good b"
  shows "\<exists>cur b' k d h. hdr b = Some cur \<and> valid_header cur \<and>
    hdr_Revision cur = hdr_Revision (es_header s) \<and> es_dek s = Some d \<and> kek = Some k \<and>
    length (content k) = KeySize \<and> length (content d) = KeySize \<and>
    good b' \<and> envs b' = envs b \<and> hdr b' = Some (kept h) \<and>
    s' = s\<lparr>es_backend := Some b', es_header := h\<rparr> \<and>
    hdr_Revision h = hdr_Revision cur + 1 \<and> hdr_StoreID h = hdr_StoreID cur \<and>
    hdr_KEK h = trim_ref ref \<and> wraps A (content k) (content d) h \<and>
    (hdr_Revision h \<noteq> 0 \<longrightarrow> valid_header h)"
  using u b
proof (cases rule: rotate_reach)
  case (reached cur k d h y b')
  then have y: "be_CompareAndSwapHeader B (later (later c)) (hdr_Revision cur) h b = (None, b')" by simp
  show ?thesis
    using reached cas_ok [OF b(2) y]
    by (intro exI [of _ cur] exI [of _ b'] exI [of _ k] exI [of _ d] exI [of _ h]) simp
qed simp

lemma rotate_err:
  assumes u: "enc_RotateKEK B M A g c ref kek s = (Some e, s')"
    and b: "es_backend s = Some b" "good b"
  shows "es_dek s' = es_dek s \<and> es_header s' = es_header s \<and>
    (\<exists>b'. es_backend s' = Some b' \<and> good b' \<and> envs b' = envs b)"
  using u b
proof (cases rule: rotate_reach)
  case (reached cur k d h y b')
  then obtain x where "be_CompareAndSwapHeader B (later (later c)) (hdr_Revision cur) h b = (Some x, b')"
    by auto
  from cas_err [OF b(2) this] reached show ?thesis by auto
qed (use b in auto)

end

section \<open>When the operations succeed\<close>

locale enc_live =
  enc_over B hdr envs kept kept_blob good M content A +
  live_backend B hdr envs kept kept_blob good up + sealing_live M content A
  for B :: "'b envelope_ops" and hdr envs kept kept_blob good
    and M :: "'e memguard" and content A and up
begin

lemma key_ok: "length (content k) = KeySize \<Longrightarrow> validateKeyEnclave M (Some k) n = None"
  by (simp add: validateKeyEnclave_def size_content)

lemma load_up: "hdr b = Some h \<Longrightarrow> good b \<Longrightarrow> up b \<Longrightarrow> be_LoadHeader B background b = Inr h"
  by (rule load_live)

lemma initialize_live:
  assumes b: "es_backend s = Some b" "good b" "up b" "hdr b = None" "envs b = Map.empty"
    and r: "ValidateKEKReference (trim_ref ref) = None" "length (content k) = KeySize"
    and g: "\<And>i. rng_err g i = None"
  shows "\<exists>s' b'. enc_Initialize B M A g background ref (Some k) s = (None, s') \<and>
    es_backend s' = Some b' \<and> up b'"
proof -
  obtain x where x: "be_LoadHeader B background b = Inl x" "errors_is x ErrNotInitialized"
    using load_none [OF b(2-4)] by blast
  obtain as where as: "be_ListEnvelopes B background b = Inr as"
    using listenv_live [OF b(2,3)] by blast
  then have ls: "be_ListEnvelopes B background b = Inr []"
    using listenv_ok [OF b(2) as] b(5) by simp
  obtain sid where sid: "rand_Read g 0 storeIDSize = Inr sid" using rand_Read_live g by blast
  obtain kb where kb: "rand_Read g 1 KeySize = Inr kb" "length kb = KeySize"
    using rand_Read_live g by blast
  obtain d where d: "mg_Seal M kb = Some d" "content d = kb" using seal_long [OF kb(2)] by blast
  have rd: "randomEnclave M g 1 KeySize = Inr (Some d)"
    using kb d by (simp add: randomEnclave_def buffer_live)
  obtain n where n: "rand_Read g 2 NonceSizeX = Inr n" using rand_Read_live g by blast
  note w = wrap_live [OF r(2) _ n, of d]
  have cr: "\<exists>b'. be_CreateHeader B background h b = (None, b') \<and> up b'" for h
    using create_live [OF b(2-4)] by blast
  define h where "h = \<lparr>hdr_Version = FormatVersion, hdr_Revision = 1, hdr_StoreID = sid,
    hdr_KEK = trim_ref ref, hdr_WrappedDEK = zero_blob\<rparr>"
  obtain b' where b': "be_CreateHeader B background (h\<lparr>hdr_WrappedDEK :=
      sealed A (content k) n (content d) (headerAAD h)\<rparr>) b = (None, b')" "up b'"
    using cr by blast
  show ?thesis
    using b x ls sid rd w d kb r key_ok b'
    by (simp add: enc_Initialize_def Let_def asking_def telling_def trim_ref_def h_def)
qed

lemma unlock_live:
  assumes b: "es_backend s = Some b" "good b" "up b" "hdr b = Some h"
    and h: "valid_header h" "wraps A (content k) K h"
    and k: "length (content k) = KeySize" "length K = KeySize"
  shows "\<exists>d. enc_Unlock B M A background (Some k) s =
    (None, s\<lparr>es_header := h, es_dek := Some d\<rparr>) \<and> content d = K"
proof -
  obtain e where e: "mg_Seal M K = Some e" "content e = K" using seal_long [OF k(2)] by blast
  have n: "length (blob_Nonce (hdr_WrappedDEK h)) = NonceSizeX"
    using h(1) by (simp add: valid_header_def valid_blob_def)
  obtain d where "unwrapEnclave M A (Some k) (hdr_WrappedDEK h) (headerAAD h) = Inr (Some d)"
      "content d = K"
    using unwrap_sealed [OF k(1) _ n, of e "headerAAD h"] e k(2) h(2) [unfolded wraps_def]
    by metis
  then show ?thesis
    using b h k key_ok load_live [OF b(2-4)]
    by (intro exI [of _ d]) (simp add: enc_Unlock_def asking_def)
qed

lemma unlock_wrong:
  assumes b: "es_backend s = Some b" "good b" "up b" "hdr b = Some h"
    and h: "valid_header h" and k: "length (content k) = KeySize"
    and no: "ae_Open A (content k) (blob_Nonce (hdr_WrappedDEK h))
      (blob_Ciphertext (hdr_WrappedDEK h)) (headerAAD h) = None"
  shows "\<exists>e. enc_Unlock B M A background (Some k) s = (Some e, s) \<and> errors_is e ErrIntegrity"
proof -
  have "valid_blob (hdr_WrappedDEK h)" using h by (simp add: valid_header_def)
  then have "unwrapEnclave M A (Some k) (hdr_WrappedDEK h) (headerAAD h) = Inl (Sentinel ErrIntegrity)"
    using openLocked_total [OF k] no by (simp add: unwrapEnclave_def)
  then show ?thesis
    using b h k key_ok load_live [OF b(2-4)] by (simp add: enc_Unlock_def asking_def)
qed

lemma rotate_live:
  assumes b: "es_backend s = Some b" "good b" "up b" "hdr b = Some cur"
    and h: "valid_header cur" "hdr_Revision cur = hdr_Revision (es_header s)"
    and r: "ValidateKEKReference (trim_ref ref) = None" "length (content k) = KeySize"
    and d: "es_dek s = Some d" "length (content d) = KeySize"
    and g: "\<And>i. rng_err g i = None"
  shows "\<exists>s' b'. enc_RotateKEK B M A g background ref (Some k) s = (None, s') \<and>
    es_backend s' = Some b' \<and> up b'"
proof -
  obtain n where n: "rand_Read g 0 NonceSizeX = Inr n" using rand_Read_live g by blast
  note w = wrap_live [OF r(2) d(2) n]
  have cs: "\<exists>b'. be_CompareAndSwapHeader B background (hdr_Revision cur) h b = (None, b') \<and> up b'" for h
    using cas_live [OF b(2,3)] b(4) by simp
  define h where "h = cur\<lparr>hdr_Revision := hdr_Revision cur + 1, hdr_KEK := trim_ref ref\<rparr>"
  obtain b' where b': "be_CompareAndSwapHeader B background (hdr_Revision cur) (h\<lparr>hdr_WrappedDEK :=
      sealed A (content k) n (content d) (headerAAD h)\<rparr>) b = (None, b')" "up b'"
    using cs by blast
  show ?thesis
    using b h r d w key_ok load_live [OF b(2-4)] b'
    by (simp add: enc_RotateKEK_def Let_def asking_def telling_def trim_ref_def h_def)
qed

end

end
