(* ===== verification/XChaCha20_Poly1305.thy ===== *)
theory XChaCha20_Poly1305
  imports Sealing
begin

unbundle bit_operations_syntax

text \<open>
  XChaCha20-Poly1305 as RFC 8439 and draft-irtf-cfrg-xchacha define it, and enclaves as the
  bytes sealed in them: the instances on which the laws assumed of the cipher and of memguard
  are checked. The properties hold for every cipher and every memguard with these laws; the
  instances show that there are some.
\<close>

section \<open>ChaCha20\<close>

type_synonym chacha_state = "32 word list"

fun le_bytes :: "nat \<Rightarrow> nat \<Rightarrow> bytes" where
  "le_bytes 0 n = []"
| "le_bytes (Suc k) n = of_nat n # le_bytes k (n div 256)"

definition le_nat :: "bytes \<Rightarrow> nat" where
  "le_nat b = foldr (\<lambda>x a. unat x + 256 * a) b 0"

fun le_words :: "bytes \<Rightarrow> 32 word list" where
  "le_words (a # b # c # d # r) = of_nat (le_nat [a, b, c, d]) # le_words r"
| "le_words _ = []"

definition add_rot :: "nat \<Rightarrow> nat \<Rightarrow> nat \<Rightarrow> nat \<Rightarrow> chacha_state \<Rightarrow> chacha_state" where
  "add_rot a b d n s =
     (let x = s ! a + s ! b in s[a := x, d := word_rotl n (s ! d XOR x)])"

definition quarter_round ::
  "nat \<times> nat \<times> nat \<times> nat \<Rightarrow> chacha_state \<Rightarrow> chacha_state" where
  "quarter_round q s =
     (case q of (a, b, c, d) \<Rightarrow>
        add_rot c d b 7 (add_rot a b d 8 (add_rot c d b 12 (add_rot a b d 16 s))))"

definition double_round :: "chacha_state \<Rightarrow> chacha_state" where
  "double_round s =
     fold quarter_round
       [(0, 4, 8, 12), (1, 5, 9, 13), (2, 6, 10, 14), (3, 7, 11, 15),
        (0, 5, 10, 15), (1, 6, 11, 12), (2, 7, 8, 13), (3, 4, 9, 14)] s"

definition chacha_rounds :: "chacha_state \<Rightarrow> chacha_state" where
  "chacha_rounds s = (double_round ^^ 10) s"

definition sigma :: "32 word list" where
  "sigma = [0x61707865, 0x3320646e, 0x79622d32, 0x6b206574]"

definition chacha_block :: "bytes \<Rightarrow> bytes \<Rightarrow> nat \<Rightarrow> bytes" where
  "chacha_block key nonce counter =
     (let s = take 16 (sigma @ le_words key @ [of_nat counter] @ le_words nonce @ replicate 16 0)
      in concat (map (le_bytes 4 \<circ> unat) (map2 (+) s (chacha_rounds s))))"

definition hchacha20 :: "bytes \<Rightarrow> bytes \<Rightarrow> bytes" where
  "hchacha20 key nonce =
     (let s = chacha_rounds (sigma @ le_words key @ le_words nonce)
      in concat (map (le_bytes 4 \<circ> unat) (take 4 s @ drop 12 s)))"

definition keystream :: "bytes \<Rightarrow> bytes \<Rightarrow> nat \<Rightarrow> bytes" where
  "keystream key nonce n =
     take n (concat (map (chacha_block key nonce) [1..<n div 64 + 2]))"

definition crypt :: "bytes \<Rightarrow> bytes \<Rightarrow> bytes \<Rightarrow> bytes" where
  "crypt key nonce p = map2 (XOR) p (keystream key nonce (length p))"

section \<open>Poly1305 and the construction\<close>

fun poly_acc :: "nat \<Rightarrow> nat \<Rightarrow> bytes list \<Rightarrow> nat" where
  "poly_acc r acc [] = acc"
| "poly_acc r acc (b # bs) =
     poly_acc r ((acc + le_nat (b @ [1])) * r mod (2 ^ 130 - 5)) bs"

function blocks16 :: "bytes \<Rightarrow> bytes list" where
  "blocks16 m = (if m = [] then [] else take 16 m # blocks16 (drop 16 m))"
  by pat_completeness auto
termination
  by (relation "measure length") auto

declare blocks16.simps [simp del]

definition poly1305 :: "bytes \<Rightarrow> bytes \<Rightarrow> bytes" where
  "poly1305 key m =
     (let r = le_nat (take 16 key) AND 0x0ffffffc0ffffffc0ffffffc0fffffff;
          s = le_nat (drop 16 key)
      in le_bytes 16 (poly_acc r 0 (blocks16 m) + s))"

definition pad16 :: "bytes \<Rightarrow> bytes" where
  "pad16 b = b @ replicate ((16 - length b mod 16) mod 16) 0"

definition xchacha_tag :: "bytes \<Rightarrow> bytes \<Rightarrow> bytes \<Rightarrow> bytes \<Rightarrow> bytes" where
  "xchacha_tag subkey nonce c ad =
     poly1305 (take 32 (chacha_block subkey nonce 0))
       (pad16 ad @ pad16 c @ le_bytes 8 (length ad) @ le_bytes 8 (length c))"

definition subkey_of :: "bytes \<Rightarrow> bytes \<Rightarrow> bytes" where
  "subkey_of key nonce = hchacha20 key (take 16 nonce)"

definition subnonce_of :: "bytes \<Rightarrow> bytes" where
  "subnonce_of nonce = replicate 4 0 @ drop 16 nonce"

definition xchacha_seal :: "bytes \<Rightarrow> bytes \<Rightarrow> bytes \<Rightarrow> bytes \<Rightarrow> bytes" where
  "xchacha_seal key nonce p ad =
     (let k = subkey_of key nonce; n = subnonce_of nonce; c = crypt k n p
      in c @ xchacha_tag k n c ad)"

definition xchacha_open :: "bytes \<Rightarrow> bytes \<Rightarrow> bytes \<Rightarrow> bytes \<Rightarrow> bytes option" where
  "xchacha_open key nonce ct ad =
     (if length ct < 16 then None
      else
        (let k = subkey_of key nonce; n = subnonce_of nonce;
             c = take (length ct - 16) ct; t = drop (length ct - 16) ct
         in if xchacha_tag k n c ad = t then Some (crypt k n c) else None))"

definition xchacha20poly1305 :: aead_ops where
  "xchacha20poly1305 =
     \<lparr>ae_NewX = (\<lambda>k. if length k \<noteq> KeySize
        then Some (Foreign ''chacha20poly1305: bad key length'') else None),
      ae_Seal = xchacha_seal, ae_Open = xchacha_open\<rparr>"

section \<open>The laws hold\<close>

lemma length_le_bytes [simp]: "length (le_bytes k n) = k"
  by (induction k arbitrary: n) simp_all

lemma length_quarter_round [simp]: "length (quarter_round q s) = length s"
  by (cases q) (simp add: quarter_round_def add_rot_def Let_def)

lemma length_double_round [simp]: "length (double_round s) = length s"
  by (simp add: double_round_def)

lemma length_chacha_rounds [simp]: "length (chacha_rounds s) = length s"
proof -
  have "length ((double_round ^^ n) s) = length s" for n by (induction n) simp_all
  then show ?thesis by (simp add: chacha_rounds_def)
qed

lemma length_concat_le [simp]: "length (concat (map (le_bytes k \<circ> f) ws)) = k * length ws"
  by (induction ws) (simp_all add: le_bytes.simps)

lemma length_chacha_block [simp]: "length (chacha_block k n c) = 64"
  by (simp add: chacha_block_def Let_def sigma_def comp_assoc del: le_bytes.simps)

lemma length_keystream [simp]: "length (keystream k n m) = m"
proof -
  have "length (concat (map (chacha_block k n) xs)) = 64 * length xs" for xs :: "nat list"
    by (induction xs) simp_all
  moreover have "m \<le> 64 * (m div 64 + 1)" by simp
  ultimately show ?thesis by (simp add: keystream_def)
qed

lemma length_crypt [simp]: "length (crypt k n p) = length p"
  by (simp add: crypt_def)

lemma xor_twice: "length b \<le> length ks \<Longrightarrow> map2 (XOR) (map2 (XOR) b ks) ks = (b :: bytes)"
  by (induction b ks rule: list_induct2') (simp_all add: xor.assoc)

lemma crypt_twice [simp]: "crypt k n (crypt k n p) = p"
  using xor_twice [of p "keystream k n (length p)"] by (simp add: crypt_def)

lemma length_tag [simp]: "length (xchacha_tag k n c ad) = 16"
  by (simp add: xchacha_tag_def poly1305_def Let_def del: le_bytes.simps)

interpretation xc: xchacha xchacha20poly1305
proof
  fix k :: bytes
  show "(ae_NewX xchacha20poly1305 k = None) = (length k = KeySize)"
    by (simp add: xchacha20poly1305_def)
next
  fix k x t
  assume "ae_NewX xchacha20poly1305 k = Some x"
  then show "\<not> errors_is x t" by (auto simp: xchacha20poly1305_def split: if_splits)
next
  fix k n p ad
  show "length (ae_Seal xchacha20poly1305 k n p ad) = length p + Overhead"
    by (simp add: xchacha20poly1305_def xchacha_seal_def Overhead_def Let_def)
next
  fix k n p ad
  show "ae_Open xchacha20poly1305 k n (ae_Seal xchacha20poly1305 k n p ad) ad = Some p"
    by (simp add: xchacha20poly1305_def xchacha_seal_def xchacha_open_def Let_def)
next
  fix k n c ad p
  assume "ae_Open xchacha20poly1305 k n c ad = Some p"
  then show "c = ae_Seal xchacha20poly1305 k n p ad"
    by (auto simp: xchacha20poly1305_def xchacha_seal_def xchacha_open_def Let_def
        split: if_splits)
qed

section \<open>Enclaves\<close>

definition plain_guard :: "bytes memguard" where
  "plain_guard =
     \<lparr>mg_Size = length, mg_Open = Inr, mg_NewBuffer = (\<lambda>n. n),
      mg_Seal = (\<lambda>b. if b = [] then None else Some b)\<rparr>"

interpretation pg: sealing_live plain_guard "\<lambda>e. e" xchacha20poly1305
  by unfold_locales (auto simp: plain_guard_def split: if_splits)

end
