(* ===== verification/Encrypted_Properties.thy ===== *)
theory Encrypted_Properties
  imports Encrypted_Lifecycle Pebble_Plain XChaCha20_Poly1305
begin

text \<open>
  What the encrypted store promises, over every backend with the contract of
  \<open>EnvelopeBackend\<close>, every cipher and every memguard with the laws of \<open>Sealing\<close>. The witnesses
  run it on Pebble in memory with XChaCha20-Poly1305.
\<close>

section \<open>The encrypted store on Pebble\<close>

abbreviation mem_ops :: "mem_db option envelope_ops" where
  "mem_ops \<equiv> pebble_envelope_ops mem_pebble"

abbreviation mem_up :: "mem_db option \<Rightarrow> bool" where
  "mem_up \<equiv> \<lambda>s. s \<noteq> None"

interpretation me: enc_live mem_ops "pebble_hdr map_of" "pebble_envs map_of" kept_header_json
  kept_blob_json "pebble_good map_of" plain_guard "\<lambda>e. e" xchacha20poly1305 mem_up
  by unfold_locales

lemma plain_sealing: "sealing plain_guard (\<lambda>e. e) xchacha20poly1305"
  by unfold_locales

definition zero_rng :: rng where
  "zero_rng = \<lparr>rng_err = (\<lambda>_. None), rng_byte = (\<lambda>_ _. 0)\<rparr>"

definition sample_key :: bytes where
  "sample_key = replicate 32 0"

definition sample_sid :: bytes where
  "sample_sid = replicate 16 0"

lemma sample_key_size [simp]: "length sample_key = KeySize"
  by (simp add: sample_key_def KeySize_def)

lemma zero_rng_ok [simp]: "rng_err zero_rng i = None"
  by (simp add: zero_rng_def)

interpretation mv: enc_vault_live mem_ops "pebble_hdr map_of" "pebble_envs map_of" kept_header_json
  kept_blob_json "pebble_good map_of" plain_guard "\<lambda>e. e" xchacha20poly1305 sample_key sample_sid
  zero_rng mem_up
  by unfold_locales simp_all

text \<open>The store just opened, the same unlocked with the sample key, and its laws.\<close>

definition fresh_store :: "(bytes, mem_db option) enc_store" where
  "fresh_store = \<lparr>es_backend = Some (Some []), es_header = zero_header, es_dek = None\<rparr>"

definition open_store :: "(bytes, mem_db option) enc_store" where
  "open_store = \<lparr>es_backend = Some (Some []),
     es_header = zero_header\<lparr>hdr_StoreID := sample_sid\<rparr>, es_dek = Some sample_key\<rparr>"

definition sample_ref :: kek_reference where
  "sample_ref = \<lparr>ref_CredentialID = [1], ref_Salt = replicate 32 2, ref_RPID = ''example.org''\<rparr>"

lemma empty_db [simp]:
  "good_in Map.empty" "hdr_in Map.empty = None" "envs_in Map.empty = Map.empty"
  by (simp_all add: good_in_def hdr_in_def envs_in_def fun_eq_iff)

lemma open_store_ok [simp]:
  "vault_ok (pebble_good map_of) (pebble_envs map_of) (\<lambda>e. e) xchacha20poly1305 sample_key
     sample_sid (open_store, 0)"
  "vault_up mem_up (open_store, 0)"
  "map_of_store (pebble_envs map_of) xchacha20poly1305 sample_key sample_sid (open_store, 0)
     = Map.empty"
  by (simp_all add: vault_ok_def vault_up_def map_of_store_def open_store_def vault_recs_def
      fun_eq_iff)

lemma trim_sample [simp]: "trim_space ''example.org'' = ''example.org''"
  "trim_space ''mail'' = ''mail''"
  by code_simp+

lemma sample_norm [simp]: "norm_record sample_record = sample_record"
  by (simp add: norm_record_def sample_record_def)

lemma sample_valid [simp]: "valid_record sample_record" "vault_takes sample_record"
  by (simp_all add: valid_record_def vault_takes_def) (simp_all add: sample_record_def SaltSize_def)

lemma sample_alias [simp]: "rec_Alias sample_record = ''mail''"
  by (simp add: sample_record_def)

section \<open>Records\<close>

text \<open>C4: The encrypted store refines the alias map: whatever sequence of calls a client makes,
  with whatever contexts, and whatever the backend, the random source and memguard answer, the
  answers are answers of a map of records and the store goes on standing for the map they
  leave.\<close>

theorem encrypted_store_refines_map:
  assumes "enc_vault B hdr envs kept kept_blob good M content A k"
    and "vault_ok good envs content A k sid s"
    and "do_calls (enc_ops B M A g) cs s = (as, s')"
  shows "vault_ok good envs content A k sid s' \<and>
    spec_run norm_record (map_of_store envs A k sid s) cs as (map_of_store envs A k sid s')"
  using store_contract.calls_refine [OF enc_vault.contract [OF assms(1)] assms(2,3)] .

theorem encrypted_store_refines_map_witness:
  "\<exists>as s'. do_calls (enc_ops mem_ops plain_guard xchacha20poly1305 zero_rng)
       [CPut background sample_record, CGet background ''mail'', CList background] (open_store, 0) = (as, s') \<and>
     spec_run norm_record Map.empty
       [CPut background sample_record, CGet background ''mail'', CList background] as
       (map_of_store (pebble_envs map_of) xchacha20poly1305 sample_key sample_sid s')"
proof -
  obtain as s' where r: "do_calls (enc_ops mem_ops plain_guard xchacha20poly1305 zero_rng)
      [CPut background sample_record, CGet background ''mail'', CList background] (open_store, 0) = (as, s')"
    by (rule prod.exhaust)
  with encrypted_store_refines_map [OF mv.enc_vault_axioms open_store_ok(1) r] show ?thesis
    by (simp only: open_store_ok(3)) blast
qed

text \<open>C12: What \<open>Put\<close> stores, \<open>Get\<close> returns: over a backend that answers, an unlocked store
  accepts every valid record of a free alias whose fields fit the format, \<open>Get\<close> then returns it
  in normal form, and no other alias has changed.\<close>

theorem encrypted_put_get:
  assumes "enc_vault_live B hdr envs kept kept_blob good M content A k g up"
    and "vault_ok good envs content A k sid s" "vault_up up s"
    and "valid_record (norm_record r)" "vault_takes r"
    and "map_of_store envs A k sid s (trim_space (rec_Alias r)) = None"
  shows "\<exists>s'. st_Put (enc_ops B M A g) background r s = (None, s') \<and>
    st_Get (enc_ops B M A g) background (rec_Alias r) s' = Inr (norm_record r) \<and>
    (\<forall>a. a \<noteq> trim_space (rec_Alias r) \<longrightarrow>
       map_of_store envs A k sid s' a = map_of_store envs A k sid s a)"
proof -
  note live = enc_vault_live.live_contract [OF assms(1), of sid]
  obtain s' where s': "st_Put (enc_ops B M A g) background r s = (None, s')"
      "st_Get (enc_ops B M A g) background (rec_Alias r) s' = Inr (norm_record r)"
    using live_store.put_get_live [OF live assms(2-6)] by blast
  with store_contract.put_frame [OF live_store.axioms(1) [OF live] assms(2) s'(1)] show ?thesis
    by blast
qed

theorem encrypted_put_get_witness:
  "\<exists>s'. st_Put (enc_ops mem_ops plain_guard xchacha20poly1305 zero_rng) background sample_record
       (open_store, 0) = (None, s') \<and>
     st_Get (enc_ops mem_ops plain_guard xchacha20poly1305 zero_rng) background ''mail'' s'
       = Inr sample_record"
  using encrypted_put_get [OF mv.enc_vault_live_axioms open_store_ok(1,2), of sample_record]
  by auto

text \<open>C13: What \<open>Get\<close> returns is authentic: a record comes back only if the backend holds, under
  that alias, exactly the envelope that \<open>Put\<close> makes of it with the store's DEK, the store's ID
  and the alias as additional data.\<close>

theorem encrypted_get_authentic:
  assumes "enc_over B hdr envs kept kept_blob good M content A"
    and "es_backend s = Some b" "good b" "es_dek s = Some d"
    and "enc_Get B M A c a s = Inr r"
  shows "\<exists>n. envs b (trim_space a) =
      Some (record_envelope A (content d) (hdr_StoreID (es_header s)) n r) \<and>
    length n = NonceSizeX \<and> rec_Alias r = trim_space a \<and> valid_record r"
proof -
  have se: "sealing M content A" and be: "envelope_backend B hdr envs kept kept_blob good"
    using assms(1) by (auto simp: enc_over_def)
  obtain blob where blob: "be_GetEnvelope B (later c) (trim_space a) b = Inr blob" "valid_blob blob"
      "blob = record_envelope A (content d) (hdr_StoreID (es_header s)) (blob_Nonce blob) r"
      "valid_record r" "rec_Alias r = trim_space a"
    using sealing.get_Inr [OF se assms(5)] assms(2,4) by auto
  then have "envs b (trim_space a) = Some blob"
    using envelope_backend.getenv_ok [OF be assms(3) blob(1)] by simp
  moreover have "length (blob_Nonce blob) = NonceSizeX" using blob(2) by (simp add: valid_blob_def)
  ultimately show ?thesis using blob by metis
qed

theorem encrypted_get_authentic_witness:
  "\<exists>s b n. es_backend s = Some b \<and> es_dek s = Some sample_key \<and>
     enc_Get mem_ops plain_guard xchacha20poly1305 background ''mail'' s = Inr sample_record \<and>
     pebble_envs map_of b ''mail'' =
       Some (record_envelope xchacha20poly1305 sample_key (hdr_StoreID (es_header s)) n sample_record)"
proof -
  let ?o = "enc_ops mem_ops plain_guard xchacha20poly1305 zero_rng"
  obtain t k where put: "st_Put ?o background sample_record (open_store, 0) = (None, (t, k))"
      and get: "st_Get ?o background ''mail'' (t, k) = Inr sample_record"
    using live_store.put_get_live [OF mv.live_contract open_store_ok(1,2), of sample_record]
    by auto
  have "enc_Put mem_ops plain_guard xchacha20poly1305 (rng_from zero_rng 0) background sample_record
      open_store = (None, t)"
    using put by (auto simp: enc_ops_def split: prod.splits)
  then obtain b where b: "es_backend t = Some b" "es_dek t = Some sample_key"
    using sealing.put_cases [OF plain_sealing] by (fastforce simp: open_store_def)
  have "vault_ok (pebble_good map_of) (pebble_envs map_of) (\<lambda>e. e) xchacha20poly1305 sample_key
      sample_sid (t, k)"
    using store_contract.put_inv [OF mv.contract open_store_ok(1) put] .
  then have "pebble_good map_of b" using b by (simp add: vault_ok_def)
  moreover have "enc_Get mem_ops plain_guard xchacha20poly1305 background ''mail'' t = Inr sample_record"
    using get by (simp add: enc_ops_def)
  ultimately show ?thesis
    using encrypted_get_authentic [OF me.enc_over_axioms b(1) _ b(2), of background "''mail''" sample_record] b
    by auto
qed

end
