(* ===== verification/Sqlite_Properties.thy ===== *)
theory Sqlite_Properties
  imports Reference_Map Encrypted_Properties
begin

text \<open>
  What the SQLite backend guarantees over every database with the laws of \<open>sqlite_db\<close>, and that
  the two backends of plain records answer alike.
\<close>

lemma mem_sqlite_db: "sqlite_db mem_sqlite mem_tables"
  by (rule memq.sqlite_db_axioms)

lemma mem_sqlite_live: "sqlite_live mem_sqlite mem_tables"
  by (rule memq.sqlite_live_axioms)

abbreviation empty_sql :: sql_mem where
  "empty_sql \<equiv> \<lparr>sm_credentials = [], sm_header = None, sm_envelopes = []\<rparr>"

lemma empty_sql_abs [simp]:
  "sql_recs mem_tables (Some empty_sql) = Map.empty" "sql_envs mem_tables (Some empty_sql) = Map.empty"
  "sql_hdr mem_tables (Some empty_sql) = None" "sql_good mem_tables (Some empty_sql)"
  by (simp_all add: sql_recs_def sql_envs_def sql_hdr_def sql_good_def mem_tables_def fun_eq_iff)

text \<open>C6: SQLite keeps the contract of \<open>EnvelopeBackend\<close> that the encrypted store is verified
  against: the header is the single row, refused when its body and its revision column disagree;
  the compare-and-swap is the one conditional update; envelopes are kept exactly as they are.\<close>

theorem sqlite_is_envelope_backend:
  assumes "sqlite_db Q tab"
  shows "envelope_backend (sqlite_envelope_ops Q) (sql_hdr tab) (sql_envs tab)
    kept_header_json (\<lambda>b. b) (sql_good tab)"
  by (rule sqlite_db.backend [OF assms])

theorem sqlite_is_envelope_backend_witness:
  "envelope_backend (sqlite_envelope_ops mem_sqlite) (sql_hdr mem_tables) (sql_envs mem_tables)
     kept_header_json (\<lambda>b. b) (sql_good mem_tables)"
  by (rule sqlite_is_envelope_backend [OF mem_sqlite_db])

text \<open>The records table refines the alias map for every sequence of calls, with whatever
  contexts and whatever errors the driver reports: every record is kept in its normal form, to
  the byte.\<close>

theorem sqlite_store_refines_map:
  assumes "sqlite_db Q tab" "s \<noteq> None" "do_calls (sqlite_ops Q) cs s = (as, s')"
  shows "s' \<noteq> None \<and> spec_run norm_record (sql_recs tab s) cs as (sql_recs tab s')"
  using store_contract.calls_refine [OF sqlite_db.plain_contract [OF assms(1)] _ assms(3)] assms(2)
  by (simp add: sql_ok_def del: not_None_eq)

theorem sqlite_store_refines_map_witness:
  "\<exists>as s'. do_calls (sqlite_ops mem_sqlite) [CPut background sample_record, CList background]
       (Some empty_sql) = (as, s') \<and>
     spec_run norm_record Map.empty [CPut background sample_record, CList background] as
       (sql_recs mem_tables s')"
proof -
  obtain as s' where r: "do_calls (sqlite_ops mem_sqlite)
      [CPut background sample_record, CList background] (Some empty_sql) = (as, s')"
    by (rule prod.exhaust)
  from sqlite_store_refines_map [OF mem_sqlite_db _ r] r show ?thesis by auto
qed

text \<open>C7: A client cannot tell the two backends of plain records apart: while the databases are up
  and no context is cancelled, a Pebble and an SQLite store with the same records answer every
  sequence of calls alike, with the same records, the same errors and the aliases in the same
  order, and end with the same records, as long as RP IDs are UTF-8.\<close>

theorem backends_agree:
  assumes "pebble_live P kv" "sqlite_live Q tab" "plain_ok kv s" "t \<noteq> None"
    and "plain_recs kv s = sql_recs tab t" "list_all plain_call cs"
    and "do_calls (pebble_ops P) cs s = (as, s')" "do_calls (sqlite_ops Q) cs t = (bs, t')"
  shows "as = bs \<and> plain_recs kv s' = sql_recs tab t'"
proof -
  have "map_calls cs (plain_recs kv s) = (as, plain_recs kv s')"
    using computes_map.calls [OF pebble_live.pebble_computes [OF assms(1)] assms(3,6,7)] by blast
  moreover have "valid_map (sql_recs tab t)"
    unfolding assms(5) [symmetric] by (rule plain_ok_valid [OF assms(3)])
  then have "map_calls cs (sql_recs tab t) = (bs, sql_recs tab t')"
    using computes_map.calls [OF sqlite_live.sqlite_computes [OF assms(2)] _ assms(6,8)] assms(4) by blast
  ultimately show ?thesis using assms(5) by simp
qed

theorem backends_agree_witness:
  "\<exists>as s' t'. do_calls (pebble_ops mem_pebble) [CPut background sample_record, CGet background ''mail'',
       CPut background sample_record, CList background] (Some []) = (as, s') \<and>
     do_calls (sqlite_ops mem_sqlite) [CPut background sample_record, CGet background ''mail'',
       CPut background sample_record, CList background] (Some empty_sql) = (as, t')"
proof -
  let ?cs = "[CPut background sample_record, CGet background ''mail'', CPut background sample_record,
    CList background]"
  obtain as s' where a: "do_calls (pebble_ops mem_pebble) ?cs (Some []) = (as, s')" by (rule prod.exhaust)
  obtain bs t' where b: "do_calls (sqlite_ops mem_sqlite) ?cs (Some empty_sql) = (bs, t')"
    by (rule prod.exhaust)
  have u: "valid_utf8 ''example.org''" by code_simp
  have "list_all plain_call ?cs" by (simp add: sample_record_def u)
  from backends_agree [OF mem.pebble_live_axioms mem_sqlite_live _ _ _ this a b] a b show ?thesis
    by (auto simp: plain_ok_def plain_recs_def fun_eq_iff)
qed

end
