(* ===== verification/Hmac_Types.thy ===== *)
theory Hmac_Types
  imports Go_Json_Doc
begin

text \<open>
  The data of package \<open>lib/hmacsecret\<close> (\<open>types.go\<close>) and its helpers on salts, random bytes and
  client data (\<open>salt.go\<close>, \<open>clientdata.go\<close>). A \<open>*memguard.Enclave\<close> is an \<open>'e option\<close>.
\<close>

section \<open>Types\<close>

definition HmacSaltSize :: nat where
  "HmacSaltSize = 32"

record device_info =
  di_Index :: int
  di_Path :: string
  di_Product :: string
  di_Manufacturer :: string
  di_ProductID :: "16 word"
  di_VendorID :: "16 word"
  di_WindowsHello :: bool

record list_options =
  lo_ExcludeWindowsWebAuthn :: bool

record create_options =
  co_RPID :: string
  co_RPName :: string
  co_UserName :: string
  co_UserDisplayName :: string
  co_UserID :: bytes
  co_PIN :: string
  co_ClientDataJSON :: bytes

record derive_options =
  do_RPID :: string
  do_CredentialID :: bytes
  do_Salt :: bytes
  do_PIN :: string
  do_UserPresence :: bool
  do_UserPresenceSet :: bool
  do_ClientDataJSON :: bytes

record credential =
  cr_ID :: bytes
  cr_RPID :: string
  cr_PubKey :: bytes

record 'e secret =
  se_CredentialID :: bytes
  se_Salt :: bytes
  se_HMACSecret :: "'e option"

section \<open>Salts and random bytes\<close>

definition ParseSalt :: "rng \<Rightarrow> nat \<Rightarrow> string \<Rightarrow> go_error + bytes \<times> bool" where
  "ParseSalt g k v =
     (if v = []
      then (case rand_Read g k HmacSaltSize of
              Inl e \<Rightarrow> Inl (errorf ''generate salt: %w'' e)
            | Inr result \<Rightarrow> Inr (result, True))
      else (case hex_DecodeString v of
              None \<Rightarrow> Inl (errorf ''salt must be valid hex: %w'' (Foreign ''encoding/hex''))
            | Some result \<Rightarrow>
                if length result \<noteq> HmacSaltSize
                then Inl (Errorf ''salt must be exactly %d bytes (%d hex chars)'')
                else Inr (result, False)))"

definition validateSalt :: "bytes \<Rightarrow> go_error option" where
  "validateSalt salt =
     (if length salt \<noteq> HmacSaltSize then Some (Errorf ''salt must be exactly %d bytes'') else None)"

definition randomBytes :: "rng \<Rightarrow> nat \<Rightarrow> nat \<Rightarrow> go_error + bytes" where
  "randomBytes g k n = rand_Read g k n"

lemma validateSalt_None [simp]: "validateSalt s = None \<longleftrightarrow> length s = HmacSaltSize"
  by (simp add: validateSalt_def)

lemma validateSalt_Some: "validateSalt s = Some e \<Longrightarrow> \<not> is_panic e"
  by (auto simp: validateSalt_def split: if_splits)

section \<open>Client data\<close>

definition MakeClientDataJSON :: "string \<Rightarrow> bytes \<Rightarrow> string \<Rightarrow> go_error + bytes" where
  "MakeClientDataJSON operation challenge rpID =
     (if operation = [] then Inl (Errorf ''client data operation is required'')
      else if length challenge = 0 then Inl (Errorf ''client data challenge is required'')
      else if rpID = [] then Inl (Errorf ''client data rpID is required'')
      else Inr (bytes_of (json_render (JObj
        [(''type'', JStr operation),
         (''challenge'', JStr (b64_RawURLEncode challenge)),
         (''origin'', JStr (''https://'' @ rpID)),
         (''crossOrigin'', JBool False)]))))"

end
