(* ===== verification/Webauthn.thy ===== *)
theory Webauthn
  imports Hmac_Types Sealing
begin

text \<open>
  The Windows WebAuthn binding of \<open>internal/webauthn\<close>: loading the API, the two calls with their
  checks on the request and on the result, results copied out of memory that belongs to the
  system, and the errors.

  The system is a parameter. What the code passes to a procedure is the record of the values it
  passes, a pointer to memory of its own being the value pointed to (\<open>None\<close> for nil) and a
  UTF-16 string the text it encodes. A result lives in memory of the system, part of the outside
  \<open>'w\<close>: an address is a 64-bit word, 0 for nil, and \<open>os_memory\<close> reads what lies there. Freeing a
  result is a step of the outside.
\<close>

section \<open>Constants\<close>

definition APIVersionPRF :: "32 word" where "APIVersionPRF = 6"
definition HMACSecretLength :: nat where "HMACSecretLength = 32"
definition maxResultBytes :: "32 word" where "maxResultBytes = 0x100000"
definition AuthenticatorAttachmentCrossPlatform :: "32 word" where "AuthenticatorAttachmentCrossPlatform = 2"
definition UserVerificationAny :: "32 word" where "UserVerificationAny = 0"
definition AttestationConveyanceDirect :: "32 word" where "AttestationConveyanceDirect = 3"
definition COSEAlgorithmES256 :: "32 word" where "COSEAlgorithmES256 = - 7"
definition AuthenticatorHMACSecretValuesFlag :: "32 word" where
  "AuthenticatorHMACSecretValuesFlag = 0x00100000"

text \<open>Durations are nanoseconds; \<open>defaultTimeout\<close> is ten minutes.\<close>

definition Millisecond :: int where "Millisecond = 1000000"
definition defaultTimeout :: int where "defaultTimeout = 10 * 60 * 1000 * Millisecond"

section \<open>HRESULT and errors\<close>

type_synonym hresult = "32 word"

definition Failed :: "hresult \<Rightarrow> bool" where
  "Failed h = (sint h < 0)"

definition NTEInvalidParameter :: hresult where "NTEInvalidParameter = 0x80090027"
definition NTENotSupported :: hresult where "NTENotSupported = 0x80090029"
definition NTEDeviceNotFound :: hresult where "NTEDeviceNotFound = 0x80090035"
definition NTEUserCancelled :: hresult where "NTEUserCancelled = 0x80090036"
definition NTENotFound :: hresult where "NTENotFound = 0x80090011"
definition HRESULTCancelled :: hresult where "HRESULTCancelled = 0x800704c7"

lemmas hresult_defs = NTEInvalidParameter_def NTENotSupported_def NTEDeviceNotFound_def
  NTEUserCancelled_def NTENotFound_def HRESULTCancelled_def

text \<open>\<open>CallError.Unwrap\<close>: the sentinel that the result stands for.\<close>

definition Unwrap :: "hresult \<Rightarrow> sentinel option" where
  "Unwrap r =
     (if r = NTENotSupported then Some WebErrUnsupported
      else if r = NTEInvalidParameter then Some WebErrInvalidInput
      else if r = NTEDeviceNotFound \<or> r = NTENotFound then Some WebErrNotFound
      else if r = NTEUserCancelled \<or> r = HRESULTCancelled then Some WebErrUserCanceled
      else None)"

text \<open>A \<open>CallError\<close> wraps the sentinel, if there is one. Its text is the name of the result (that of
  the standard for the results the code knows, else its number) and the number.\<close>

definition hex8 :: "hresult \<Rightarrow> string" where
  "hex8 h = hex_EncodeToString (map (\<lambda>i. ucast (drop_bit (8 * i) h)) [3, 2, 1, 0])"

definition HRESULT_Error :: "hresult \<Rightarrow> string" where
  "HRESULT_Error h = ''HRESULT 0x'' @ hex8 h"

definition ErrorName :: "hresult \<Rightarrow> string" where
  "ErrorName r =
     (if r = 0 then ''Success''
      else if r = NTEInvalidParameter then ''NotSupportedError''
      else if r = NTENotSupported then ''ConstraintError''
      else if r = NTEDeviceNotFound \<or> r = NTENotFound \<or> r = NTEUserCancelled \<or> r = HRESULTCancelled
      then ''NotAllowedError''
      else HRESULT_Error r)"

record call_error =
  ce_Operation :: string
  ce_Result :: hresult
  ce_Name :: string

definition CallError_Error :: "call_error \<Rightarrow> string" where
  "CallError_Error e =
     (let name = (if ce_Name e = [] then HRESULT_Error (ce_Result e) else ce_Name e)
      in ce_Operation e @ '': '' @ name @ '' (0x'' @ hex8 (ce_Result e) @ '')'')"

definition call_go_error :: "call_error \<Rightarrow> go_error" where
  "call_go_error e =
     (case Unwrap (ce_Result e) of Some s \<Rightarrow> Wrap (CallError_Error e) (Sentinel s)
      | None \<Rightarrow> Errorf (CallError_Error e))"

definition callError :: "string \<Rightarrow> hresult \<Rightarrow> go_error" where
  "callError op r =
     call_go_error \<lparr>ce_Operation = op, ce_Result = r, ce_Name = ErrorName r\<rparr>"

lemma errors_is_callError: "errors_is (callError op r) s \<longleftrightarrow> Unwrap r = Some s"
  by (auto simp: callError_def call_go_error_def split: option.splits)

lemma is_panic_callError [simp]: "\<not> is_panic (callError op r)"
  by (simp add: callError_def call_go_error_def split: option.splits)

section \<open>Arguments\<close>

text \<open>\<open>windows.UTF16PtrFromString\<close> refuses a string with a NUL.\<close>

definition utf16Pointer :: "string \<Rightarrow> go_error + string" where
  "utf16Pointer value =
     (if CHR 0x00 \<in> set value then Inl (errorf ''encode UTF-16 string: %w'' (Foreign ''invalid argument''))
      else Inr (sanitize value))"

definition bytePointer :: "bytes \<Rightarrow> bytes option" where
  "bytePointer value = (if length value = 0 then None else Some value)"

record rp_entity =
  rpe_Version :: "32 word"
  rpe_ID :: string
  rpe_Name :: string

record user_entity =
  ue_Version :: "32 word"
  ue_IDLength :: "32 word"
  ue_ID :: "bytes option"
  ue_Name :: string
  ue_DisplayName :: string

record client_data_arg =
  cd_Version :: "32 word"
  cd_JSONLength :: "32 word"
  cd_JSON :: "bytes option"
  cd_HashAlgorithm :: string

record cose_parameter =
  cp_Version :: "32 word"
  cp_CredentialType :: string
  cp_Algorithm :: "32 word"

record extension_arg =
  xa_Identifier :: string
  xa_ValueSize :: "32 word"
  xa_Value :: "32 word"

record credential_arg =
  ca_Version :: "32 word"
  ca_IDLength :: "32 word"
  ca_ID :: "bytes option"
  ca_CredentialType :: string

record salt_arg =
  sa_FirstLength :: "32 word"
  sa_First :: "bytes option"

text \<open>The options with the fields that the code sets; the others are zero.\<close>

record make_options =
  mo_Version :: "32 word"
  mo_TimeoutMilliseconds :: "32 word"
  mo_Extensions :: "extension_arg list"
  mo_AuthenticatorAttachment :: "32 word"
  mo_RequireResidentKey :: "32 word"
  mo_UserVerificationRequirement :: "32 word"
  mo_AttestationConveyancePreference :: "32 word"
  mo_EnablePRF :: "32 word"

record assert_options =
  ao_Version :: "32 word"
  ao_TimeoutMilliseconds :: "32 word"
  ao_CredentialList :: "credential_arg list"
  ao_AuthenticatorAttachment :: "32 word"
  ao_UserVerificationRequirement :: "32 word"
  ao_Flags :: "32 word"
  ao_GlobalSalt :: "salt_arg option"

record make_args =
  ma_RP :: rp_entity
  ma_User :: user_entity
  ma_Parameters :: "cose_parameter list"
  ma_ClientData :: client_data_arg
  ma_Options :: make_options

record assert_args =
  aa_RPID :: string
  aa_ClientData :: client_data_arg
  aa_Options :: assert_options

section \<open>Results\<close>

type_synonym addr = "64 word"

record wa_extension =
  we_Identifier :: addr
  we_ValueSize :: "32 word"
  we_Value :: addr

record wa_attestation =
  wt_Version :: "32 word"
  wt_AuthenticatorDataLength :: "32 word"
  wt_AuthenticatorData :: addr
  wt_CredentialIDLength :: "32 word"
  wt_CredentialID :: addr
  wt_ExtensionCount :: "32 word"
  wt_Extensions :: addr
  wt_PRFEnabled :: "32 word"

record wa_assertion =
  ws_Version :: "32 word"
  ws_AuthenticatorDataLength :: "32 word"
  ws_AuthenticatorData :: addr
  ws_CredentialIDLength :: "32 word"
  ws_CredentialID :: addr
  ws_HMACSecret :: addr

text \<open>Reading memory: bytes, a UTF-16 string, the extension at an index of an array, the length and
  the address of the first salt of a \<open>HMACSecretSalt\<close>.\<close>

record 'w os_memory =
  om_byte :: "'w \<Rightarrow> addr \<Rightarrow> byte"
  om_wide :: "'w \<Rightarrow> addr \<Rightarrow> string"
  om_extension :: "'w \<Rightarrow> addr \<Rightarrow> nat \<Rightarrow> wa_extension"
  om_salt :: "'w \<Rightarrow> addr \<Rightarrow> 32 word \<times> addr"

definition read_bytes :: "'w os_memory \<Rightarrow> 'w \<Rightarrow> addr \<Rightarrow> nat \<Rightarrow> bytes" where
  "read_bytes m w p n = map (\<lambda>i. om_byte m w (p + of_nat i)) [0..<n]"

definition read_int32 :: "'w os_memory \<Rightarrow> 'w \<Rightarrow> addr \<Rightarrow> 32 word" where
  "read_int32 m w p = of_nat (horner_sum unat 256 (read_bytes m w p 4))"

definition copyResultBytes ::
  "'w os_memory \<Rightarrow> 'w \<Rightarrow> addr \<Rightarrow> 32 word \<Rightarrow> string \<Rightarrow> go_error + bytes" where
  "copyResultBytes m w p sz field =
     (if sz = 0 then Inr []
      else if p = 0 then Inl (Errorf (field @ '': non-zero size with nil pointer''))
      else if maxResultBytes < sz then Inl (Errorf (field @ '': result is too large: %d bytes''))
      else Inr (read_bytes m w p (unat sz)))"

text \<open>\<open>LockedBuffer.Copy\<close> copies what fits the buffer.\<close>

definition sealResultBytes ::
  "'e memguard \<Rightarrow> 'w os_memory \<Rightarrow> 'w \<Rightarrow> addr \<Rightarrow> 32 word \<Rightarrow> string \<Rightarrow> go_error + 'e option" where
  "sealResultBytes M m w p sz field =
     (if sz = 0 then Inr None
      else if p = 0 then Inl (Errorf (field @ '': non-zero size with nil pointer''))
      else if maxResultBytes < sz then Inl (Errorf (field @ '': result is too large: %d bytes''))
      else
     (let n = mg_NewBuffer M (unat sz);
          plaintext = take n (read_bytes m w p (unat sz) @ replicate n 0)
      in Inr (mg_Seal M plaintext)))"

section \<open>The API\<close>

text \<open>\<open>API\<close>, with the procedures that are checked for nil as options. A call returns the result,
  a \<open>uintptr\<close>, and the address and contents of what it allocated. The handle of the foreground
  window that the calls also pass is left to the system.\<close>

record 'w wa_api =
  ap_getAPIVersion :: "('w \<Rightarrow> 64 word) option"
  ap_makeCredential :: "(make_args \<Rightarrow> 'w \<Rightarrow> (64 word \<times> (addr \<times> wa_attestation) option) \<times> 'w) option"
  ap_getAssertion :: "(assert_args \<Rightarrow> 'w \<Rightarrow> (64 word \<times> (addr \<times> wa_assertion) option) \<times> 'w) option"
  ap_freeCredentialAttestation :: "addr \<Rightarrow> 'w \<Rightarrow> 'w"
  ap_freeAssertion :: "addr \<Rightarrow> 'w \<Rightarrow> 'w"

definition api_Version :: "'w wa_api option \<Rightarrow> 'w \<Rightarrow> 32 word" where
  "api_Version a w =
     (case Option.bind a ap_getAPIVersion of None \<Rightarrow> 0 | Some f \<Rightarrow> ucast (f w))"

text \<open>Loading: the library and its procedures, found in the order \<open>names\<close> in which the map of
  them is visited.\<close>

record 'w wa_loader =
  ld_Load :: "go_error option"
  ld_Find :: "string \<Rightarrow> go_error option"
  ld_API :: "'w wa_api"

definition proc_names :: "string list" where
  "proc_names = [''WebAuthNGetApiVersionNumber'', ''WebAuthNAuthenticatorMakeCredential'',
     ''WebAuthNAuthenticatorGetAssertion'', ''WebAuthNFreeCredentialAttestation'',
     ''WebAuthNFreeAssertion'']"

fun find_procs :: "(string \<Rightarrow> go_error option) \<Rightarrow> string list \<Rightarrow> go_error option" where
  "find_procs f [] = None"
| "find_procs f (n # ns) =
     (case f n of Some e \<Rightarrow> Some (errorf_v ''%w: %s: %v'' WebErrUnavailable e) | None \<Rightarrow> find_procs f ns)"

definition webauthn_Load :: "'w wa_loader \<Rightarrow> string list \<Rightarrow> 'w \<Rightarrow> go_error + 'w wa_api" where
  "webauthn_Load L names w =
     (case ld_Load L of Some e \<Rightarrow> Inl (errorf_v ''%w: %v'' WebErrUnavailable e)
      | None \<Rightarrow>
     (case find_procs (ld_Find L) names of Some e \<Rightarrow> Inl e
      | None \<Rightarrow>
          if api_Version (Some (ld_API L)) w < 1
          then Inl (errorf ''%w: invalid API version %d'' (Sentinel WebErrUnavailable))
          else Inr (ld_API L)))"

section \<open>Making a credential\<close>

record make_request =
  mr_RPID :: string
  mr_RPName :: string
  mr_UserID :: bytes
  mr_UserName :: string
  mr_UserDisplayName :: string
  mr_ClientDataJSON :: bytes
  mr_Timeout :: int

record make_result =
  mt_CredentialID :: bytes
  mt_AuthenticatorData :: bytes
  mt_PRFEnabled :: bool

text \<open>The timeout of a request in milliseconds, and whether it fits 32 bits.\<close>

definition request_timeout :: "int \<Rightarrow> go_error + 32 word" where
  "request_timeout given =
     (let timeout = (if given \<le> 0 then defaultTimeout else given) in
      if timeout > (2 ^ 32 - 1) * Millisecond
      then Inl (errorf ''%w: timeout is too large'' (Sentinel WebErrInvalidInput))
      else Inr (of_int (timeout div Millisecond)))"

text \<open>The loop of \<open>hmacSecretExtensionEnabled\<close> over the extensions from index \<open>i\<close> on, \<open>k\<close> left.\<close>

fun extension_loop :: "'w os_memory \<Rightarrow> 'w \<Rightarrow> addr \<Rightarrow> nat \<Rightarrow> nat \<Rightarrow> bool" where
  "extension_loop m w p i 0 = False"
| "extension_loop m w p i (Suc k) =
     (let extension = om_extension m w p i in
      if we_Identifier extension = 0 \<or> om_wide m w (we_Identifier extension) \<noteq> ''hmac-secret''
      then extension_loop m w p (Suc i) k
      else if we_ValueSize extension < 4 \<or> we_Value extension = 0 then False
      else read_int32 m w (we_Value extension) \<noteq> 0)"

definition hmacSecretExtensionEnabled :: "'w os_memory \<Rightarrow> 'w \<Rightarrow> 32 word \<Rightarrow> addr \<Rightarrow> bool" where
  "hmacSecretExtensionEnabled m w count p =
     (if count = 0 \<or> p = 0 \<or> 64 < count then False else extension_loop m w p 0 (unat count))"

text \<open>What is checked and read of an attestation before it is freed.\<close>

definition read_attestation :: "'w os_memory \<Rightarrow> 'w \<Rightarrow> wa_attestation \<Rightarrow> go_error + make_result" where
  "read_attestation m w att =
     (case copyResultBytes m w (wt_CredentialID att) (wt_CredentialIDLength att) ''credential ID'' of
        Inl e \<Rightarrow> Inl e
      | Inr credentialID \<Rightarrow>
     (if length credentialID = 0
      then Inl (Errorf ''WebAuthNAuthenticatorMakeCredential: empty credential ID'')
      else
     (case copyResultBytes m w (wt_AuthenticatorData att) (wt_AuthenticatorDataLength att)
          ''authenticator data'' of
        Inl e \<Rightarrow> Inl e
      | Inr authenticatorData \<Rightarrow>
     (let prfEnabled = (5 \<le> wt_Version att \<and> wt_PRFEnabled att \<noteq> 0);
          prfEnabled = (if \<not> prfEnabled
            then hmacSecretExtensionEnabled m w (wt_ExtensionCount att) (wt_Extensions att)
            else prfEnabled)
      in if \<not> prfEnabled then Inl (Sentinel WebErrPRFDisabled)
         else Inr \<lparr>mt_CredentialID = credentialID, mt_AuthenticatorData = authenticatorData,
                mt_PRFEnabled = True\<rparr>))))"

definition api_MakeCredential ::
  "'w os_memory \<Rightarrow> 'w wa_api option \<Rightarrow> make_request \<Rightarrow> 'w \<Rightarrow> (go_error + make_result) \<times> 'w" where
  "api_MakeCredential m a request w =
     (case a of None \<Rightarrow> (Inl (Sentinel WebErrUnavailable), w)
      | Some api \<Rightarrow>
     (case ap_makeCredential api of None \<Rightarrow> (Inl (Sentinel WebErrUnavailable), w)
      | Some call \<Rightarrow>
     (if api_Version a w < APIVersionPRF
      then (Inl (errorf ''%w: API version %d, PRF requires >= %d'' (Sentinel WebErrUnsupported)), w)
      else if mr_RPID request = []
      then (Inl (errorf ''%w: RP ID is required'' (Sentinel WebErrInvalidInput)), w)
      else if length (mr_UserID request) = 0 \<or> 64 < length (mr_UserID request)
      then (Inl (errorf ''%w: user ID must contain 1..64 bytes'' (Sentinel WebErrInvalidInput)), w)
      else if mr_UserName request = []
      then (Inl (errorf ''%w: user name is required'' (Sentinel WebErrInvalidInput)), w)
      else if length (mr_ClientDataJSON request) = 0
      then (Inl (errorf ''%w: client data JSON is required'' (Sentinel WebErrInvalidInput)), w)
      else
     (let rpName = (if mr_RPName request = [] then mr_RPID request else mr_RPName request);
          displayName = (if mr_UserDisplayName request = [] then mr_UserName request
            else mr_UserDisplayName request) in
      case request_timeout (mr_Timeout request) of Inl e \<Rightarrow> (Inl e, w)
      | Inr timeout \<Rightarrow>
     (case utf16Pointer (mr_RPID request) of Inl e \<Rightarrow> (Inl e, w)
      | Inr rpIDPtr \<Rightarrow>
     (case utf16Pointer rpName of Inl e \<Rightarrow> (Inl e, w)
      | Inr rpNamePtr \<Rightarrow>
     (case utf16Pointer (mr_UserName request) of Inl e \<Rightarrow> (Inl e, w)
      | Inr userNamePtr \<Rightarrow>
     (case utf16Pointer displayName of Inl e \<Rightarrow> (Inl e, w)
      | Inr displayNamePtr \<Rightarrow>
     (case call
        \<lparr>ma_RP = \<lparr>rpe_Version = 1, rpe_ID = rpIDPtr, rpe_Name = rpNamePtr\<rparr>,
         ma_User = \<lparr>ue_Version = 1, ue_IDLength = of_nat (length (mr_UserID request)),
           ue_ID = bytePointer (mr_UserID request), ue_Name = userNamePtr,
           ue_DisplayName = displayNamePtr\<rparr>,
         ma_Parameters = [\<lparr>cp_Version = 1, cp_CredentialType = ''public-key'',
           cp_Algorithm = COSEAlgorithmES256\<rparr>],
         ma_ClientData = \<lparr>cd_Version = 1,
           cd_JSONLength = of_nat (length (mr_ClientDataJSON request)),
           cd_JSON = bytePointer (mr_ClientDataJSON request), cd_HashAlgorithm = ''SHA-256''\<rparr>,
         ma_Options = \<lparr>mo_Version = 6, mo_TimeoutMilliseconds = timeout,
           mo_Extensions = [\<lparr>xa_Identifier = ''hmac-secret'', xa_ValueSize = 4, xa_Value = 1\<rparr>],
           mo_AuthenticatorAttachment = AuthenticatorAttachmentCrossPlatform,
           mo_RequireResidentKey = 0, mo_UserVerificationRequirement = UserVerificationAny,
           mo_AttestationConveyancePreference = AttestationConveyanceDirect, mo_EnablePRF = 1\<rparr>\<rparr> w of
        ((result, attestation), w) \<Rightarrow>
     (let hr = (ucast result :: hresult) in
      if Failed hr then (Inl (callError ''WebAuthNAuthenticatorMakeCredential'' hr), w)
      else
     (case attestation of
        None \<Rightarrow> (Inl (Errorf ''WebAuthNAuthenticatorMakeCredential: nil result''), w)
      | Some (p, att) \<Rightarrow> (read_attestation m w att, ap_freeCredentialAttestation api p w))))))))))))"

section \<open>Getting an assertion\<close>

record assert_request =
  ar_RPID :: string
  ar_CredentialID :: bytes
  ar_Salt :: bytes
  ar_ClientDataJSON :: bytes
  ar_Timeout :: int

record 'e assert_result =
  az_CredentialID :: bytes
  az_AuthenticatorData :: bytes
  az_HMACSecret :: "'e option"

text \<open>What is checked and read of an assertion before it is freed.\<close>

definition read_assertion ::
  "'e memguard \<Rightarrow> 'w os_memory \<Rightarrow> 'w \<Rightarrow> bytes \<Rightarrow> wa_assertion \<Rightarrow> go_error + 'e assert_result" where
  "read_assertion M m w requested as =
     (if ws_Version as < 3 \<or> ws_HMACSecret as = 0 then Inl (Sentinel WebErrPRFDisabled)
      else
     (case copyResultBytes m w (ws_CredentialID as) (ws_CredentialIDLength as) ''credential ID'' of
        Inl e \<Rightarrow> Inl e
      | Inr credentialID \<Rightarrow>
     (if length credentialID \<noteq> 0 \<and> credentialID \<noteq> requested
      then Inl (Errorf ''WebAuthNAuthenticatorGetAssertion: returned credential ID does not match request'')
      else
     (let credentialID = (if length credentialID = 0 then requested else credentialID) in
      case copyResultBytes m w (ws_AuthenticatorData as) (ws_AuthenticatorDataLength as)
          ''authenticator data'' of
        Inl e \<Rightarrow> Inl e
      | Inr authenticatorData \<Rightarrow>
     (case om_salt m w (ws_HMACSecret as) of (firstLength, first) \<Rightarrow>
      if firstLength \<noteq> of_nat HMACSecretLength
      then Inl (Errorf ''WebAuthNAuthenticatorGetAssertion: HMAC secret is %d bytes, want %d'')
      else
     (case sealResultBytes M m w first firstLength ''HMAC secret'' of
        Inl e \<Rightarrow> Inl e
      | Inr hs \<Rightarrow> Inr \<lparr>az_CredentialID = credentialID, az_AuthenticatorData = authenticatorData,
             az_HMACSecret = hs\<rparr>))))))"

definition api_GetAssertion ::
  "'e memguard \<Rightarrow> 'w os_memory \<Rightarrow> 'w wa_api option \<Rightarrow> assert_request \<Rightarrow> 'w
     \<Rightarrow> (go_error + 'e assert_result) \<times> 'w" where
  "api_GetAssertion M m a request w =
     (case a of None \<Rightarrow> (Inl (Sentinel WebErrUnavailable), w)
      | Some api \<Rightarrow>
     (case ap_getAssertion api of None \<Rightarrow> (Inl (Sentinel WebErrUnavailable), w)
      | Some call \<Rightarrow>
     (if api_Version a w < APIVersionPRF
      then (Inl (errorf ''%w: API version %d, PRF requires >= %d'' (Sentinel WebErrUnsupported)), w)
      else if ar_RPID request = []
      then (Inl (errorf ''%w: RP ID is required'' (Sentinel WebErrInvalidInput)), w)
      else if length (ar_CredentialID request) = 0
      then (Inl (errorf ''%w: credential ID is required'' (Sentinel WebErrInvalidInput)), w)
      else if length (ar_Salt request) \<noteq> HMACSecretLength
      then (Inl (errorf ''%w: salt must contain %d bytes'' (Sentinel WebErrInvalidInput)), w)
      else if length (ar_ClientDataJSON request) = 0
      then (Inl (errorf ''%w: client data JSON is required'' (Sentinel WebErrInvalidInput)), w)
      else
     (case request_timeout (ar_Timeout request) of Inl e \<Rightarrow> (Inl e, w)
      | Inr timeout \<Rightarrow>
     (case utf16Pointer (ar_RPID request) of Inl e \<Rightarrow> (Inl e, w)
      | Inr rpIDPtr \<Rightarrow>
     (case call
        \<lparr>aa_RPID = rpIDPtr,
         aa_ClientData = \<lparr>cd_Version = 1,
           cd_JSONLength = of_nat (length (ar_ClientDataJSON request)),
           cd_JSON = bytePointer (ar_ClientDataJSON request), cd_HashAlgorithm = ''SHA-256''\<rparr>,
         aa_Options = \<lparr>ao_Version = 6, ao_TimeoutMilliseconds = timeout,
           ao_CredentialList = [\<lparr>ca_Version = 1,
             ca_IDLength = of_nat (length (ar_CredentialID request)),
             ca_ID = bytePointer (ar_CredentialID request), ca_CredentialType = ''public-key''\<rparr>],
           ao_AuthenticatorAttachment = AuthenticatorAttachmentCrossPlatform,
           ao_UserVerificationRequirement = UserVerificationAny,
           ao_Flags = AuthenticatorHMACSecretValuesFlag,
           ao_GlobalSalt = Some \<lparr>sa_FirstLength = of_nat (length (ar_Salt request)),
             sa_First = bytePointer (ar_Salt request)\<rparr>\<rparr>\<rparr> w of
        ((result, assertion), w) \<Rightarrow>
     (let hr = (ucast result :: hresult) in
      if Failed hr then (Inl (callError ''WebAuthNAuthenticatorGetAssertion'' hr), w)
      else
     (case assertion of
        None \<Rightarrow> (Inl (Errorf ''WebAuthNAuthenticatorGetAssertion: nil result''), w)
      | Some (p, as) \<Rightarrow>
          (read_assertion M m w (ar_CredentialID request) as, ap_freeAssertion api p w)))))))))"

end
