(* ===== verification/Secrets_Service.thy ===== *)
theory Secrets_Service
  imports Hmac_Types Store
begin

text \<open>
  The alias API of \<open>pkg/secrets/secrets.go\<close> with the contracts of \<open>lib/secrets/provider.go\<close>.

  The service holds a \<open>Store\<close> (its state \<open>'s\<close>) and four collaborators given as functions:
  listing and opening authenticators, choosing one, and asking for a PIN. They and the
  authenticator act on the outside, a value \<open>'w\<close> that each call returns as it left it; so a
  call that does not reach the user or the authenticator returns it unchanged. A section under
  \<open>createMu\<close> is one step.
\<close>

section \<open>Collaborators\<close>

datatype operation = OpCreate | OpDerive

record ('a, 'w, 'e) authenticator =
  au_CreateCredential :: "'a \<Rightarrow> create_options \<Rightarrow> 'w \<Rightarrow> (go_error + credential option) \<times> 'w"
  au_Derive :: "'a \<Rightarrow> derive_options \<Rightarrow> 'w \<Rightarrow> (go_error + 'e secret option) \<times> 'w"

type_synonym 'w lister = "list_options \<Rightarrow> 'w \<Rightarrow> (go_error + device_info list) \<times> 'w"
type_synonym ('a, 'w) opener = "string \<Rightarrow> 'w \<Rightarrow> (go_error + 'a) \<times> 'w"
type_synonym 'w selector =
  "go_context \<Rightarrow> device_info list \<Rightarrow> 'w \<Rightarrow> (go_error + device_info) \<times> 'w"
type_synonym 'w pin_provider =
  "go_context \<Rightarrow> operation \<Rightarrow> device_info \<Rightarrow> 'w \<Rightarrow> (go_error + string) \<times> 'w"

record ('s, 'a, 'w) secrets_options =
  so_Store :: "'s store_ops option"
  so_Devices :: "'w lister option"
  so_Open :: "('a, 'w) opener option"
  so_Select :: "'w selector option"
  so_PIN :: "'w pin_provider option"
  so_ListOptions :: list_options
  so_RPID :: string
  so_RPName :: string
  so_UserName :: string

record ('s, 'a, 'w) secrets =
  sx_store :: "'s store_ops"
  sx_devices :: "'w lister"
  sx_open :: "('a, 'w) opener"
  sx_select :: "'w selector"
  sx_pin :: "'w pin_provider"
  sx_listOpts :: list_options
  sx_rpID :: string
  sx_rpName :: string
  sx_userName :: string

text \<open>\<open>listDevices\<close> and \<open>open\<close> are the defaults, \<open>hmacsecret.ListDevices\<close> and \<open>hmacsecret.Open\<close>.\<close>

definition secrets_New ::
  "'w lister \<Rightarrow> ('a, 'w) opener \<Rightarrow> ('s, 'a, 'w) secrets_options \<Rightarrow> go_error + ('s, 'a, 'w) secrets"
  where
  "secrets_New listDevices openDevice opts =
     (case so_Store opts of None \<Rightarrow> Inl (Errorf ''secrets: Store is required'')
      | Some st \<Rightarrow>
     (case so_Select opts of None \<Rightarrow> Inl (Errorf ''secrets: Select is required'')
      | Some sel \<Rightarrow>
     (case so_PIN opts of None \<Rightarrow> Inl (Errorf ''secrets: PIN is required'')
      | Some pin \<Rightarrow>
     (let devices = (case so_Devices opts of None \<Rightarrow> listDevices | Some f \<Rightarrow> f);
          opn = (case so_Open opts of None \<Rightarrow> openDevice | Some f \<Rightarrow> f);
          rpID = trim_space (so_RPID opts);
          rpID = (if rpID = [] then ''hmac-secret.example'' else rpID);
          rpName = trim_space (so_RPName opts);
          rpName = (if rpName = [] then ''hmacsecret'' else rpName);
          userName = trim_space (so_UserName opts);
          userName = (if userName = [] then ''hmac-secret'' else userName)
      in Inr \<lparr>sx_store = st, sx_devices = devices, sx_open = opn, sx_select = sel, sx_pin = pin,
           sx_listOpts = so_ListOptions opts, sx_rpID = rpID, sx_rpName = rpName,
           sx_userName = userName\<rparr>))))"

section \<open>Operations\<close>

definition openSelected ::
  "('s, 'a, 'w) secrets \<Rightarrow> go_context \<Rightarrow> operation \<Rightarrow> 'w \<Rightarrow> (go_error + 'a \<times> string) \<times> 'w" where
  "openSelected x ctx op w =
     (case ctx_Err ctx of Some e \<Rightarrow> (Inl e, w)
      | None \<Rightarrow>
     (case sx_devices x (sx_listOpts x) w of
        (Inl e, w) \<Rightarrow> (Inl (errorf_v ''%w: %v'' SecretsErrNoDevice e), w)
      | (Inr devices, w) \<Rightarrow>
     (if length devices = 0 then (Inl (Sentinel SecretsErrNoDevice), w)
      else
     (case sx_select x (later ctx) devices w of
        (Inl e, w) \<Rightarrow> (Inl (errorf_v ''%w: %v'' SecretsErrNoDevice e), w)
      | (Inr info, w) \<Rightarrow>
     (if trim_space (di_Path info) = []
      then (Inl (errorf ''%w: empty device path'' (Sentinel SecretsErrNoDevice)), w)
      else
     (case sx_pin x (later (later ctx)) op info w of
        (Inl e, w) \<Rightarrow> (Inl (errorf ''secrets pin: %w'' e), w)
      | (Inr pin, w) \<Rightarrow>
     (case sx_open x (di_Path info) w of
        (Inl e, w) \<Rightarrow> (Inl (errorf_v ''%w: %v'' SecretsErrNoDevice e), w)
      | (Inr auth, w) \<Rightarrow> (Inr (auth, pin), w))))))))"

definition secrets_Create ::
  "('s, 'a, 'w) secrets \<Rightarrow> ('a, 'w, 'e) authenticator \<Rightarrow> rng \<Rightarrow> go_context \<Rightarrow> string \<Rightarrow> 's \<times> 'w
     \<Rightarrow> (go_error + 'e option) \<times> ('s \<times> 'w)" where
  "secrets_Create x U g ctx alias sw =
     (case sw of (s, w) \<Rightarrow>
     (let alias = trim_space alias in
      case ValidateAlias alias of Some _ \<Rightarrow> (Inl (Sentinel SecretsErrInvalidAlias), (s, w))
      | None \<Rightarrow>
     (case st_Has (sx_store x) ctx alias s of
        Inl e \<Rightarrow> (Inl (errorf ''secrets create has: %w'' e), (s, w))
      | Inr exists \<Rightarrow>
     (if exists then (Inl (Sentinel SecretsErrExists), (s, w))
      else
     (case rand_Read g 0 SaltSize of
        Inl e \<Rightarrow> (Inl (errorf ''secrets create salt: %w'' e), (s, w))
      | Inr salt \<Rightarrow>
     (case openSelected x (later ctx) OpCreate w of
        (Inl e, w) \<Rightarrow> (Inl e, (s, w))
      | (Inr (auth, pin), w) \<Rightarrow>
     (case au_CreateCredential U auth \<lparr>co_RPID = sx_rpID x, co_RPName = sx_rpName x,
          co_UserName = sx_userName x, co_UserDisplayName = [], co_UserID = [], co_PIN = pin,
          co_ClientDataJSON = []\<rparr> w of
        (Inl e, w) \<Rightarrow> (Inl (errorf ''secrets create fido: %w'' e), (s, w))
      | (Inr None, w) \<Rightarrow> (Inl nil_deref, (s, w))
      | (Inr (Some cred), w) \<Rightarrow>
     (let r = \<lparr>rec_Alias = alias, rec_CredentialID = [] @ cr_ID cred, rec_Salt = [] @ salt,
            rec_RPID = sx_rpID x\<rparr> in
      case st_Put (sx_store x) (later (later (later (later ctx)))) r s of
        (Some e, s) \<Rightarrow>
          (if errors_is e StoreErrExists then (Inl (Sentinel SecretsErrExists), (s, w))
           else (Inl (errorf ''secrets create store: %w'' e), (s, w)))
      | (None, s) \<Rightarrow>
     (case au_Derive U auth \<lparr>do_RPID = rec_RPID r, do_CredentialID = rec_CredentialID r,
          do_Salt = rec_Salt r, do_PIN = pin, do_UserPresence = False,
          do_UserPresenceSet = False, do_ClientDataJSON = []\<rparr> w of
        (Inl e, w) \<Rightarrow> (Inl (errorf ''secrets create derive: %w'' e), (s, w))
      | (Inr None, w) \<Rightarrow> (Inl nil_deref, (s, w))
      | (Inr (Some sec), w) \<Rightarrow> (Inr (se_HMACSecret sec), (s, w)))))))))))"

definition secrets_Derive ::
  "('s, 'a, 'w) secrets \<Rightarrow> ('a, 'w, 'e) authenticator \<Rightarrow> go_context \<Rightarrow> string \<Rightarrow> 's \<times> 'w
     \<Rightarrow> (go_error + 'e option) \<times> ('s \<times> 'w)" where
  "secrets_Derive x U ctx alias sw =
     (case sw of (s, w) \<Rightarrow>
     (let alias = trim_space alias in
      case ValidateAlias alias of Some _ \<Rightarrow> (Inl (Sentinel SecretsErrInvalidAlias), (s, w))
      | None \<Rightarrow>
     (case st_Get (sx_store x) ctx alias s of
        Inl e \<Rightarrow>
          (if errors_is e StoreErrNotFound then (Inl (Sentinel SecretsErrNotFound), (s, w))
           else (Inl (errorf ''secrets derive store: %w'' e), (s, w)))
      | Inr r \<Rightarrow>
     (case openSelected x (later ctx) OpDerive w of
        (Inl e, w) \<Rightarrow> (Inl e, (s, w))
      | (Inr (auth, pin), w) \<Rightarrow>
     (case au_Derive U auth \<lparr>do_RPID = rec_RPID r, do_CredentialID = rec_CredentialID r,
          do_Salt = rec_Salt r, do_PIN = pin, do_UserPresence = False,
          do_UserPresenceSet = False, do_ClientDataJSON = []\<rparr> w of
        (Inl e, w) \<Rightarrow> (Inl (errorf ''secrets derive fido: %w'' e), (s, w))
      | (Inr None, w) \<Rightarrow> (Inl nil_deref, (s, w))
      | (Inr (Some sec), w) \<Rightarrow> (Inr (se_HMACSecret sec), (s, w)))))))"

definition secrets_Delete ::
  "('s, 'a, 'w) secrets \<Rightarrow> go_context \<Rightarrow> string \<Rightarrow> 's \<Rightarrow> go_error option \<times> 's" where
  "secrets_Delete x ctx alias s =
     (let alias = trim_space alias in
      case ValidateAlias alias of Some _ \<Rightarrow> (Some (Sentinel SecretsErrInvalidAlias), s)
      | None \<Rightarrow>
     (case st_Delete (sx_store x) ctx alias s of
        (Some e, s) \<Rightarrow>
          (if errors_is e StoreErrNotFound then (Some (Sentinel SecretsErrNotFound), s)
           else (Some (errorf ''secrets delete: %w'' e), s))
      | (None, s) \<Rightarrow> (None, s)))"

definition secrets_Has :: "('s, 'a, 'w) secrets \<Rightarrow> go_context \<Rightarrow> string \<Rightarrow> 's \<Rightarrow> go_error + bool" where
  "secrets_Has x ctx alias s =
     (let alias = trim_space alias in
      case ValidateAlias alias of Some _ \<Rightarrow> Inl (Sentinel SecretsErrInvalidAlias)
      | None \<Rightarrow>
     (case st_Has (sx_store x) ctx alias s of
        Inl e \<Rightarrow> Inl (errorf ''secrets has: %w'' e)
      | Inr ok \<Rightarrow> Inr ok))"

definition secrets_List :: "('s, 'a, 'w) secrets \<Rightarrow> go_context \<Rightarrow> 's \<Rightarrow> go_error + string list" where
  "secrets_List x ctx s =
     (case st_List (sx_store x) ctx s of
        Inl e \<Rightarrow> Inl (errorf ''secrets list: %w'' e)
      | Inr aliases \<Rightarrow> Inr aliases)"

end
