(* ===== verification/Secrets_Api.thy ===== *)
theory Secrets_Api
  imports Secrets_Service
begin

text \<open>
  The course of the operations of the alias API, its contract over every store with the contract
  of \<open>lib/store.Store\<close> (locale \<open>alias_api\<close>), and the contract of an authenticator with
  the hmac-secret extension (locale \<open>prf_authenticator\<close>).
\<close>

section \<open>The course of an operation\<close>

definition create_request :: "('s, 'a, 'w) secrets \<Rightarrow> string \<Rightarrow> create_options" where
  "create_request x pin = \<lparr>co_RPID = sx_rpID x, co_RPName = sx_rpName x,
     co_UserName = sx_userName x, co_UserDisplayName = [], co_UserID = [], co_PIN = pin,
     co_ClientDataJSON = []\<rparr>"

definition derive_request :: "store_record \<Rightarrow> string \<Rightarrow> derive_options" where
  "derive_request r pin = \<lparr>do_RPID = rec_RPID r, do_CredentialID = rec_CredentialID r,
     do_Salt = rec_Salt r, do_PIN = pin, do_UserPresence = False, do_UserPresenceSet = False,
     do_ClientDataJSON = []\<rparr>"

definition new_record :: "('s, 'a, 'w) secrets \<Rightarrow> string \<Rightarrow> credential \<Rightarrow> bytes \<Rightarrow> store_record" where
  "new_record x a cred salt = \<lparr>rec_Alias = trim_space a, rec_CredentialID = cr_ID cred,
     rec_Salt = salt, rec_RPID = sx_rpID x\<rparr>"

text \<open>The result of a derivation as \<open>Create\<close> and \<open>Derive\<close> report it.\<close>

definition reported :: "string \<Rightarrow> (go_error + 'e secret option) \<Rightarrow> go_error + 'e option" where
  "reported m d =
     (case d of Inl e \<Rightarrow> Inl (errorf m e)
      | Inr None \<Rightarrow> Inl nil_deref
      | Inr (Some sec) \<Rightarrow> Inr (se_HMACSecret sec))"

definition create_put ::
  "('s, 'a, 'w) secrets \<Rightarrow> go_context \<Rightarrow> string \<Rightarrow> credential \<Rightarrow> bytes \<Rightarrow> 's \<Rightarrow> go_error option \<times> 's"
  where
  "create_put x c a cred salt s =
     st_Put (sx_store x) (later (later (later (later c)))) (new_record x a cred salt) s"

text \<open>A \<open>Create\<close> that reaches the store, and what it answers.\<close>

lemma create_runs:
  assumes "rand_Read g 0 SaltSize = Inr salt" "trim_space a \<noteq> []"
    "st_Has (sx_store x) c (trim_space a) s = Inr False"
    "openSelected x (later c) OpCreate w = (Inr (auth, pin), w1)"
    "au_CreateCredential U auth (create_request x pin) w1 = (Inr (Some cred), w2)"
    "create_put x c a cred salt s = (e, t)"
    "au_Derive U auth (derive_request (new_record x a cred salt) pin) w2 = (d, w3)"
  shows "secrets_Create x U g c a (s, w) =
    (case e of Some x \<Rightarrow> (Inl (if errors_is x StoreErrExists then Sentinel SecretsErrExists
       else errorf ''secrets create store: %w'' x), (t, w2))
     | None \<Rightarrow> (reported ''secrets create derive: %w'' d, (t, w3)))"
  using assms
  by (auto simp: secrets_Create_def create_request_def derive_request_def new_record_def
      create_put_def reported_def Let_def split: option.splits sum.splits)

lemma create_cases:
  assumes "secrets_Create x U g c a (s, w) = (res, (s', w'))"
  obtains (stop) "s' = s" "\<And>v. res \<noteq> Inr v"
  | (put) salt auth pin w1 cred w2 e where
      "rand_Read g 0 SaltSize = Inr salt" "trim_space a \<noteq> []"
      "st_Has (sx_store x) c (trim_space a) s = Inr False"
      "openSelected x (later c) OpCreate w = (Inr (auth, pin), w1)"
      "au_CreateCredential U auth (create_request x pin) w1 = (Inr (Some cred), w2)"
      "create_put x c a cred salt s = (e, s')"
      "e = None \<Longrightarrow> \<exists>d. au_Derive U auth (derive_request (new_record x a cred salt) pin) w2 = (d, w') \<and>
         res = reported ''secrets create derive: %w'' d"
      "\<And>x. e = Some x \<Longrightarrow> w' = w2 \<and> res = Inl (if errors_is x StoreErrExists
         then Sentinel SecretsErrExists else errorf ''secrets create store: %w'' x)"
proof (cases "s' = s \<and> (\<forall>v. res \<noteq> Inr v)")
  case True
  then show thesis by (intro stop) auto
next
  case False
  show thesis
  proof (cases "trim_space a = []")
    case True
    then show thesis using assms False by (auto simp: secrets_Create_def ValidateAlias_def)
  next
    case False
    note v = False
    show thesis
    proof (cases "st_Has (sx_store x) c (trim_space a) s = Inr False")
      case False
      with assms v \<open>\<not> (s' = s \<and> (\<forall>v. res \<noteq> Inr v))\<close> show thesis
        by (auto simp: secrets_Create_def Let_def split: sum.splits if_splits)
    next
      case True
      note h = True
      show thesis
      proof (cases "rand_Read g 0 SaltSize")
        case (Inl e)
        then show thesis using assms \<open>\<not> (s' = s \<and> (\<forall>v. res \<noteq> Inr v))\<close> v h
          by (auto simp: secrets_Create_def Let_def)
      next
        case (Inr salt)
        note r = Inr
        obtain o1 w1 where o1: "openSelected x (later c) OpCreate w = (o1, w1)" by fastforce
        show thesis
        proof (cases o1)
          case (Inl e)
          then show thesis using assms \<open>\<not> (s' = s \<and> (\<forall>v. res \<noteq> Inr v))\<close> v h r o1
            by (auto simp: secrets_Create_def Let_def)
        next
          case (Inr ap)
          obtain auth pin where ap: "ap = (auth, pin)" by fastforce
          obtain k w2 where k: "au_CreateCredential U auth (create_request x pin) w1 = (k, w2)" by fastforce
          show thesis
          proof (cases "\<exists>cred. k = Inr (Some cred)")
            case False
            with assms \<open>\<not> (s' = s \<and> (\<forall>v. res \<noteq> Inr v))\<close> v h r o1 Inr ap k show thesis
              by (auto simp: secrets_Create_def create_request_def Let_def split: sum.splits option.splits)
          next
            case True
            then obtain cred where cred: "k = Inr (Some cred)" by blast
            obtain e t where p: "create_put x c a cred salt s = (e, t)" by fastforce
            obtain d w3 where d: "au_Derive U auth (derive_request (new_record x a cred salt) pin) w2 = (d, w3)"
              by fastforce
            note eq = create_runs [OF r _ h o1 [unfolded Inr ap] k [unfolded cred] p d]
            show thesis
            proof (rule put [OF r _ h o1 [unfolded Inr ap] k [unfolded cred]])
              show "trim_space a \<noteq> []" using v by simp
              show "create_put x c a cred salt s = (e, s')"
                using eq v assms p by (auto split: option.splits)
              show "\<exists>d. au_Derive U auth (derive_request (new_record x a cred salt) pin) w2 = (d, w') \<and>
                  res = reported ''secrets create derive: %w'' d" if "e = None"
                using eq v assms d that by auto
              show "w' = w2 \<and> res = Inl (if errors_is y StoreErrExists then Sentinel SecretsErrExists
                  else errorf ''secrets create store: %w'' y)" if "e = Some y" for y
                using eq v assms that by auto
            qed
          qed
        qed
      qed
    qed
  qed
qed

lemma derive_cases:
  assumes "secrets_Derive x U c a (s, w) = (res, (s', w'))"
  shows "s' = s \<and> (\<forall>v. res = Inr v \<longrightarrow> (\<exists>r auth pin w1 d. trim_space a \<noteq> [] \<and>
    st_Get (sx_store x) c (trim_space a) s = Inr r \<and>
    openSelected x (later c) OpDerive w = (Inr (auth, pin), w1) \<and>
    au_Derive U auth (derive_request r pin) w1 = (d, w') \<and>
    res = reported ''secrets derive fido: %w'' d))"
  using assms
  by (auto simp: secrets_Derive_def derive_request_def reported_def Let_def
      split: option.splits sum.splits prod.splits if_splits)

text \<open>A derivation that finds its record and reaches an authenticator.\<close>

lemma derive_runs:
  assumes "trim_space a \<noteq> []" "st_Get (sx_store x) c (trim_space a) s = Inr r"
    "openSelected x (later c) OpDerive w = (Inr (auth, pin), w1)"
    "au_Derive U auth (derive_request r pin) w1 = (d, w2)"
  shows "secrets_Derive x U c a (s, w) = (reported ''secrets derive fido: %w'' d, (s, w2))"
  using assms
  by (auto simp: secrets_Derive_def derive_request_def reported_def Let_def
      split: option.splits sum.splits)

lemma derive_no_record:
  assumes "trim_space a \<noteq> []" "st_Get (sx_store x) c (trim_space a) s = Inl e"
  shows "secrets_Derive x U c a (s, w) =
    (Inl (if errors_is e StoreErrNotFound then Sentinel SecretsErrNotFound
          else errorf ''secrets derive store: %w'' e), (s, w))"
  using assms by (auto simp: secrets_Derive_def Let_def)

lemma reported_Inr: "reported m d = Inr v \<longleftrightarrow> (\<exists>sec. d = Inr (Some sec) \<and> v = se_HMACSecret sec)"
  by (auto simp: reported_def split: sum.splits option.splits)

lemma reported_Inl: "d = Inl e \<Longrightarrow> reported m d = Inl (errorf m e)"
  by (simp add: reported_def)

text \<open>The PIN comes from the provider; \<open>pin_given\<close> is a provider that never answers with none.\<close>

definition pin_given :: "('s, 'a, 'w) secrets \<Rightarrow> bool" where
  "pin_given x \<longleftrightarrow> (\<forall>c op i w w'. sx_pin x c op i w \<noteq> (Inr [], w'))"

lemma openSelected_pin:
  assumes "openSelected x c op w = (Inr (auth, pin), w1)" "pin_given x"
  shows "pin \<noteq> []"
  using assms
  by (auto simp: openSelected_def pin_given_def split: option.splits sum.splits prod.splits if_splits)

section \<open>The contracts\<close>

text \<open>What \<open>New\<close> makes sure of.\<close>

definition service_ok :: "('s, 'a, 'w) secrets \<Rightarrow> bool" where
  "service_ok x \<longleftrightarrow> trim_space (sx_rpID x) = sx_rpID x \<and> sx_rpID x \<noteq> []"

lemma trim_defaults [simp]:
  "trim_space ''hmac-secret.example'' = ''hmac-secret.example''"
  "trim_space ''hmacsecret'' = ''hmacsecret''"
  "trim_space ''hmac-secret'' = ''hmac-secret''"
  by code_simp+

lemma New_ok: "secrets_New ld op opts = Inr x \<Longrightarrow> service_ok x"
  by (auto simp: secrets_New_def service_ok_def Let_def split: option.splits if_splits)

locale alias_api = store_contract "sx_store x" recs stored ok
  for x :: "('s, 'a, 'w) secrets" and recs stored ok +
  assumes service: "service_ok x"
begin

lemma new_record_norm [simp]: "norm_record (new_record x a cred salt) = new_record x a cred salt"
  using service by (simp add: norm_record_def new_record_def service_ok_def)

lemma new_record_valid:
  "trim_space a \<noteq> [] \<Longrightarrow> length salt = SaltSize \<Longrightarrow>
     valid_record (new_record x a cred salt) \<longleftrightarrow> cr_ID cred \<noteq> []"
  using service by (auto simp: valid_record_def new_record_def service_ok_def)

lemma alias_new_record [simp]: "rec_Alias (new_record x a cred salt) = trim_space a"
  by (simp add: new_record_def)

lemma create_step:
  assumes "ok s" "secrets_Create x U g c a (s, w) = (res, (s', w'))"
  shows "ok s' \<and> (recs s' = recs s \<or> (\<exists>cred salt. recs s (trim_space a) = None \<and>
    trim_space a \<noteq> [] \<and> rand_Read g 0 SaltSize = Inr salt \<and> cr_ID cred \<noteq> [] \<and>
    recs s' = (recs s)(trim_space a \<mapsto> stored (new_record x a cred salt))))"
  using assms(2)
proof (cases rule: create_cases)
  case stop
  with assms(1) show ?thesis by simp
next
  case (put salt auth pin w1 cred w2 e)
  have l: "length salt = SaltSize" using put(1) by (rule rand_Read_length)
  show ?thesis
  proof (cases e)
    case None
    with put(6) put_ok [OF assms(1)] new_record_valid [OF put(2) l] put(1,2) show ?thesis
      by (fastforce simp: create_put_def)
  next
    case (Some y)
    with put(6) put_err [OF assms(1)] new_record_valid [OF put(2) l] put(1,2) show ?thesis
      by (fastforce simp: create_put_def)
  qed
qed

lemma create_keeps:
  assumes "ok s" "secrets_Create x U g c a (s, w) = (res, (s', w'))" "recs s b = Some r"
  shows "recs s' b = Some r"
  using create_step [OF assms(1,2)] assms(3) by (auto split: if_splits)

lemma create_existing:
  assumes "ok s" "recs s (trim_space a) \<noteq> None"
  shows "\<exists>e. secrets_Create x U g c a (s, w) = (Inl e, (s, w)) \<and>
    (\<forall>b. st_Has (sx_store x) c (trim_space a) s = Inr b \<longrightarrow> trim_space a \<noteq> [] \<longrightarrow>
      e = Sentinel SecretsErrExists)"
  using assms has_ok [OF assms(1), of c "trim_space a"]
  by (cases "st_Has (sx_store x) c (trim_space a) s")
    (auto simp: secrets_Create_def ValidateAlias_def Let_def)

lemma create_returns:
  assumes "ok s" "secrets_Create x U g c a (s, w) = (Inr v, (s', w'))"
  obtains salt auth pin w1 cred w2 sec where
    "rand_Read g 0 SaltSize = Inr salt" "trim_space a \<noteq> []" "recs s (trim_space a) = None"
    "openSelected x (later c) OpCreate w = (Inr (auth, pin), w1)"
    "au_CreateCredential U auth (create_request x pin) w1 = (Inr (Some cred), w2)"
    "ok s'" "recs s' = (recs s)(trim_space a \<mapsto> stored (new_record x a cred salt))"
    "au_Derive U auth (derive_request (new_record x a cred salt) pin) w2 = (Inr (Some sec), w')"
    "v = se_HMACSecret sec"
  using assms(2)
proof (cases rule: create_cases)
  case stop
  then show thesis by blast
next
  case (put salt auth pin w1 cred w2 e)
  show thesis
  proof (cases e)
    case None
    then obtain d where d: "au_Derive U auth (derive_request (new_record x a cred salt) pin) w2 = (d, w')"
        "Inr v = reported ''secrets create derive: %w'' d"
      using put(7) by blast
    have p: "ok s'" "recs s (trim_space a) = None"
        "recs s' = (recs s)(trim_space a \<mapsto> stored (new_record x a cred salt))"
      using put_ok [OF assms(1) put(6) [unfolded create_put_def None]] by simp_all
    obtain sec where "d = Inr (Some sec)" "v = se_HMACSecret sec"
      using d(2) reported_Inr [of "''secrets create derive: %w''" d v] by auto
    with d p put show thesis by (intro that [of salt auth pin w1 cred w2 sec]) auto
  next
    case (Some y)
    with put(8) show thesis by blast
  qed
qed

lemma create_returns_map:
  assumes "ok s" "secrets_Create x U g c a (s, w) = (Inr v, (s', w'))"
  shows "ok s' \<and> recs s' (trim_space a) \<noteq> None"
  by (rule create_returns [OF assms]) simp

lemma derive_absent:
  assumes "ok s" "recs s (trim_space a) = None"
  shows "\<exists>e. secrets_Derive x U c a (s, w) = (Inl e, (s, w))"
proof (cases "trim_space a = []")
  case True
  then show ?thesis by (simp add: secrets_Derive_def ValidateAlias_def)
next
  case False
  show ?thesis
  proof (cases "st_Get (sx_store x) c (trim_space a) s")
    case (Inl e)
    with derive_no_record [OF False Inl] show ?thesis by blast
  next
    case (Inr r)
    with get_ok [OF assms(1) Inr] assms(2) show ?thesis by simp
  qed
qed

end

text \<open>The hmac-secret extension: the secret is a function of the credential, the salt and of
  whether the user was verified by a PIN. \<open>content\<close> is what an enclave opens to.\<close>

locale prf_authenticator =
  fixes U :: "('a, 'w, 'e) authenticator"
    and content :: "'e \<Rightarrow> bytes"
    and hmac :: "bool \<Rightarrow> string \<Rightarrow> bytes \<Rightarrow> bytes \<Rightarrow> bytes"
  assumes derive_prf: "au_Derive U auth q w = (Inr (Some sec), w') \<Longrightarrow>
    map_option content (se_HMACSecret sec) =
      Some (hmac (do_PIN q \<noteq> []) (do_RPID q) (do_CredentialID q) (do_Salt q))"
begin

lemma same_secret:
  assumes "au_Derive U auth (derive_request r pin) w = (Inr (Some sec), w1)"
    "au_Derive U auth' (derive_request r pin') w' = (Inr (Some sec'), w2)"
    "pin = [] \<longleftrightarrow> pin' = []"
  shows "map_option content (se_HMACSecret sec) = map_option content (se_HMACSecret sec')"
  using derive_prf [OF assms(1)] derive_prf [OF assms(2)] assms(3)
  by (auto simp: derive_request_def)

end

end
