(* ===== verification/Device.thy ===== *)
theory Device
  imports Secrets_Api Sealing
begin

text \<open>
  Authenticators through libfido2: \<open>lib/hmacsecret/device.go\<close>, \<open>hmacsecret.go\<close> and the
  platform files \<open>platform_windows.go\<close> and \<open>platform_nonwindows.go\<close>.

  The binding to libfido2 is the parameter \<open>fido_api\<close>: its calls act on the outside \<open>'w\<close>, and a
  device that it opened is a \<open>'d\<close>. A \<open>*Device\<close> is a \<open>'d fido_device option\<close>. An operation
  draws its random bytes from the source \<open>g\<close>, from read 0 on.
\<close>

section \<open>The binding\<close>

record device_location =
  dl_Path :: string
  dl_ProductID :: "16 word"
  dl_VendorID :: "16 word"
  dl_Manufacturer :: string
  dl_Product :: string

record relying_party =
  rp_ID :: string
  rp_Name :: string

record fido_user =
  us_ID :: bytes
  us_Name :: string
  us_DisplayName :: string

datatype option_value = OptDefault | OptTrue | OptFalse

datatype extension = HMACSecretExtension | CredProtectExtension

datatype credential_type = ES256 | EDDSA | RS256

record make_credential_opts =
  mc_Extensions :: "extension list"
  mc_RK :: option_value
  mc_ClientDataJSON :: bytes

record assertion_opts =
  as_Extensions :: "extension list"
  as_UP :: option_value
  as_HMACSalt :: bytes
  as_ClientDataJSON :: bytes

record attestation =
  at_CredentialID :: bytes
  at_PubKey :: bytes

record ('d, 'w, 'e) fido_api =
  fd_DeviceLocations :: "'w \<Rightarrow> (go_error + device_location list) \<times> 'w"
  fd_NewDevice :: "string \<Rightarrow> 'w \<Rightarrow> (go_error + 'd) \<times> 'w"
  fd_IsFIDO2 :: "'d \<Rightarrow> 'w \<Rightarrow> (go_error + bool) \<times> 'w"
  fd_MakeCredential :: "'d \<Rightarrow> bytes \<Rightarrow> relying_party \<Rightarrow> fido_user \<Rightarrow> credential_type \<Rightarrow> string \<Rightarrow>
    make_credential_opts \<Rightarrow> 'w \<Rightarrow> (go_error + attestation) \<times> 'w"
  fd_Assertion :: "'d \<Rightarrow> string \<Rightarrow> bytes \<Rightarrow> bytes list \<Rightarrow> string \<Rightarrow> assertion_opts \<Rightarrow> 'w \<Rightarrow>
    (go_error + 'e option) \<times> 'w"       \<comment> \<open>the \<open>HMACSecret\<close> of the assertion\<close>

section \<open>Platforms\<close>

datatype platform = NonWindows | WindowsLibfido2

definition windowsHelloPath :: string where
  "windowsHelloPath = ''windows://hello''"

text \<open>
  \<open>strings.EqualFold(s, t)\<close> for a \<open>t\<close> of lower-case ASCII: a letter matches itself and its
  capital, and \<open>s\<close> and \<open>k\<close> also the long s (U+017F) and the Kelvin sign (U+212A).
\<close>

definition upper :: "char \<Rightarrow> char" where
  "upper c = (if 97 \<le> ord c \<and> ord c \<le> 122 then char_of (ord c - 32) else c)"

definition fold_forms :: "char \<Rightarrow> string list" where
  "fold_forms c =
     [[c], [upper c]] @
     (if c = CHR ''s'' then [[CHR 0xC5, CHR 0xBF]] else []) @
     (if c = CHR ''k'' then [[CHR 0xE2, CHR 0x84, CHR 0xAA]] else [])"

fun EqualFold :: "string \<Rightarrow> string \<Rightarrow> bool" where
  "EqualFold s [] = (s = [])"
| "EqualFold s (c # t) =
     (case strip_any (fold_forms c) s of None \<Rightarrow> False | Some s' \<Rightarrow> EqualFold s' t)"

definition isWindowsHello :: "platform \<Rightarrow> string \<Rightarrow> bool" where
  "isWindowsHello pf path =
     (case pf of NonWindows \<Rightarrow> False
      | WindowsLibfido2 \<Rightarrow> EqualFold (trim_space path) windowsHelloPath)"

definition platformLocationAllowed :: "platform \<Rightarrow> device_location \<Rightarrow> bool \<Rightarrow> bool" where
  "platformLocationAllowed pf location excludeWindowsWebAuthn =
     (case pf of NonWindows \<Rightarrow> True
      | WindowsLibfido2 \<Rightarrow>
          if isWindowsHello pf (dl_Path location) \<and> excludeWindowsWebAuthn then False else True)"

definition platformNoSelectableDeviceError :: go_error where
  "platformNoSelectableDeviceError = Sentinel ErrNoSelectableDevice"

definition NeedsTerminalPIN :: "platform \<Rightarrow> string \<Rightarrow> bool" where
  "NeedsTerminalPIN pf path = (\<not> isWindowsHello pf path)"

section \<open>Discovery\<close>

text \<open>The loop that collects the allowed locations, over the list \<open>out\<close>.\<close>

fun collect :: "platform \<Rightarrow> list_options \<Rightarrow> device_location list \<Rightarrow> device_info list \<Rightarrow> device_info list" where
  "collect pf opts [] out = out"
| "collect pf opts (location # rest) out =
     (if \<not> platformLocationAllowed pf location (lo_ExcludeWindowsWebAuthn opts)
      then collect pf opts rest out
      else collect pf opts rest (out @ [\<lparr>di_Index = int (length out), di_Path = dl_Path location,
        di_Product = dl_Product location, di_Manufacturer = dl_Manufacturer location,
        di_ProductID = dl_ProductID location, di_VendorID = dl_VendorID location,
        di_WindowsHello = isWindowsHello pf (dl_Path location)\<rparr>]))"

text \<open>The loop that looks for the broker from index \<open>i\<close> on and moves it to the front: \<open>copy\<close>
  shifts \<open>out[0:i]\<close> up by one.\<close>

function promote :: "device_info list \<Rightarrow> nat \<Rightarrow> device_info list" where
  "promote out i =
     (if length out \<le> i then out
      else if \<not> di_WindowsHello (out ! i) then promote out (Suc i)
      else if 0 < i then out ! i # take i out @ drop (Suc i) out
      else out)"
  by pat_completeness auto
termination by (relation "measure (\<lambda>(out, i). length out - i)") auto

declare promote.simps [simp del]

definition reindex :: "device_info list \<Rightarrow> device_info list" where
  "reindex out = map (\<lambda>(i, d). d\<lparr>di_Index := int i\<rparr>) (enumerate 0 out)"

definition ListDevices ::
  "platform \<Rightarrow> ('d, 'w, 'e) fido_api \<Rightarrow> list_options \<Rightarrow> 'w \<Rightarrow> (go_error + device_info list) \<times> 'w" where
  "ListDevices pf F opts w =
     (case fd_DeviceLocations F w of
        (Inl e, w) \<Rightarrow> (Inl (errorf_v ''%w: %v'' ErrDeviceSearch e), w)
      | (Inr locations, w) \<Rightarrow>
     (if length locations = 0 then (Inl (Sentinel ErrNoDevice), w)
      else
     (let out = collect pf opts locations [] in
      if length out = 0 then (Inl platformNoSelectableDeviceError, w)
      else (Inr (reindex (promote out 0)), w))))"

section \<open>Devices\<close>

record 'd fido_device =
  dv_path :: string
  dv_device :: "'d option"

definition device_Open ::
  "('d, 'w, 'e) fido_api \<Rightarrow> string \<Rightarrow> 'w \<Rightarrow> (go_error + 'd fido_device) \<times> 'w" where
  "device_Open F path w =
     (if path = [] then (Inl (errorf ''%w: empty device path'' (Sentinel ErrInvalidArgument)), w)
      else
     (case fd_NewDevice F path w of
        (Inl e, w) \<Rightarrow> (Inl (errorf_v ''%w: %v'' ErrOpenDevice e), w)
      | (Inr dev, w) \<Rightarrow> (Inr \<lparr>dv_path = path, dv_device = Some dev\<rparr>, w)))"

definition device_OpenIndex ::
  "platform \<Rightarrow> ('d, 'w, 'e) fido_api \<Rightarrow> int \<Rightarrow> list_options \<Rightarrow> 'w \<Rightarrow> (go_error + 'd fido_device) \<times> 'w" where
  "device_OpenIndex pf F index opts w =
     (case ListDevices pf F opts w of
        (Inl e, w) \<Rightarrow> (Inl e, w)
      | (Inr devices, w) \<Rightarrow>
          if index < 0 \<or> int (length devices) \<le> index
          then (Inl (errorf ''%w: device index %d out of range (count=%d)'' (Sentinel ErrInvalidArgument)), w)
          else device_Open F (di_Path (devices ! nat index)) w)"

definition device_Path :: "'d fido_device option \<Rightarrow> string" where
  "device_Path d = (case d of None \<Rightarrow> [] | Some d \<Rightarrow> dv_path d)"

definition device_WindowsHello :: "platform \<Rightarrow> 'd fido_device option \<Rightarrow> bool" where
  "device_WindowsHello pf d = (case d of None \<Rightarrow> False | Some d \<Rightarrow> isWindowsHello pf (dv_path d))"

definition device_IsFIDO2 ::
  "('d, 'w, 'e) fido_api \<Rightarrow> 'd fido_device option \<Rightarrow> 'w \<Rightarrow> (go_error + bool) \<times> 'w" where
  "device_IsFIDO2 F d w =
     (case Option.bind d dv_device of None \<Rightarrow> (Inl (Sentinel ErrInvalidArgument), w)
      | Some dev \<Rightarrow>
     (case fd_IsFIDO2 F dev w of
        (Inl e, w) \<Rightarrow> (Inl (errorf ''check FIDO2 support: %w'' e), w)
      | (Inr ok, w) \<Rightarrow> (Inr ok, w)))"

section \<open>Credentials and secrets\<close>

text \<open>The client data that the caller gave, or what is generated.\<close>

definition client_data :: "bytes \<Rightarrow> string \<Rightarrow> bytes \<Rightarrow> string \<Rightarrow> go_error + bytes" where
  "client_data given operation challenge rpID =
     (if length given = 0 then MakeClientDataJSON operation challenge rpID else Inr given)"

definition device_CreateCredential ::
  "('d, 'w, 'e) fido_api \<Rightarrow> rng \<Rightarrow> 'd fido_device option \<Rightarrow> create_options \<Rightarrow> 'w
     \<Rightarrow> (go_error + credential option) \<times> 'w" where
  "device_CreateCredential F g d opts w =
     (case Option.bind d dv_device of None \<Rightarrow> (Inl (Sentinel ErrInvalidArgument), w)
      | Some dev \<Rightarrow>
     (let rpID = trim_space (co_RPID opts) in
      if rpID = [] then (Inl (errorf ''%w: RPID is required'' (Sentinel ErrInvalidArgument)), w)
      else
     (let userName = trim_space (co_UserName opts);
          userName = (if userName = [] then ''hmac-secret'' else userName);
          displayName = trim_space (co_UserDisplayName opts);
          displayName = (if displayName = [] then userName else displayName);
          rpName = trim_space (co_RPName opts);
          rpName = (if rpName = [] then ''hmacsecret'' else rpName) in
      case device_IsFIDO2 F d w of
        (Inl e, w) \<Rightarrow> (Inl e, w)
      | (Inr ok, w) \<Rightarrow>
     (if \<not> ok then (Inl (Sentinel ErrNotFIDO2), w)
      else
     (case (if length (co_UserID opts) = 0 then randomBytes g 0 32 else Inr (co_UserID opts)) of
        Inl e \<Rightarrow> (Inl (errorf ''generate user id: %w'' e), w)
      | Inr userID \<Rightarrow>
     (case randomBytes g (if length (co_UserID opts) = 0 then 1 else 0) 32 of
        Inl e \<Rightarrow> (Inl (errorf ''generate challenge: %w'' e), w)
      | Inr challenge \<Rightarrow>
     (case client_data (co_ClientDataJSON opts) ''webauthn.create'' challenge rpID of
        Inl e \<Rightarrow> (Inl e, w)
      | Inr clientDataJSON \<Rightarrow>
     (case fd_MakeCredential F dev challenge \<lparr>rp_ID = rpID, rp_Name = rpName\<rparr>
          \<lparr>us_ID = userID, us_Name = userName, us_DisplayName = displayName\<rparr> ES256 (co_PIN opts)
          \<lparr>mc_Extensions = [HMACSecretExtension], mc_RK = OptFalse,
            mc_ClientDataJSON = clientDataJSON\<rparr> w of
        (Inl e, w) \<Rightarrow> (Inl (errorf ''make hmac-secret credential: %w'' e), w)
      | (Inr attestation, w) \<Rightarrow>
     (if length (at_CredentialID attestation) = 0
      then (Inl (Errorf ''make hmac-secret credential: empty credential id''), w)
      else (Inr (Some \<lparr>cr_ID = [] @ at_CredentialID attestation, cr_RPID = rpID,
             cr_PubKey = [] @ at_PubKey attestation\<rparr>), w))))))))))"

definition device_Derive ::
  "('d, 'w, 'e) fido_api \<Rightarrow> 'e memguard \<Rightarrow> rng \<Rightarrow> 'd fido_device option \<Rightarrow> derive_options \<Rightarrow> 'w
     \<Rightarrow> (go_error + 'e secret option) \<times> 'w" where
  "device_Derive F M g d opts w =
     (case Option.bind d dv_device of None \<Rightarrow> (Inl (Sentinel ErrInvalidArgument), w)
      | Some dev \<Rightarrow>
     (let rpID = trim_space (do_RPID opts) in
      if rpID = [] then (Inl (errorf ''%w: RPID is required'' (Sentinel ErrInvalidArgument)), w)
      else if length (do_CredentialID opts) = 0
      then (Inl (errorf ''%w: CredentialID is required'' (Sentinel ErrInvalidArgument)), w)
      else
     (case validateSalt (do_Salt opts) of
        Some e \<Rightarrow> (Inl (errorf_v ''%w: %v'' ErrInvalidArgument e), w)
      | None \<Rightarrow>
     (case device_IsFIDO2 F d w of
        (Inl e, w) \<Rightarrow> (Inl e, w)
      | (Inr ok, w) \<Rightarrow>
     (if \<not> ok then (Inl (Sentinel ErrNotFIDO2), w)
      else
     (case randomBytes g 0 32 of
        Inl e \<Rightarrow> (Inl (errorf ''generate challenge: %w'' e), w)
      | Inr challenge \<Rightarrow>
     (case client_data (do_ClientDataJSON opts) ''webauthn.get'' challenge rpID of
        Inl e \<Rightarrow> (Inl e, w)
      | Inr clientDataJSON \<Rightarrow>
     (let up = OptTrue;
          up = (if do_UserPresenceSet opts \<and> \<not> do_UserPresence opts then OptFalse
                else if do_UserPresenceSet opts \<and> do_UserPresence opts then OptTrue else up) in
      case fd_Assertion F dev rpID challenge [do_CredentialID opts] (do_PIN opts)
          \<lparr>as_Extensions = [HMACSecretExtension], as_UP = up, as_HMACSalt = do_Salt opts,
            as_ClientDataJSON = clientDataJSON\<rparr> w of
        (Inl e, w) \<Rightarrow> (Inl (errorf ''hmac-secret assertion: %w'' e), w)
      | (Inr hs, w) \<Rightarrow>
     (if (case hs of None \<Rightarrow> True | Some s \<Rightarrow> mg_Size M s = 0)
      then (Inl (Sentinel ErrEmptyHMACSecret), w)
      else (Inr (Some \<lparr>se_CredentialID = [] @ do_CredentialID opts, se_Salt = [] @ do_Salt opts,
             se_HMACSecret = hs\<rparr>), w))))))))))"

text \<open>\<open>CreateAndDerive\<close>: the reads of \<open>CreateCredential\<close> come first in the source, then the
  salt's, then the reads of \<open>Derive\<close>.\<close>

definition create_reads :: "create_options \<Rightarrow> nat" where
  "create_reads opts = (if length (co_UserID opts) = 0 then 2 else 1)"

definition device_CreateAndDerive ::
  "('d, 'w, 'e) fido_api \<Rightarrow> 'e memguard \<Rightarrow> rng \<Rightarrow> 'd fido_device option \<Rightarrow> create_options \<Rightarrow> bytes
     \<Rightarrow> string \<Rightarrow> 'w \<Rightarrow> (go_error + 'e secret option) \<times> 'w" where
  "device_CreateAndDerive F M g d create salt pin w =
     (let create = create\<lparr>co_PIN := pin\<rparr> in
      case device_CreateCredential F g d create w of
        (Inl e, w) \<Rightarrow> (Inl e, w)
      | (Inr None, w) \<Rightarrow> (Inl nil_deref, w)
      | (Inr (Some cred), w) \<Rightarrow>
     (case (if length salt = 0 then randomBytes g (create_reads create) HmacSaltSize else Inr salt) of
        Inl e \<Rightarrow> (Inl (errorf ''generate salt: %w'' e), w)
      | Inr salt' \<Rightarrow>
          device_Derive F M (rng_from g (create_reads create + (if length salt = 0 then 1 else 0))) d
            \<lparr>do_RPID = co_RPID create, do_CredentialID = cr_ID cred, do_Salt = salt', do_PIN = pin,
              do_UserPresence = False, do_UserPresenceSet = False, do_ClientDataJSON = []\<rparr> w))"

text \<open>
  A device as the \<open>Authenticator\<close> of the alias API. The source of random bytes goes on over the
  calls: its position is kept with the outside.
\<close>

definition device_authenticator ::
  "('d, 'w, 'e) fido_api \<Rightarrow> 'e memguard \<Rightarrow> rng \<Rightarrow> ('d fido_device, 'w \<times> nat, 'e) authenticator" where
  "device_authenticator F M g =
     \<lparr>au_CreateCredential = (\<lambda>d q (w, k). case device_CreateCredential F (rng_from g k) (Some d) q w of
        (res, w) \<Rightarrow> (res, (w, k + create_reads q))),
      au_Derive = (\<lambda>d q (w, k). case device_Derive F M (rng_from g k) (Some d) q w of
        (res, w) \<Rightarrow> (res, (w, Suc k)))\<rparr>"

end
