(* ===== verification/Windows_Device.thy ===== *)
theory Windows_Device
  imports Webauthn Device
begin

text \<open>
  The backend of package \<open>lib/hmacsecret\<close> on Windows: \<open>device_windows.go\<close> and
  \<open>hmacsecret_windows.go\<close>, over the binding of \<open>Webauthn\<close>. The one device is the WebAuthn broker of
  the system. At the end, the build without a backend, \<open>hmacsecret_nocgo.go\<close>.

  \<open>winwebauthn.Load\<close> is \<open>webauthn_Load L names\<close>: the loader \<open>L\<close>, and the order \<open>names\<close> in which it
  looks for the procedures. A \<open>*Device\<close> is a \<open>'w win_device option\<close>.
\<close>

section \<open>Devices\<close>

record 'w win_device =
  wd_path :: string
  wd_api :: "'w wa_api option"

definition win_isWindowsHello :: "string \<Rightarrow> bool" where
  "win_isWindowsHello path = EqualFold (trim_space path) windowsHelloPath"

definition win_ListDevices ::
  "'w wa_loader \<Rightarrow> string list \<Rightarrow> list_options \<Rightarrow> 'w \<Rightarrow> go_error + device_info list" where
  "win_ListDevices L names opts w =
     (case webauthn_Load L names w of Inl e \<Rightarrow> Inl (errorf_v ''%w: %v'' ErrDeviceSearch e)
      | Inr _ \<Rightarrow>
     (if lo_ExcludeWindowsWebAuthn opts then Inl (Sentinel ErrNoSelectableDevice)
      else Inr [\<lparr>di_Index = 0, di_Path = windowsHelloPath, di_Product = ''Windows Hello'',
             di_Manufacturer = ''Microsoft Corporation'', di_ProductID = 0x0001,
             di_VendorID = 0x045e, di_WindowsHello = True\<rparr>]))"

definition win_Open ::
  "'w wa_loader \<Rightarrow> string list \<Rightarrow> string \<Rightarrow> 'w \<Rightarrow> go_error + 'w win_device" where
  "win_Open L names path w =
     (if \<not> win_isWindowsHello path
      then Inl (errorf ''%w: unsupported Windows device path %q'' (Sentinel ErrOpenDevice))
      else
     (case webauthn_Load L names w of Inl e \<Rightarrow> Inl (errorf_v ''%w: %v'' ErrOpenDevice e)
      | Inr api \<Rightarrow> Inr \<lparr>wd_path = windowsHelloPath, wd_api = Some api\<rparr>))"

definition win_OpenIndex ::
  "'w wa_loader \<Rightarrow> string list \<Rightarrow> int \<Rightarrow> list_options \<Rightarrow> 'w \<Rightarrow> go_error + 'w win_device" where
  "win_OpenIndex L names index opts w =
     (case win_ListDevices L names opts w of Inl e \<Rightarrow> Inl e
      | Inr devices \<Rightarrow>
          if index < 0 \<or> int (length devices) \<le> index
          then Inl (errorf ''%w: device index %d out of range (count=%d)'' (Sentinel ErrInvalidArgument))
          else win_Open L names (di_Path (devices ! nat index)) w)"

definition win_Path :: "'w win_device option \<Rightarrow> string" where
  "win_Path d = (case d of None \<Rightarrow> [] | Some d \<Rightarrow> wd_path d)"

definition win_IsFIDO2 :: "'w win_device option \<Rightarrow> 'w \<Rightarrow> go_error + bool" where
  "win_IsFIDO2 d w =
     (case Option.bind d wd_api of None \<Rightarrow> Inl (Sentinel ErrInvalidArgument)
      | Some api \<Rightarrow> Inr (APIVersionPRF \<le> api_Version (Some api) w))"

definition win_WindowsHello :: "'w win_device option \<Rightarrow> bool" where
  "win_WindowsHello d = (case d of None \<Rightarrow> False | Some d \<Rightarrow> win_isWindowsHello (wd_path d))"

section \<open>Credentials and secrets\<close>

definition mapWindowsError :: "string \<Rightarrow> go_error \<Rightarrow> go_error" where
  "mapWindowsError operation err =
     (if errors_is err WebErrInvalidInput then errorf_v ''%w: %s: %v'' ErrInvalidArgument err
      else if errors_is err WebErrUnsupported \<or> errors_is err WebErrPRFDisabled
      then errorf_v ''%w: %s: %v'' ErrNotFIDO2 err
      else errorf (operation @ '': %w'') err)"

definition win_CreateCredential ::
  "'w os_memory \<Rightarrow> rng \<Rightarrow> 'w win_device option \<Rightarrow> create_options \<Rightarrow> 'w
     \<Rightarrow> (go_error + credential option) \<times> 'w" where
  "win_CreateCredential m g d opts w =
     (case Option.bind d wd_api of None \<Rightarrow> (Inl (Sentinel ErrInvalidArgument), w)
      | Some api \<Rightarrow>
     (let rpID = trim_space (co_RPID opts) in
      if rpID = [] then (Inl (errorf ''%w: RPID is required'' (Sentinel ErrInvalidArgument)), w)
      else
     (let userName = trim_space (co_UserName opts);
          userName = (if userName = [] then ''hmac-secret'' else userName);
          displayName = trim_space (co_UserDisplayName opts);
          displayName = (if displayName = [] then userName else displayName);
          rpName = trim_space (co_RPName opts);
          rpName = (if rpName = [] then ''hmacsecret'' else rpName) in
      case (if length (co_UserID opts) = 0 then randomBytes g 0 32 else Inr (co_UserID opts)) of
        Inl e \<Rightarrow> (Inl (errorf ''generate user id: %w'' e), w)
      | Inr userID \<Rightarrow>
     (case randomBytes g (if length (co_UserID opts) = 0 then 1 else 0) 32 of
        Inl e \<Rightarrow> (Inl (errorf ''generate challenge: %w'' e), w)
      | Inr challenge \<Rightarrow>
     (case client_data (co_ClientDataJSON opts) ''webauthn.create'' challenge rpID of
        Inl e \<Rightarrow> (Inl e, w)
      | Inr clientDataJSON \<Rightarrow>
     (case api_MakeCredential m (Some api) \<lparr>mr_RPID = rpID, mr_RPName = rpName, mr_UserID = userID,
          mr_UserName = userName, mr_UserDisplayName = displayName,
          mr_ClientDataJSON = clientDataJSON, mr_Timeout = 0\<rparr> w of
        (Inl e, w) \<Rightarrow> (Inl (mapWindowsError ''make hmac-secret credential'' e), w)
      | (Inr result, w) \<Rightarrow>
          (Inr (Some \<lparr>cr_ID = [] @ mt_CredentialID result, cr_RPID = rpID, cr_PubKey = []\<rparr>), w)))))))"

definition win_Derive ::
  "'e memguard \<Rightarrow> 'w os_memory \<Rightarrow> rng \<Rightarrow> 'w win_device option \<Rightarrow> derive_options \<Rightarrow> 'w
     \<Rightarrow> (go_error + 'e secret option) \<times> 'w" where
  "win_Derive M m g d opts w =
     (case Option.bind d wd_api of None \<Rightarrow> (Inl (Sentinel ErrInvalidArgument), w)
      | Some api \<Rightarrow>
     (let rpID = trim_space (do_RPID opts) in
      if rpID = [] then (Inl (errorf ''%w: RPID is required'' (Sentinel ErrInvalidArgument)), w)
      else if length (do_CredentialID opts) = 0
      then (Inl (errorf ''%w: CredentialID is required'' (Sentinel ErrInvalidArgument)), w)
      else
     (case validateSalt (do_Salt opts) of
        Some e \<Rightarrow> (Inl (errorf_v ''%w: %v'' ErrInvalidArgument e), w)
      | None \<Rightarrow>
     (if do_UserPresenceSet opts \<and> \<not> do_UserPresence opts
      then (Inl (errorf ''%w: Windows WebAuthn requires user presence'' (Sentinel ErrInvalidArgument)), w)
      else
     (case randomBytes g 0 32 of
        Inl e \<Rightarrow> (Inl (errorf ''generate challenge: %w'' e), w)
      | Inr challenge \<Rightarrow>
     (case client_data (do_ClientDataJSON opts) ''webauthn.get'' challenge rpID of
        Inl e \<Rightarrow> (Inl e, w)
      | Inr clientDataJSON \<Rightarrow>
     (case api_GetAssertion M m (Some api) \<lparr>ar_RPID = rpID, ar_CredentialID = do_CredentialID opts,
          ar_Salt = do_Salt opts, ar_ClientDataJSON = clientDataJSON, ar_Timeout = 0\<rparr> w of
        (Inl e, w) \<Rightarrow> (Inl (mapWindowsError ''hmac-secret assertion'' e), w)
      | (Inr result, w) \<Rightarrow>
     (if (case az_HMACSecret result of None \<Rightarrow> True | Some s \<Rightarrow> mg_Size M s = 0)
      then (Inl (Sentinel ErrEmptyHMACSecret), w)
      else (Inr (Some \<lparr>se_CredentialID = [] @ do_CredentialID opts, se_Salt = [] @ do_Salt opts,
             se_HMACSecret = az_HMACSecret result\<rparr>), w)))))))))"

definition win_CreateAndDerive ::
  "'e memguard \<Rightarrow> 'w os_memory \<Rightarrow> rng \<Rightarrow> 'w win_device option \<Rightarrow> create_options \<Rightarrow> bytes
     \<Rightarrow> string \<Rightarrow> 'w \<Rightarrow> (go_error + 'e secret option) \<times> 'w" where
  "win_CreateAndDerive M m g d create salt pin w =
     (let create = create\<lparr>co_PIN := pin\<rparr> in
      case win_CreateCredential m g d create w of
        (Inl e, w) \<Rightarrow> (Inl e, w)
      | (Inr None, w) \<Rightarrow> (Inl nil_deref, w)
      | (Inr (Some cred), w) \<Rightarrow>
     (case (if length salt = 0 then randomBytes g (create_reads create) HmacSaltSize else Inr salt) of
        Inl e \<Rightarrow> (Inl (errorf ''generate salt: %w'' e), w)
      | Inr salt' \<Rightarrow>
          win_Derive M m (rng_from g (create_reads create + (if length salt = 0 then 1 else 0))) d
            \<lparr>do_RPID = co_RPID create, do_CredentialID = cr_ID cred, do_Salt = salt', do_PIN = pin,
              do_UserPresence = False, do_UserPresenceSet = False, do_ClientDataJSON = []\<rparr> w))"

text \<open>The broker as the \<open>Authenticator\<close> of the alias API: the handles of a process, given by their
  paths, share the API that was loaded. The position of the source of random bytes is kept with
  the outside.\<close>

definition win_authenticator ::
  "'e memguard \<Rightarrow> 'w os_memory \<Rightarrow> rng \<Rightarrow> 'w wa_api \<Rightarrow> (string, 'w \<times> nat, 'e) authenticator" where
  "win_authenticator M m g api =
     \<lparr>au_CreateCredential = (\<lambda>path q (w, k).
        case win_CreateCredential m (rng_from g k) (Some \<lparr>wd_path = path, wd_api = Some api\<rparr>) q w of
          (res, w) \<Rightarrow> (res, (w, k + create_reads q))),
      au_Derive = (\<lambda>path q (w, k).
        case win_Derive M m (rng_from g k) (Some \<lparr>wd_path = path, wd_api = Some api\<rparr>) q w of
          (res, w) \<Rightarrow> (res, (w, Suc k)))\<rparr>"

section \<open>The build without a backend\<close>

definition unsupported :: "string \<Rightarrow> go_error" where
  "unsupported op = errorf ''%w: %s'' (Sentinel ErrUnsupportedBuild)"

record stub_device =
  sd_path :: string

definition stub_isWindowsHello :: "string \<Rightarrow> bool" where
  "stub_isWindowsHello path = False"

definition stub_ListDevices :: "list_options \<Rightarrow> go_error + device_info list" where
  "stub_ListDevices opts = Inl (unsupported ''ListDevices'')"

definition stub_Open :: "string \<Rightarrow> go_error + stub_device" where
  "stub_Open path = Inl (unsupported ''Open'')"

definition stub_OpenIndex :: "int \<Rightarrow> list_options \<Rightarrow> go_error + stub_device" where
  "stub_OpenIndex index opts = Inl (unsupported ''OpenIndex'')"

definition stub_Path :: "stub_device option \<Rightarrow> string" where
  "stub_Path d = (case d of None \<Rightarrow> [] | Some d \<Rightarrow> sd_path d)"

definition stub_IsFIDO2 :: "stub_device option \<Rightarrow> go_error + bool" where
  "stub_IsFIDO2 d = Inl (unsupported ''IsFIDO2'')"

definition stub_WindowsHello :: "stub_device option \<Rightarrow> bool" where
  "stub_WindowsHello d = False"

definition stub_CreateCredential :: "stub_device option \<Rightarrow> create_options \<Rightarrow> go_error + credential option" where
  "stub_CreateCredential d opts = Inl (unsupported ''CreateCredential'')"

definition stub_Derive :: "stub_device option \<Rightarrow> derive_options \<Rightarrow> go_error + 'e secret option" where
  "stub_Derive d opts = Inl (unsupported ''Derive'')"

definition stub_CreateAndDerive ::
  "stub_device option \<Rightarrow> create_options \<Rightarrow> bytes \<Rightarrow> string \<Rightarrow> go_error + 'e secret option" where
  "stub_CreateAndDerive d create salt pin = Inl (unsupported ''CreateAndDerive'')"

end
