(* ===== verification/Lifecycle_Properties.thy ===== *)
theory Lifecycle_Properties
  imports Encrypted_Properties
begin

text \<open>
  What the life cycle of an encrypted store guarantees: initialisation, unlocking, rotation of
  the KEK, locking and closing, and what a locked store still does.
\<close>

section \<open>Initialising and unlocking\<close>

text \<open>A store that \<open>Initialize\<close> made can be unlocked again: with the same KEK, after a
  \<open>Lock\<close>, \<open>Unlock\<close> succeeds and gives back the same header and the same DEK, provided the RP ID
  of the KEK reference is valid UTF-8.\<close>

theorem initialize_then_unlock:
  assumes "enc_live B hdr envs kept kept_blob good M content A up"
    and "es_backend s = Some b" "good b"
    and "enc_Initialize B M A g c ref kek s = (None, s')"
    and "valid_utf8 (trim_space (ref_RPID ref))"
    and "es_backend s' = Some b'" "up b'"
  shows "\<exists>d d'. es_dek s' = Some d \<and> length (content d) = KeySize \<and>
    enc_Unlock B M A background kek (enc_Lock s') = (None, s'\<lparr>es_dek := Some d'\<rparr>) \<and>
    content d' = content d"
proof -
  have ov: "enc_over B hdr envs kept kept_blob good M content A"
      and be: "envelope_backend B hdr envs kept kept_blob good"
    using assms(1) by (auto simp: enc_live_def enc_over_def)
  obtain k d h where
      h: "good b'" "hdr b' = Some (kept h)" "es_header s' = h" "es_dek s' = Some d"
      "kek = Some k" "length (content k) = KeySize" "length (content d) = KeySize"
      "valid_header h" "hdr_KEK h = trim_ref ref" "wraps A (content k) (content d) h"
    using enc_over.initialize_ok [OF ov assms(4,2,3)] assms(6) by auto
  have "clean_header h" using clean_valid_header [OF h(8)] h(9) assms(5) by (simp add: trim_ref_def)
  then have "hdr b' = Some h" using envelope_backend.kept_clean [OF be] h(2) by simp
  then obtain d' where "enc_Unlock B M A background (Some k) (enc_Lock s') =
      (None, (enc_Lock s')\<lparr>es_header := h, es_dek := Some d'\<rparr>)" "content d' = content d"
    using enc_live.unlock_live [OF assms(1) _ h(1) assms(7) _ h(8,10,6,7), of "enc_Lock s'"] assms(6)
    by (auto simp: enc_Lock_def)
  then show ?thesis using h by (intro exI [of _ d] exI [of _ d']) (simp add: enc_Lock_def)
qed

lemma sample_ref_ok [simp]:
  "trim_ref sample_ref = sample_ref" "ValidateKEKReference sample_ref = None"
  by (simp_all add: trim_ref_def ValidateKEKReference_None sample_ref_def SaltSize_def)

lemma sample_utf8 [simp]: "valid_utf8 ''example.org''"
  by (rule valid_utf8_ascii) (simp add: ord_def)

lemma sample_initialize:
  "\<exists>s' b'. enc_Initialize mem_ops plain_guard xchacha20poly1305 zero_rng background sample_ref
     (Some sample_key) fresh_store = (None, s') \<and> es_backend s' = Some b' \<and> mem_up b'"
  using me.initialize_live [of fresh_store "Some []" sample_ref sample_key zero_rng]
  by (simp add: fresh_store_def)

theorem initialize_then_unlock_witness:
  "\<exists>s' d d'. enc_Initialize mem_ops plain_guard xchacha20poly1305 zero_rng background sample_ref
       (Some sample_key) fresh_store = (None, s') \<and> es_dek s' = Some d \<and>
     enc_Unlock mem_ops plain_guard xchacha20poly1305 background (Some sample_key) (enc_Lock s')
       = (None, s'\<lparr>es_dek := Some d'\<rparr>) \<and> d' = d"
proof -
  obtain s' b' where i: "enc_Initialize mem_ops plain_guard xchacha20poly1305 zero_rng background
      sample_ref (Some sample_key) fresh_store = (None, s')" "es_backend s' = Some b'" "b' \<noteq> None"
    using sample_initialize by blast
  have "es_backend fresh_store = Some (Some [])" by (simp add: fresh_store_def)
  moreover have "pebble_good map_of (Some [])" by simp
  moreover have "valid_utf8 (trim_space (ref_RPID sample_ref))" by (simp add: sample_ref_def)
  ultimately show ?thesis
    using initialize_then_unlock [OF me.enc_live_axioms _ _ i(1) _ i(2,3)] i(1) by auto
qed

text \<open>C30: \<open>Initialize\<close> creates at most one vault: a backend that has a header refuses it with
  \<open>ErrExists\<close>, one that has envelopes but no header with \<open>ErrConflict\<close>, and the store is as it
  was.\<close>

theorem initialize_refuses:
  assumes "enc_live B hdr envs kept kept_blob good M content A up"
    and "es_backend s = Some b" "good b" "up b"
    and "ValidateKEKReference (trim_ref ref) = None" "validateKeyEnclave M kek ''KEK'' = None"
  shows "(hdr b \<noteq> None \<longrightarrow>
      enc_Initialize B M A g background ref kek s = (Some (Sentinel StoreErrExists), s)) \<and>
    (hdr b = None \<longrightarrow> envs b \<noteq> Map.empty \<longrightarrow>
      (\<exists>e. enc_Initialize B M A g background ref kek s = (Some e, s) \<and> errors_is e ErrConflict))"
proof -
  have lb: "live_backend B hdr envs kept kept_blob good up"
      and be: "envelope_backend B hdr envs kept kept_blob good"
    using assms(1) by (auto simp: enc_live_def enc_over_def)
  note r = assms(5) [unfolded trim_ref_def]
  have "enc_Initialize B M A g background ref kek s = (Some (Sentinel StoreErrExists), s)"
    if "hdr b \<noteq> None"
    using that live_backend.load_live [OF lb assms(3,4)] assms(2,6) r
    by (auto simp: enc_Initialize_def Let_def asking_def)
  moreover have "\<exists>e. enc_Initialize B M A g background ref kek s = (Some e, s) \<and> errors_is e ErrConflict"
    if "hdr b = None" "envs b \<noteq> Map.empty"
  proof -
    obtain as where as: "be_ListEnvelopes B background b = Inr as"
      using live_backend.listenv_live [OF lb assms(3,4)] by blast
    have "as \<noteq> []" using envelope_backend.listenv_ok [OF be assms(3) as] that(2)
      by (metis dom_eq_empty_conv empty_set)
    then show ?thesis
      using live_backend.load_none [OF lb assms(3,4) that(1)] as assms(2,6) r
      by (auto simp: enc_Initialize_def Let_def asking_def)
  qed
  ultimately show ?thesis by blast
qed

theorem initialize_refuses_witness:
  "\<exists>s. es_dek s = Some sample_key \<and>
     enc_Initialize mem_ops plain_guard xchacha20poly1305 zero_rng background sample_ref
       (Some sample_key) s = (Some (Sentinel StoreErrExists), s)"
proof -
  let ?d = "[(encryptionHeaderKey, marshal_header sample_header)]"
  let ?s = "\<lparr>es_backend = Some (Some ?d), es_header = sample_header, es_dek = Some sample_key\<rparr>"
  have "pebble_good map_of (Some ?d)" "pebble_hdr map_of (Some ?d) \<noteq> None"
    using put_header_in [of Map.empty sample_header] by simp_all
  then show ?thesis
    using initialize_refuses [OF me.enc_live_axioms, of ?s "Some ?d" sample_ref "Some sample_key"
        zero_rng]
    by (intro exI [of _ ?s]) (simp add: validateKeyEnclave_def plain_guard_def)
qed

text \<open>C17: \<open>Unlock\<close> is sound: when it fails nothing changes, and when it succeeds the store holds
  the persisted header, which passed validation, and a DEK that this header wraps under the given
  KEK with the header's own fields as additional data.\<close>

theorem unlock_sound:
  assumes "enc_over B hdr envs kept kept_blob good M content A"
    and "es_backend s = Some b" "good b"
    and "enc_Unlock B M A c kek s = (e, s')"
  shows "(e \<noteq> None \<longrightarrow> s' = s) \<and>
    (e = None \<longrightarrow> (\<exists>h k d. hdr b = Some h \<and> valid_header h \<and> kek = Some k \<and>
       length (content d) = KeySize \<and> wraps A (content k) (content d) h \<and>
       s' = s\<lparr>es_header := h, es_dek := Some d\<rparr>))"
proof (cases e)
  case None
  then show ?thesis
    using enc_over.unlock_ok [OF assms(1) _ assms(2,3)] assms(4) by fastforce
next
  case (Some x)
  then show ?thesis using enc_over.unlock_err [OF assms(1)] assms(4) by blast
qed

theorem unlock_sound_witness:
  "\<exists>e. enc_Unlock mem_ops plain_guard xchacha20poly1305 background (Some sample_key) fresh_store
     = (Some e, fresh_store)"
proof -
  have f: "es_backend fresh_store = Some (Some [])" "pebble_good map_of (Some [])"
    by (simp_all add: fresh_store_def)
  obtain e s' where u: "enc_Unlock mem_ops plain_guard xchacha20poly1305 background
      (Some sample_key) fresh_store = (e, s')" by (rule prod.exhaust)
  show ?thesis using unlock_sound [OF me.enc_over_axioms f u] u by (cases e) auto
qed

text \<open>A KEK that does not authenticate the wrapped DEK is refused with \<open>ErrIntegrity\<close>, and
  the store stays as it was.\<close>

theorem unlock_wrong_kek:
  assumes "enc_live B hdr envs kept kept_blob good M content A up"
    and "es_backend s = Some b" "good b" "up b" "hdr b = Some h" "valid_header h"
    and "length (content k) = KeySize"
    and "ae_Open A (content k) (blob_Nonce (hdr_WrappedDEK h)) (blob_Ciphertext (hdr_WrappedDEK h))
      (headerAAD h) = None"
  shows "\<exists>e. enc_Unlock B M A background (Some k) s = (Some e, s) \<and> errors_is e ErrIntegrity"
  by (rule enc_live.unlock_wrong [OF assms])

text \<open>Of two ciphertexts that differ in the tag only, one does not open.\<close>

definition forged :: "byte \<Rightarrow> encryption_header" where
  "forged t = sample_header\<lparr>hdr_WrappedDEK :=
     (hdr_WrappedDEK sample_header)\<lparr>blob_Ciphertext := replicate 32 0 @ replicate 16 t\<rparr>\<rparr>"

lemma forged_valid: "valid_header (forged t)" "clean_header (forged t)"
  by (simp_all add: forged_def sample_header_def valid_header_def valid_blob_def FormatVersion_def
      NonceSizeX_def Overhead_def maxCiphertext_def storeIDSize_def ValidateKEKReference_None
      SaltSize_def clean_header_def)

lemma one_tag:
  "length t = 16 \<Longrightarrow> length u = 16 \<Longrightarrow> t \<noteq> u \<Longrightarrow>
     xchacha_open k n (c @ t) ad = None \<or> xchacha_open k n (c @ u) ad = None"
  by (auto simp: xchacha_open_def Let_def)

lemma forged_rejected:
  "\<exists>t. xchacha_open sample_key (blob_Nonce (hdr_WrappedDEK (forged t)))
     (blob_Ciphertext (hdr_WrappedDEK (forged t))) (headerAAD (forged t)) = None"
proof -
  let ?n = "blob_Nonce (hdr_WrappedDEK sample_header)" and ?c = "replicate 32 0 :: bytes"
  have f: "blob_Nonce (hdr_WrappedDEK (forged t)) = ?n" "headerAAD (forged t) = headerAAD sample_header"
      "blob_Ciphertext (hdr_WrappedDEK (forged t)) = ?c @ replicate 16 t" for t
    by (simp_all add: forged_def headerAAD_eq)
  have "replicate 16 (0 :: byte) \<noteq> replicate 16 1" by (simp add: replicate_eq_replicate)
  then show ?thesis
    using one_tag [of "replicate 16 0" "replicate 16 1" sample_key ?n ?c "headerAAD sample_header"]
    unfolding f by (metis length_replicate)
qed

theorem unlock_wrong_kek_witness:
  "\<exists>s e. enc_Unlock mem_ops plain_guard xchacha20poly1305 background (Some sample_key) s
     = (Some e, s) \<and> errors_is e ErrIntegrity"
proof -
  obtain t where t: "xchacha_open sample_key (blob_Nonce (hdr_WrappedDEK (forged t)))
      (blob_Ciphertext (hdr_WrappedDEK (forged t))) (headerAAD (forged t)) = None"
    using forged_rejected by blast
  let ?d = "[(encryptionHeaderKey, marshal_header (forged t))]"
  let ?s = "fresh_store\<lparr>es_backend := Some (Some ?d)\<rparr>"
  have "pebble_good map_of (Some ?d)" "pebble_hdr map_of (Some ?d) = Some (forged t)"
    using put_header_in [of Map.empty "forged t"] kept_header_json_clean [OF forged_valid(2)]
    by simp_all
  then show ?thesis
    using unlock_wrong_kek [OF me.enc_live_axioms, of ?s "Some ?d" "forged t" sample_key] t
      forged_valid
    by (auto simp: xchacha20poly1305_def)
qed

section \<open>Rotating the KEK\<close>

text \<open>C14: \<open>RotateKEK\<close> rewraps the DEK and nothing else: every envelope is untouched, the store
  ID and the DEK stay, the revision grows by one, and after a \<open>Lock\<close> the new KEK unlocks the
  store to the same DEK, provided the new RP ID is valid UTF-8 and the revision had not reached
  its maximum.\<close>

theorem rotate_rewraps:
  assumes "enc_live B hdr envs kept kept_blob good M content A up"
    and "es_backend s = Some b" "good b"
    and "enc_RotateKEK B M A g c ref kek s = (None, s')"
    and "valid_utf8 (trim_space (ref_RPID ref))" "hdr_Revision (es_header s) + 1 \<noteq> 0"
    and "es_backend s' = Some b'" "up b'"
  shows "envs b' = envs b \<and> es_dek s' = es_dek s \<and>
    hdr_Revision (es_header s') = hdr_Revision (es_header s) + 1 \<and>
    hdr_KEK (es_header s') = trim_ref ref \<and>
    map_option hdr_StoreID (hdr b) = Some (hdr_StoreID (es_header s')) \<and>
    (\<exists>d d'. es_dek s = Some d \<and> content d' = content d \<and>
       enc_Unlock B M A background kek (enc_Lock s') = (None, s'\<lparr>es_dek := Some d'\<rparr>))"
proof -
  have ov: "enc_over B hdr envs kept kept_blob good M content A"
      and be: "envelope_backend B hdr envs kept kept_blob good"
    using assms(1) by (auto simp: enc_live_def enc_over_def)
  obtain cur k d h where r: "hdr b = Some cur" "hdr_Revision cur = hdr_Revision (es_header s)"
      "es_dek s = Some d" "kek = Some k" "length (content k) = KeySize" "length (content d) = KeySize"
      "good b'" "envs b' = envs b" "hdr b' = Some (kept h)"
      "s' = s\<lparr>es_backend := Some b', es_header := h\<rparr>" "hdr_Revision h = hdr_Revision cur + 1"
      "hdr_StoreID h = hdr_StoreID cur" "hdr_KEK h = trim_ref ref"
      "wraps A (content k) (content d) h" "valid_header h"
    using enc_over.rotate_ok [OF ov assms(4,2,3)] assms(6,7) by auto
  have "clean_header h" using clean_valid_header [OF r(15)] r(13) assms(5) by (simp add: trim_ref_def)
  then have "hdr b' = Some h" using envelope_backend.kept_clean [OF be] r(9) by simp
  then obtain d' where "enc_Unlock B M A background (Some k) (enc_Lock s') =
      (None, (enc_Lock s')\<lparr>es_header := h, es_dek := Some d'\<rparr>)" "content d' = content d"
    using enc_live.unlock_live [OF assms(1) _ r(7) assms(8) _ r(15,14,5,6), of "enc_Lock s'"] r(10)
    by (auto simp: enc_Lock_def)
  moreover have "(enc_Lock s')\<lparr>es_header := h, es_dek := Some d'\<rparr> = s'\<lparr>es_dek := Some d'\<rparr>"
    using r(10) by (simp add: enc_Lock_def)
  ultimately show ?thesis using r by auto
qed

text \<open>A vault on Pebble, unlocked.\<close>

definition held_header :: encryption_header where
  "held_header = sample_header\<lparr>hdr_WrappedDEK :=
     (hdr_WrappedDEK sample_header)\<lparr>blob_Ciphertext := replicate 48 0\<rparr>\<rparr>"

definition held_db :: mem_db where
  "held_db = [(encryptionHeaderKey, marshal_header held_header)]"

definition held_store :: "(bytes, mem_db option) enc_store" where
  "held_store = \<lparr>es_backend = Some (Some held_db), es_header = held_header, es_dek = Some sample_key\<rparr>"

lemma held_valid: "valid_header held_header" "clean_header held_header"
  by (simp_all add: held_header_def sample_header_def valid_header_def valid_blob_def
      FormatVersion_def NonceSizeX_def Overhead_def maxCiphertext_def storeIDSize_def
      ValidateKEKReference_None SaltSize_def clean_header_def)

lemma held_abs:
  "pebble_good map_of (Some held_db)" "pebble_hdr map_of (Some held_db) = Some held_header"
  using put_header_in [of Map.empty held_header] kept_header_json_clean [OF held_valid(2)]
  by (simp_all add: held_db_def)

lemma held_sel [simp]:
  "es_backend held_store = Some (Some held_db)" "es_header held_store = held_header"
  "es_dek held_store = Some sample_key" "hdr_Revision held_header = 1"
  by (simp_all add: held_store_def held_header_def sample_header_def)

theorem rotate_rewraps_witness:
  "\<exists>s'. enc_RotateKEK mem_ops plain_guard xchacha20poly1305 zero_rng background sample_ref
       (Some sample_key) held_store = (None, s') \<and>
     hdr_Revision (es_header s') = 2 \<and> es_dek s' = Some sample_key"
proof -
  obtain s' b' where r: "enc_RotateKEK mem_ops plain_guard xchacha20poly1305 zero_rng background
      sample_ref (Some sample_key) held_store = (None, s')" "es_backend s' = Some b'" "mem_up b'"
    using me.rotate_live [of held_store "Some held_db" held_header sample_ref sample_key sample_key
        zero_rng] held_abs held_valid by auto
  have "valid_utf8 (trim_space (ref_RPID sample_ref))" by (simp add: sample_ref_def)
  then show ?thesis
    using rotate_rewraps [OF me.enc_live_axioms held_sel(1) held_abs(1) r(1) _ _ r(2,3)] r(1)
    by auto
qed

text \<open>A handle whose header is not the persisted one cannot rotate: when another handle has
  rotated the KEK in the meantime, \<open>RotateKEK\<close> reports \<open>ErrConflict\<close> and changes nothing.\<close>

theorem rotate_stale_conflict:
  assumes "enc_live B hdr envs kept kept_blob good M content A up"
    and "es_backend s = Some b" "good b" "up b" "es_dek s \<noteq> None"
    and "hdr b = Some cur" "valid_header cur" "hdr_Revision cur \<noteq> hdr_Revision (es_header s)"
    and "ValidateKEKReference (trim_ref ref) = None" "validateKeyEnclave M kek ''KEK'' = None"
  shows "enc_RotateKEK B M A g background ref kek s = (Some (Sentinel ErrConflict), s)"
proof -
  have lb: "live_backend B hdr envs kept kept_blob good up" using assms(1) by (auto simp: enc_live_def)
  have "be_LoadHeader B background b = Inr cur"
    using live_backend.load_live [OF lb assms(3,4,6)] .
  then show ?thesis
    using assms(2,5,7-10) by (simp add: enc_RotateKEK_def Let_def asking_def trim_ref_def)
qed

theorem rotate_stale_conflict_witness:
  "enc_RotateKEK mem_ops plain_guard xchacha20poly1305 zero_rng background sample_ref
     (Some sample_key) (held_store\<lparr>es_header := held_header\<lparr>hdr_Revision := 7\<rparr>\<rparr>) =
   (Some (Sentinel ErrConflict), held_store\<lparr>es_header := held_header\<lparr>hdr_Revision := 7\<rparr>\<rparr>)"
  by (rule rotate_stale_conflict [OF me.enc_live_axioms, of _ "Some held_db" held_header])
    (simp_all add: held_abs [unfolded pebble_abs] held_valid validateKeyEnclave_def plain_guard_def)

section \<open>Locking and closing\<close>

text \<open>A locked store gives nothing away: with arguments that are otherwise in order, \<open>Put\<close>,
  \<open>Get\<close>, \<open>Delete\<close> and \<open>RotateKEK\<close> report \<open>ErrLocked\<close>, ask nothing of the backend and change
  nothing.\<close>

theorem locked_refuses:
  assumes "ctx_Err c = None" "valid_record (norm_record r)" "trim_space a \<noteq> []"
    and "ValidateKEKReference (trim_ref ref) = None" "validateKeyEnclave M kek ''KEK'' = None"
  shows "enc_Put B M A g c r (enc_Lock s) = (Some (Sentinel ErrLocked), enc_Lock s) \<and>
    enc_Get B M A c a (enc_Lock s) = Inl (Sentinel ErrLocked) \<and>
    enc_Delete B c a (enc_Lock s) = (Some (Sentinel ErrLocked), enc_Lock s) \<and>
    enc_RotateKEK B M A g c ref kek (enc_Lock s) = (Some (Sentinel ErrLocked), enc_Lock s)"
  using assms
  by (simp add: enc_Put_norm enc_Get_def enc_Delete_def enc_RotateKEK_def enc_Lock_def Let_def
      snapshot_def trim_ref_def)

theorem locked_refuses_witness:
  "enc_Get mem_ops plain_guard xchacha20poly1305 background ''mail'' (enc_Lock open_store) =
     Inl (Sentinel ErrLocked)"
  using locked_refuses [of background sample_record "''mail''" sample_ref plain_guard
      "Some sample_key" mem_ops xchacha20poly1305 zero_rng open_store]
  by (simp add: validateKeyEnclave_def plain_guard_def)

lemma asking_lock: "asking (enc_Lock s) f = asking s f"
  by (simp add: asking_def enc_Lock_def)

text \<open>Aliases and the header are public: \<open>Has\<close>, \<open>List\<close> and \<open>Header\<close> answer a locked store as
  they answer an unlocked one.\<close>

theorem public_while_locked:
  "enc_Has B c a (enc_Lock s) = enc_Has B c a s \<and> enc_List B c (enc_Lock s) = enc_List B c s \<and>
   enc_Header B c (enc_Lock s) = enc_Header B c s"
  unfolding enc_Has_def enc_List_def enc_Header_def asking_lock by simp

text \<open>C31: \<open>Close\<close> forgets the DEK and drops the backend, whatever the backend says, and closing
  again does nothing. Afterwards, with arguments that pass their checks, \<open>Put\<close>, \<open>Get\<close>, \<open>Delete\<close> and
  \<open>RotateKEK\<close> report \<open>ErrLocked\<close>, but \<open>Has\<close>, \<open>List\<close>, \<open>Header\<close>, \<open>Unlock\<close> and \<open>Initialize\<close>
  dereference the nil backend; none of them changes the store.\<close>

theorem close_forgets:
  assumes "enc_Close B (Some s) = (e, s')"
  shows "\<exists>t. s' = Some t \<and> es_backend t = None \<and> es_dek t = None \<and> enc_Close B s' = (None, s') \<and>
    (ctx_Err c = None \<longrightarrow> enc_List B c t = Inl nil_deref) \<and>
    (ctx_Err c = None \<longrightarrow> trim_space a \<noteq> [] \<longrightarrow>
       enc_Get B M A c a t = Inl (Sentinel ErrLocked) \<and>
       enc_Delete B c a t = (Some (Sentinel ErrLocked), t) \<and> enc_Has B c a t = Inl nil_deref) \<and>
    (ctx_Err c = None \<longrightarrow> valid_record (norm_record r) \<longrightarrow>
       enc_Put B M A g c r t = (Some (Sentinel ErrLocked), t)) \<and>
    (ctx_Err c = None \<longrightarrow> validateKeyEnclave M kek ''KEK'' = None \<longrightarrow>
       enc_Unlock B M A c kek t = (Some nil_deref, t) \<and>
       (ValidateKEKReference (trim_ref ref) = None \<longrightarrow>
          enc_RotateKEK B M A g c ref kek t = (Some (Sentinel ErrLocked), t) \<and>
          enc_Initialize B M A g c ref kek t = (Some nil_deref, t))) \<and>
    enc_Header B c t = Inl nil_deref"
proof -
  obtain t where t: "s' = Some t" "t = (enc_Lock s)\<lparr>es_backend := None\<rparr>"
    using assms by (cases "es_backend s") (auto simp: enc_Close_def enc_Lock_def Let_def)
  then have n: "es_backend t = None" "es_dek t = None" by (simp_all add: enc_Lock_def)
  have "enc_Close B s' = (None, s')" using t by (simp add: enc_Close_def enc_Lock_def)
  moreover have "enc_Put B M A g c r t = (Some (Sentinel ErrLocked), t)"
    if "ctx_Err c = None" "valid_record (norm_record r)"
    using that n by (simp add: enc_Put_norm snapshot_def)
  moreover have "enc_Unlock B M A c kek t = (Some nil_deref, t)"
    if "ctx_Err c = None" "validateKeyEnclave M kek ''KEK'' = None"
    using that n by (simp add: enc_Unlock_def asking_def)
  moreover have "enc_RotateKEK B M A g c ref kek t = (Some (Sentinel ErrLocked), t)"
      "enc_Initialize B M A g c ref kek t = (Some nil_deref, t)"
    if "ctx_Err c = None" "validateKeyEnclave M kek ''KEK'' = None" "ValidateKEKReference (trim_ref ref) = None"
    using that n by (simp_all add: enc_RotateKEK_def enc_Initialize_def asking_def trim_ref_def Let_def)
  ultimately show ?thesis
    using t(1) n by (simp add: enc_Get_def enc_Delete_def enc_Has_def enc_List_def enc_Header_def
        snapshot_def asking_def Let_def)
qed

theorem close_forgets_witness:
  "\<exists>t. enc_Close mem_ops (Some open_store) = (None, Some t) \<and> es_dek t = None \<and>
     enc_List mem_ops background t = Inl nil_deref \<and>
     enc_Put mem_ops plain_guard xchacha20poly1305 zero_rng background sample_record t =
       (Some (Sentinel ErrLocked), t) \<and>
     enc_Unlock mem_ops plain_guard xchacha20poly1305 background (Some sample_key) t = (Some nil_deref, t)"
proof -
  obtain e s' where c: "enc_Close mem_ops (Some open_store) = (e, s')" by (rule prod.exhaust)
  have "e = None"
    using c by (simp add: enc_Close_def enc_Lock_def open_store_def Let_def pebble_envelope_ops_def
        pebble_Close_def mem_pebble_def)
  moreover have "validateKeyEnclave plain_guard (Some sample_key) ''KEK'' = None"
    using me.key_ok [of sample_key] by simp
  ultimately show ?thesis
    using close_forgets [OF c, of background "''mail''" plain_guard xchacha20poly1305 sample_record zero_rng
        "Some sample_key" sample_ref] c by auto
qed

section \<open>Moved envelopes\<close>

text \<open>An envelope that an adversary moves to another alias, or in from another store with the
  same DEK, is not taken for a record of this alias: \<open>Get\<close> reports \<open>ErrIntegrity\<close>, unless one
  ciphertext authenticates under two different additional data, which is a forgery of the
  cipher.\<close>

theorem moved_envelope_rejected:
  assumes "enc_live B hdr envs kept kept_blob good M content A up"
    and "es_backend s = Some b" "good b" "up b" "es_dek s = Some d" "length (content d) = KeySize"
    and "envs b (trim_space a) = Some (record_envelope A (content d) sid n r)"
    and "length n = NonceSizeX" "valid_record r" "fits r" "trim_space a \<noteq> []"
    and "rec_Alias r \<noteq> trim_space a \<or> sid \<noteq> hdr_StoreID (es_header s)"
    and "length sid < 2 ^ 32" "length (hdr_StoreID (es_header s)) < 2 ^ 32"
      "length (rec_Alias r) < 2 ^ 32" "length (trim_space a) < 2 ^ 32"
  shows "(\<exists>e. enc_Get B M A background a s = Inl e \<and> errors_is e ErrIntegrity) \<or>
    (\<exists>p ad ad'. ad \<noteq> ad' \<and> ae_Seal A (content d) n p ad = ae_Seal A (content d) n (encoding r) ad')"
proof -
  have lb: "live_backend B hdr envs kept kept_blob good up"
      and sl: "sealing_live M content A"
    using assms(1) by (auto simp: enc_live_def)
  let ?e = "record_envelope A (content d) sid n r"
  let ?ad = "recordAAD (es_header s) (trim_space a)"
  have ne: "?ad \<noteq> record_data sid (rec_Alias r)"
    using recordAAD_inject [of "es_header s" "zero_header\<lparr>hdr_StoreID := sid\<rparr>" "trim_space a"
        "rec_Alias r"] assms(12-16) by (auto simp: record_data_def)
  have get: "be_GetEnvelope B background (trim_space a) b = Inr ?e"
    using live_backend.getenv_live [OF lb assms(3,4), of "trim_space a" ?e] assms(7,11) by simp
  have vb: "valid_blob ?e"
    using sealing.valid_sealed [OF sealing_live.axioms(1) [OF sl] assms(8) fits_length [OF assms(10,9)]]
    by (simp add: record_envelope_def)
  show ?thesis
  proof (cases "ae_Open A (content d) n (blob_Ciphertext ?e) ?ad")
    case None
    then have "openLocked M A (Some d) ?e ?ad = Inl (Sentinel ErrIntegrity)"
      using sealing_live.openLocked_total [OF sl assms(6) vb] by (simp add: record_envelope_def)
    then show ?thesis
      using get assms(2,5,11) by (simp add: enc_Get_def Let_def snapshot_def asking_def)
  next
    case (Some p)
    have "xchacha A" using sl by (auto simp: sealing_live_def sealing_def)
    from xchacha.open_sound [OF this Some] ne show ?thesis
      by (auto simp: record_envelope_def) metis
  qed
qed

text \<open>The sample record's envelope, found under another alias.\<close>

definition moved_envelope :: encrypted_blob where
  "moved_envelope = record_envelope xchacha20poly1305 sample_key sample_sid (replicate 24 0) sample_record"

definition moved_db :: mem_db where
  "moved_db = [(envelopeKey ''work'', marshal_blob moved_envelope)]"

lemma moved_abs:
  "pebble_good map_of (Some moved_db)" "pebble_envs map_of (Some moved_db) ''work'' = Some moved_envelope"
  using put_envelope_in [of Map.empty "''work''" moved_envelope]
    kept_blob_json_clean [OF clean_record_envelope]
  by (simp_all add: moved_db_def moved_envelope_def)

lemma trim_work [simp]: "trim_space ''work'' = ''work''"
  by code_simp

theorem moved_envelope_rejected_witness:
  "(\<exists>e. enc_Get mem_ops plain_guard xchacha20poly1305 background ''work''
      (open_store\<lparr>es_backend := Some (Some moved_db)\<rparr>) = Inl e \<and> errors_is e ErrIntegrity) \<or>
   (\<exists>p ad ad'. ad \<noteq> ad' \<and> xchacha_seal sample_key (replicate 24 0) p ad =
      xchacha_seal sample_key (replicate 24 0) (encoding sample_record) ad')"
  using moved_envelope_rejected [OF me.enc_live_axioms, of
      "open_store\<lparr>es_backend := Some (Some moved_db)\<rparr>" "Some moved_db" sample_key "''work''"
      sample_sid "replicate 24 0" sample_record] moved_abs
  by (simp add: open_store_def moved_envelope_def NonceSizeX_def zero_header_def sample_sid_def
      xchacha20poly1305_def)

end
