(* ===== verification/Pebble_Properties.thy ===== *)
theory Pebble_Properties
  imports Lifecycle_Properties
begin

text \<open>
  What the Pebble backend guarantees over every database with the laws of \<open>pebble_db\<close>, and two
  places where it does not do what its callers rely on: the records' key space is not separate
  from the vault's, and JSON does not keep an RP ID that is not UTF-8.
\<close>

section \<open>Keys\<close>

text \<open>C29: \<open>prefixUpperBound\<close> is exact: for every prefix, also of bytes \<open>0xff\<close>, the keys from the
  prefix to the bound are the keys that start with it.\<close>

theorem prefix_bound_exact:
  "prefix \<le> k \<and> (case prefixUpperBound prefix of None \<Rightarrow> True | Some u \<Rightarrow> k < u) \<longleftrightarrow>
     (\<exists>s. k = prefix @ s)"
  using prefix_range [of "prefix" k] by (simp add: in_range_def)

text \<open>\<open>ListEnvelopes\<close> returns each alias that has an envelope once and nothing else, whatever
  other keys the database holds, those just before and after the prefix included.\<close>

theorem pebble_lists_envelopes:
  assumes "pebble_db P kv" "pebble_ListEnvelopes P c (Some d) = Inr as"
  shows "distinct as \<and> set as = {a. kv d (envelopeKey a) \<noteq> None}"
proof -
  obtain ks where ks: "pb_Iter P d envelopePrefix (prefixUpperBound envelopePrefix) = Inr (ks, None)"
      "as = envelope_aliases ks"
    using assms(2) by (auto simp: pebble_ListEnvelopes_def Let_def db_read_def
        split: option.splits sum.splits prod.splits)
  then show ?thesis
    using list_aliases [of ks "kv d"] pebble_db.iter_ok [OF assms(1) ks(1)] by blast
qed

lemma mem_pebble_db: "pebble_db mem_pebble map_of"
  by unfold_locales

lemma mem_live_backend: "live_backend mem_ops (pebble_hdr map_of) (pebble_envs map_of)
    kept_header_json kept_blob_json (pebble_good map_of) mem_up"
  by unfold_locales

lemma mem_pebble_live: "pebble_live mem_pebble map_of"
  by unfold_locales

theorem pebble_lists_envelopes_witness:
  "\<exists>as. pebble_ListEnvelopes mem_pebble background (Some (moved_db @ held_db)) = Inr as \<and>
     set as = {''work''}"
proof -
  obtain ks where "pb_Iter mem_pebble (moved_db @ held_db) envelopePrefix
      (prefixUpperBound envelopePrefix) = Inr (ks, None)"
    using pebble_live.iter_live [OF mem_pebble_live] by blast
  then obtain as where "pebble_ListEnvelopes mem_pebble background (Some (moved_db @ held_db)) = Inr as"
    by (simp add: pebble_ListEnvelopes_def Let_def db_read_def)
  from pebble_lists_envelopes [OF mem_pebble_db this] this show ?thesis
    by (auto simp: moved_db_def held_db_def split: if_splits)
qed

section \<open>The header\<close>

text \<open>A revision is rotated once: after a successful \<open>CompareAndSwapHeader\<close> from revision
  \<open>old\<close> to a header of another revision, a second one that still expects \<open>old\<close> never succeeds
  and leaves header and envelopes as they are.\<close>

theorem pebble_cas_once:
  assumes "pebble_db P kv" "pebble_good kv s"
    and "pebble_CompareAndSwapHeader P c old h s = (None, s')" "hdr_Revision h \<noteq> old"
    and "pebble_CompareAndSwapHeader P c' old h' s' = (e, s'')"
  shows "e \<noteq> None \<and> pebble_hdr kv s'' = pebble_hdr kv s' \<and> pebble_envs kv s'' = pebble_envs kv s' \<and>
    map_option hdr_Revision (pebble_hdr kv s'') = Some (hdr_Revision h)"
proof -
  have s': "pebble_good kv s'" "pebble_hdr kv s' = Some (kept_header_json h)"
    using pebble_db.cas_step [OF assms(1-3)] by auto
  then show ?thesis using pebble_db.cas_step [OF assms(1) s'(1) assms(5)] assms(4) by auto
qed

theorem pebble_cas_once_witness:
  "\<exists>s' e s''. pebble_CompareAndSwapHeader mem_pebble background 1 (held_header\<lparr>hdr_Revision := 2\<rparr>)
       (Some held_db) = (None, s') \<and>
     pebble_CompareAndSwapHeader mem_pebble background 1 (held_header\<lparr>hdr_Revision := 5\<rparr>) s'
       = (e, s'') \<and> e \<noteq> None \<and>
     map_option hdr_Revision (pebble_hdr map_of s'') = Some 2"
proof -
  obtain s' where s': "pebble_CompareAndSwapHeader mem_pebble background 1
      (held_header\<lparr>hdr_Revision := 2\<rparr>) (Some held_db) = (None, s')"
    using live_backend.cas_live [OF mem_live_backend held_abs(1), of 1 "held_header\<lparr>hdr_Revision := 2\<rparr>"]
      held_abs(2) by (auto simp: pebble_envelope_ops_def)
  obtain e s'' where s'': "pebble_CompareAndSwapHeader mem_pebble background 1
      (held_header\<lparr>hdr_Revision := 5\<rparr>) s' = (e, s'')" by (rule prod.exhaust)
  have "hdr_Revision (held_header\<lparr>hdr_Revision := 2\<rparr>) \<noteq> 1" by simp
  note c = pebble_cas_once [OF mem_pebble_db held_abs(1) s' this s'']
  have "hdr_Revision (held_header\<lparr>hdr_Revision := 2\<rparr>) = 2" by simp
  with c have "e \<noteq> None" "map_option hdr_Revision (pebble_hdr map_of s'') = Some 2"
    by metis+
  with s' s'' show ?thesis by blast
qed

text \<open>C5: Pebble keeps the contract of \<open>EnvelopeBackend\<close> that the encrypted store is verified
  against, over every database whose reads, writes and iterators obey their documented laws: the
  header and the envelopes are the values under their keys, kept as they are but for strings that
  are not UTF-8, and writes that fail have been applied or not.\<close>

theorem pebble_is_envelope_backend:
  assumes "pebble_db P kv"
  shows "envelope_backend (pebble_envelope_ops P) (pebble_hdr kv) (pebble_envs kv)
    kept_header_json kept_blob_json (pebble_good kv)"
  by (rule pebble_db.backend [OF assms])

theorem pebble_is_envelope_backend_witness:
  "envelope_backend (pebble_envelope_ops mem_pebble) (pebble_hdr map_of) (pebble_envs map_of)
     kept_header_json kept_blob_json (pebble_good map_of)"
  by (rule pebble_is_envelope_backend [OF mem_pebble_db])

section \<open>Plain records\<close>

text \<open>C10: A Pebble database of plain records refines the alias map, for every sequence of calls:
  a record is kept in normal form, with an RP ID that is not UTF-8 repaired.\<close>

theorem pebble_store_refines_map:
  assumes "pebble_db P kv" "plain_ok kv s" "do_calls (pebble_ops P) cs s = (as, s')"
  shows "plain_ok kv s' \<and> spec_run plain_stored (plain_recs kv s) cs as (plain_recs kv s')"
  by (rule store_contract.calls_refine [OF pebble_db.plain_contract [OF assms(1)] assms(2,3)])

theorem pebble_store_refines_map_witness:
  "\<exists>as s'. do_calls (pebble_ops mem_pebble) [CPut background sample_record, CList background]
       (Some []) = (as, s') \<and>
     spec_run plain_stored Map.empty [CPut background sample_record, CList background] as
       (plain_recs map_of s')"
proof -
  obtain as s' where r: "do_calls (pebble_ops mem_pebble)
      [CPut background sample_record, CList background] (Some []) = (as, s')"
    by (rule prod.exhaust)
  have "plain_ok map_of (Some [])" "plain_recs map_of (Some []) = Map.empty"
    by (simp_all add: plain_ok_def plain_recs_def fun_eq_iff)
  with pebble_store_refines_map [OF mem_pebble_db _ r] r show ?thesis by auto
qed

text \<open>C35: The plain records of a database that also holds a vault are not separate from it:
  \<open>List\<close> reports the header's key as an alias, and a record put under that alias makes
  \<open>CreateHeader\<close> report \<open>ErrExists\<close>.\<close>

theorem pebble_namespace_shared:
  assumes "pebble_db P kv" "pebble_good kv (Some d)"
  shows "(pebble_hdr kv (Some d) \<noteq> None \<longrightarrow> pebble_List P c (Some d) = Inr as \<longrightarrow>
      str_of encryptionHeaderKey \<in> set as) \<and>
    (rec_Alias r = str_of encryptionHeaderKey \<longrightarrow> pebble_Put P c r (Some d) = (None, Some d') \<longrightarrow>
      fst (pebble_CreateHeader P c' h (Some d')) \<noteq> None)"
proof (intro conjI impI)
  assume h: "pebble_hdr kv (Some d) \<noteq> None" and l: "pebble_List P c (Some d) = Inr as"
  obtain ks where ks: "pb_Iter P d [] None = Inr (ks, None)" "as = map str_of ks"
    using l by (auto simp: pebble_List_def Let_def db_read_def
        split: option.splits sum.splits prod.splits)
  have "encryptionHeaderKey \<in> dom (kv d)"
    using h hdr_in_None [of "kv d"] assms(2) by (simp add: domIff del: not_None_eq)
  then show "str_of encryptionHeaderKey \<in> set as"
    using pebble_db.iter_ok [OF assms(1) ks(1)] ks(2) by (auto simp: in_range_def)
next
  assume r: "rec_Alias r = str_of encryptionHeaderKey"
    and p: "pebble_Put P c r (Some d) = (None, Some d')"
  have t: "trim_space (str_of encryptionHeaderKey) = str_of encryptionHeaderKey"
    by code_simp
  have "\<exists>v. kv d' encryptionHeaderKey = Some v"
    using p r t pebble_db.insert_new_cases [OF assms(1)]
    by (fastforce simp: pebble_Put_eq split: option.splits)
  then obtain v where v: "kv d' encryptionHeaderKey = Some v" by blast
  show "fst (pebble_CreateHeader P c' h (Some d')) \<noteq> None"
  proof (cases "ctx_Err c'")
    case None
    obtain e s where e: "insert_new P encryptionHeaderKey (marshal_header h)
        ''pebble get encryption header: %w'' ''pebble set encryption header: %w'' (Some d') = (e, s)"
      by (rule prod.exhaust)
    from pebble_db.insert_new_cases [OF assms(1) e] v e None show ?thesis
      by (auto simp: CreateHeader_eq)
  qed (simp add: CreateHeader_eq)
qed

theorem pebble_namespace_shared_witness:
  "\<exists>as. pebble_List mem_pebble background (Some held_db) = Inr as \<and>
     str_of encryptionHeaderKey \<in> set as"
proof -
  obtain ks where "pb_Iter mem_pebble held_db [] None = Inr (ks, None)"
    using pebble_live.iter_live [OF mem_pebble_live] by blast
  then obtain as where "pebble_List mem_pebble background (Some held_db) = Inr as"
    by (simp add: pebble_List_def Let_def db_read_def)
  with pebble_namespace_shared [OF mem_pebble_db held_abs(1), of background as] held_abs(2)
  show ?thesis by auto
qed

section \<open>An RP ID that is not UTF-8\<close>

lemma lp_eq [simp]: "lp v = lp w \<longleftrightarrow> v = w"
proof
  assume eq: "lp v = lp w"
  then have "length (lp v) = length (lp w)" by simp
  then have "length v = length w" by simp
  then show "v = w" using eq by (simp add: lp_def)
qed simp

lemma headerAAD_rpid:
  assumes "hdr_Version h = hdr_Version h'" "hdr_Revision h = hdr_Revision h'"
    "hdr_StoreID h = hdr_StoreID h'" "ref_CredentialID (hdr_KEK h) = ref_CredentialID (hdr_KEK h')"
    "ref_Salt (hdr_KEK h) = ref_Salt (hdr_KEK h')" "headerAAD h = headerAAD h'"
  shows "ref_RPID (hdr_KEK h) = ref_RPID (hdr_KEK h')"
  using assms by (simp add: headerAAD_eq del: be_bytes.simps)

text \<open>C34: An RP ID that is not valid UTF-8 locks the vault for good: \<open>Initialize\<close> accepts it and
  seals the DEK with it as additional data, but the header that Pebble persists as JSON carries
  another RP ID. \<open>Unlock\<close> then succeeds only if one ciphertext authenticates under two different
  additional data.\<close>

theorem rpid_not_utf8_locks_vault:
  assumes "pebble_live P kv" "sealing M content A"
    and "es_backend s = Some b" "pebble_good kv b"
    and "enc_Initialize (pebble_envelope_ops P) M A g c ref kek s = (None, s')"
    and "\<not> valid_utf8 (trim_space (ref_RPID ref))"
  shows "\<exists>h k d. es_header s' = h \<and> kek = Some k \<and> es_dek s' = Some d \<and>
    headerAAD (kept_header_json h) \<noteq> headerAAD h \<and>
    (enc_Unlock (pebble_envelope_ops P) M A c' (Some k') (enc_Lock s') = (None, s'') \<longrightarrow>
      (\<exists>p. ae_Seal A (content k') (blob_Nonce (hdr_WrappedDEK h)) p (headerAAD (kept_header_json h)) =
        ae_Seal A (content k) (blob_Nonce (hdr_WrappedDEK h)) (content d) (headerAAD h)))"
proof -
  have ov: "enc_over (pebble_envelope_ops P) (pebble_hdr kv) (pebble_envs kv) kept_header_json
      kept_blob_json (pebble_good kv) M content A"
    using pebble_db.backend [OF pebble_live.axioms(1) [OF assms(1)]] assms(2) by (simp add: enc_over_def)
  obtain b' k d h where i: "es_backend s' = Some b'" "pebble_good kv b'"
      "pebble_hdr kv b' = Some (kept_header_json h)" "es_header s' = h" "es_dek s' = Some d"
      "kek = Some k" "valid_header h" "hdr_KEK h = trim_ref ref" "wraps A (content k) (content d) h"
    using enc_over.initialize_ok [OF ov assms(5,3,4)] by blast
  let ?h = "kept_header_json h"
  have "ref_RPID (hdr_KEK ?h) \<noteq> ref_RPID (hdr_KEK h)"
    using assms(6) i(8) by (simp add: kept_ref_json_def trim_ref_def sanitize_eq_iff)
  then have ne: "headerAAD ?h \<noteq> headerAAD h"
    using headerAAD_rpid [of ?h h] by (auto simp: kept_ref_json_def)
  have w: "hdr_WrappedDEK ?h = hdr_WrappedDEK h"
    using i(7) by (simp add: kept_blob_json_clean valid_header_def)
  have "\<exists>p. ae_Seal A (content k') (blob_Nonce (hdr_WrappedDEK h)) p (headerAAD ?h) =
        ae_Seal A (content k) (blob_Nonce (hdr_WrappedDEK h)) (content d) (headerAAD h)"
    if u: "enc_Unlock (pebble_envelope_ops P) M A c' (Some k') (enc_Lock s') = (None, s'')"
  proof -
    obtain d' where "wraps A (content k') (content d') ?h"
      using enc_over.unlock_ok [OF ov u _ i(2)] i(1,3) by (auto simp: enc_Lock_def)
    then have "blob_Ciphertext (hdr_WrappedDEK h) =
        ae_Seal A (content k') (blob_Nonce (hdr_WrappedDEK h)) (content d') (headerAAD ?h)"
      unfolding wraps_def w by (metis sealed_sel(4))
    moreover have "blob_Ciphertext (hdr_WrappedDEK h) =
        ae_Seal A (content k) (blob_Nonce (hdr_WrappedDEK h)) (content d) (headerAAD h)"
      using i(9) unfolding wraps_def by (metis sealed_sel(4))
    ultimately show ?thesis by metis
  qed
  with i ne show ?thesis by blast
qed

definition bad_ref :: kek_reference where
  "bad_ref = sample_ref\<lparr>ref_RPID := [CHR 0xFF]\<rparr>"

lemma bad_ref_facts:
  "trim_ref bad_ref = bad_ref" "ValidateKEKReference bad_ref = None"
  "\<not> valid_utf8 (trim_space (ref_RPID bad_ref))"
proof -
  have t: "trim_space [CHR 0xFF] = [CHR 0xFF]" by code_simp
  have "sanitize [CHR 0xFF] \<noteq> [CHR 0xFF]" by code_simp
  then have "\<not> valid_utf8 [CHR 0xFF]" using sanitize_eq_iff by blast
  with t show "trim_ref bad_ref = bad_ref" "ValidateKEKReference bad_ref = None"
      "\<not> valid_utf8 (trim_space (ref_RPID bad_ref))"
    by (simp_all add: trim_ref_def bad_ref_def ValidateKEKReference_None sample_ref_def SaltSize_def)
qed

theorem rpid_not_utf8_locks_vault_witness:
  "\<exists>s'. enc_Initialize mem_ops plain_guard xchacha20poly1305 zero_rng background bad_ref
       (Some sample_key) fresh_store = (None, s') \<and>
     headerAAD (kept_header_json (es_header s')) \<noteq> headerAAD (es_header s')"
proof -
  obtain s' where i: "enc_Initialize mem_ops plain_guard xchacha20poly1305 zero_rng background
      bad_ref (Some sample_key) fresh_store = (None, s')"
    using me.initialize_live [of fresh_store "Some []" bad_ref sample_key zero_rng] bad_ref_facts
    by (auto simp: fresh_store_def)
  have "es_backend fresh_store = Some (Some [])" "pebble_good map_of (Some [])"
    by (simp_all add: fresh_store_def)
  from rpid_not_utf8_locks_vault [OF mem_pebble_live plain_sealing this i bad_ref_facts(3)] i
  show ?thesis by blast
qed

end
