(* ===== verification/Secrets_Properties.thy ===== *)
theory Secrets_Properties
  imports Secrets_Api Pebble_Properties
begin

text \<open>
  What the alias API guarantees over every store with the contract of \<open>lib/store.Store\<close>: what
  \<open>Create\<close> stores and when, that a lost first derivation can be made up for, that the same
  secret comes back, and that an alias in use is left alone. The witnesses run it on Pebble in
  memory with a sample authenticator.
\<close>

section \<open>A sample service\<close>

definition sample_device :: device_info where
  "sample_device = \<lparr>di_Index = 0, di_Path = ''usb'', di_Product = [], di_Manufacturer = [],
     di_ProductID = 0, di_VendorID = 0, di_WindowsHello = False\<rparr>"

text \<open>The authenticator numbers its credentials; its secret is the credential with the salt.\<close>

definition sample_authenticator :: "(unit, nat, bytes) authenticator" where
  "sample_authenticator =
     \<lparr>au_CreateCredential = (\<lambda>_ q w.
        (Inr (Some \<lparr>cr_ID = [of_nat w], cr_RPID = co_RPID q, cr_PubKey = []\<rparr>), Suc w)),
      au_Derive = (\<lambda>_ q w. (Inr (Some \<lparr>se_CredentialID = do_CredentialID q, se_Salt = do_Salt q,
        se_HMACSecret = Some (do_CredentialID q @ do_Salt q)\<rparr>), w))\<rparr>"

definition sample_options :: "'s store_ops \<Rightarrow> ('s, unit, nat) secrets_options" where
  "sample_options S =
     \<lparr>so_Store = Some S, so_Devices = Some (\<lambda>_ w. (Inr [sample_device], w)),
      so_Open = Some (\<lambda>_ w. (Inr (), w)), so_Select = Some (\<lambda>_ ds w. (Inr (hd ds), w)),
      so_PIN = Some (\<lambda>_ _ _ w. (Inr ''1234'', w)),
      so_ListOptions = \<lparr>lo_ExcludeWindowsWebAuthn = False\<rparr>, so_RPID = ''example.org'',
      so_RPName = [], so_UserName = []\<rparr>"

definition sample_service :: "'s store_ops \<Rightarrow> ('s, unit, nat) secrets" where
  "sample_service S =
     \<lparr>sx_store = S, sx_devices = (\<lambda>_ w. (Inr [sample_device], w)),
      sx_open = (\<lambda>_ w. (Inr (), w)), sx_select = (\<lambda>_ ds w. (Inr (hd ds), w)),
      sx_pin = (\<lambda>_ _ _ w. (Inr ''1234'', w)),
      sx_listOpts = \<lparr>lo_ExcludeWindowsWebAuthn = False\<rparr>, sx_rpID = ''example.org'',
      sx_rpName = ''hmacsecret'', sx_userName = ''hmac-secret''\<rparr>"

lemma sample_New: "secrets_New ld od (sample_options S) = Inr (sample_service S)"
  by (simp add: secrets_New_def sample_options_def sample_service_def Let_def)

lemma sample_store [simp]: "sx_store (sample_service S) = S"
  by (simp add: sample_service_def)

lemma sample_rpID [simp]: "sx_rpID (sample_service S) = ''example.org''"
  by (simp add: sample_service_def)

lemma sample_service_ok [simp]: "service_ok (sample_service S)"
  by (rule New_ok [OF sample_New])

lemma trim_usb [simp]: "trim_space ''usb'' = ''usb''"
  by code_simp

lemma sample_open [simp]:
  "openSelected (sample_service S) background op w = (Inr ((), ''1234''), w)"
  by (simp add: openSelected_def sample_service_def sample_device_def)

abbreviation mem_store :: "mem_db option store_ops" where
  "mem_store \<equiv> pebble_ops mem_pebble"

interpretation api: alias_api "sample_service mem_store" "plain_recs map_of" plain_stored
  "plain_ok map_of"
  using pebble_db.plain_contract [OF mem_pebble_db]
  by (simp add: alias_api_def alias_api_axioms_def)

interpretation sa: prf_authenticator sample_authenticator "\<lambda>e. e" "\<lambda>_ _ i s. i @ s"
  by unfold_locales (auto simp: sample_authenticator_def)

lemma empty_plain [simp]: "plain_ok map_of (Some [])" "plain_recs map_of (Some []) = Map.empty"
  by (simp_all add: plain_ok_def plain_recs_def fun_eq_iff)

text \<open>\<open>Create\<close> of the alias \<open>mail\<close> in the empty database.\<close>

definition sample_salt :: bytes where
  "sample_salt = replicate 32 0"

lemma sample_rand: "rand_Read zero_rng 0 SaltSize = Inr sample_salt"
  by (simp add: rand_Read_def sample_salt_def SaltSize_def map_replicate_const zero_rng_def)

lemma sample_create:
  "\<exists>s'. secrets_Create (sample_service mem_store) sample_authenticator zero_rng background ''mail''
     (Some [], 7) = (Inr (Some (7 # sample_salt)), (s', 8)) \<and> s' \<noteq> None"
proof -
  let ?c = "\<lparr>cr_ID = [7], cr_RPID = ''example.org'', cr_PubKey = []\<rparr> :: credential"
  let ?r = "new_record (sample_service mem_store) ''mail'' ?c sample_salt"
  have "live_store mem_store (plain_recs map_of) plain_stored (plain_ok map_of) (\<lambda>s. s \<noteq> None) (\<lambda>_. True)"
    by (rule pebble_live.plain_live_contract [OF mem_pebble_live])
  note live = live_store.put_live [OF this, of "Some []" ?r]
  have "valid_record ?r"
    by (subst api.new_record_valid) (simp_all add: sample_salt_def SaltSize_def)
  then obtain s' where "st_Put mem_store background ?r (Some []) = (None, s')" "s' \<noteq> None"
    using live by auto
  moreover have "st_Has mem_store background ''mail'' (Some []) = Inr False"
    by (simp add: pebble_ops_def pebble_Has_def db_read_def mem_pebble_def)
  moreover obtain t d where "au_Derive sample_authenticator () (derive_request ?r ''1234'') 8 = (t, d)"
    by (rule prod.exhaust)
  ultimately show ?thesis
    using create_runs [OF sample_rand, of "''mail''" "sample_service mem_store" background
        "Some []" 7 "()" "''1234''" 7 sample_authenticator ?c 8 None s']
    by (auto simp: create_put_def sample_authenticator_def create_request_def derive_request_def
        new_record_def reported_def)
qed

section \<open>Create\<close>

text \<open>C9: When \<open>Create\<close> returns a secret, the alias was free, a credential was made for it, the
  store now holds that credential with a salt just drawn and the service's RP ID under the alias
  and is otherwise as it was, and the secret is what the same authenticator derived for exactly
  that record.\<close>

theorem create_stores_credential:
  assumes "alias_api x recs stored ok" "ok s"
    and "secrets_Create x U g c a (s, w) = (Inr v, (s', w'))"
  shows "\<exists>salt auth pin w1 cred w2 sec. recs s (trim_space a) = None \<and>
    rand_Read g 0 SaltSize = Inr salt \<and>
    openSelected x (later c) OpCreate w = (Inr (auth, pin), w1) \<and>
    au_CreateCredential U auth (create_request x pin) w1 = (Inr (Some cred), w2) \<and>
    ok s' \<and> recs s' = (recs s)(trim_space a \<mapsto> stored (new_record x a cred salt)) \<and>
    au_Derive U auth (derive_request (new_record x a cred salt) pin) w2 = (Inr (Some sec), w') \<and>
    v = se_HMACSecret sec"
  by (rule alias_api.create_returns [OF assms]) blast

theorem create_stores_credential_witness:
  "\<exists>s' salt cred. secrets_Create (sample_service mem_store) sample_authenticator zero_rng background
       ''mail'' (Some [], 7) = (Inr (Some (7 # sample_salt)), (s', 8)) \<and>
     plain_recs map_of s' = [''mail'' \<mapsto> plain_stored (new_record (sample_service mem_store) ''mail'' cred salt)]"
proof -
  obtain s' where s': "secrets_Create (sample_service mem_store) sample_authenticator zero_rng
      background ''mail'' (Some [], 7) = (Inr (Some (7 # sample_salt)), (s', 8))"
    using sample_create by blast
  from create_stores_credential [OF api.alias_api_axioms empty_plain(1) this] this show ?thesis
    by auto
qed

text \<open>C18: No \<open>Create\<close>, whatever becomes of it, changes or removes a record: all the aliases
  in use keep their records. On an alias in use it fails without a step of the user or the
  authenticator, with \<open>ErrExists\<close> when the store answers.\<close>

theorem create_never_overwrites:
  assumes "alias_api x recs stored ok" "ok s"
    and "secrets_Create x U g c a (s, w) = (res, (s', w'))"
  shows "(\<forall>b r. recs s b = Some r \<longrightarrow> recs s' b = Some r) \<and>
    (recs s (trim_space a) \<noteq> None \<longrightarrow> s' = s \<and> w' = w \<and> (\<exists>e. res = Inl e \<and>
      (\<forall>b. st_Has (sx_store x) c (trim_space a) s = Inr b \<longrightarrow> trim_space a \<noteq> [] \<longrightarrow>
         e = Sentinel SecretsErrExists)))"
proof (intro conjI impI allI)
  show "recs s' b = Some r" if "recs s b = Some r" for b r
    by (rule alias_api.create_keeps [OF assms that])
  assume "recs s (trim_space a) \<noteq> None"
  from alias_api.create_existing [OF assms(1,2) this, of U g c w] obtain e where
      "secrets_Create x U g c a (s, w) = (Inl e, (s, w))"
      "\<forall>b. st_Has (sx_store x) c (trim_space a) s = Inr b \<longrightarrow> trim_space a \<noteq> [] \<longrightarrow>
         e = Sentinel SecretsErrExists"
    by blast
  moreover from this(1) assms(3) have "res = Inl e" "s' = s" "w' = w" by simp_all
  ultimately show "s' = s" "w' = w" "\<exists>e. res = Inl e \<and>
      (\<forall>b. st_Has (sx_store x) c (trim_space a) s = Inr b \<longrightarrow> trim_space a \<noteq> [] \<longrightarrow>
         e = Sentinel SecretsErrExists)"
    by blast+
qed

theorem create_never_overwrites_witness:
  "\<exists>s'. plain_recs map_of s' ''mail'' \<noteq> None \<and>
     (\<exists>e. secrets_Create (sample_service mem_store) sample_authenticator zero_rng background ''mail''
        (s', 8) = (Inl e, (s', 8)))"
proof -
  obtain s' where s': "secrets_Create (sample_service mem_store) sample_authenticator zero_rng
      background ''mail'' (Some [], 7) = (Inr (Some (7 # sample_salt)), (s', 8))"
    using sample_create by blast
  have k: "plain_ok map_of s'" "plain_recs map_of s' ''mail'' \<noteq> None"
    using api.create_returns_map [OF empty_plain(1) s'] by simp_all
  obtain res t w where r: "secrets_Create (sample_service mem_store) sample_authenticator
      zero_rng background ''mail'' (s', 8) = (res, (t, w))" by (rule prod_cases3)
  note n = create_never_overwrites [OF api.alias_api_axioms k(1) r, THEN conjunct2,
      unfolded trim_sample, rule_format, OF k(2)]
  then obtain e where "res = Inl e" by blast
  with n k(2) r show ?thesis by blast
qed

text \<open>C40: Whatever the store and whatever becomes of the call, a \<open>Create\<close> of a service that \<open>New\<close>
  made either leaves the store alone and returns no secret, or puts one record: the trimmed alias,
  the ID of the credential that the device opened for it made for the service's RP ID, the salt just
  drawn, and that RP ID. The record is in the stores' normal form, so no store alters it, and it is valid
  just when the credential has an ID. If it was taken, the secret is derived for exactly these values.\<close>

theorem create_puts_record:
  assumes "secrets_New listDevices openDevice opts = Inr x"
    and "secrets_Create x U g c a (s, w) = (res, (s', w'))"
  shows "s' = s \<and> (\<forall>v. res \<noteq> Inr v) \<or>
    (\<exists>salt auth pin w1 cred w2 e r.
       rand_Read g 0 SaltSize = Inr salt \<and>
       openSelected x (later c) OpCreate w = (Inr (auth, pin), w1) \<and>
       au_CreateCredential U auth \<lparr>co_RPID = sx_rpID x, co_RPName = sx_rpName x,
         co_UserName = sx_userName x, co_UserDisplayName = [], co_UserID = [], co_PIN = pin,
         co_ClientDataJSON = []\<rparr> w1 = (Inr (Some cred), w2) \<and>
       r = \<lparr>rec_Alias = trim_space a, rec_CredentialID = cr_ID cred, rec_Salt = salt, rec_RPID = sx_rpID x\<rparr> \<and>
       st_Put (sx_store x) (later (later (later (later c)))) r s = (e, s') \<and>
       norm_record r = r \<and> (ValidateRecord r = None \<longleftrightarrow> cr_ID cred \<noteq> []) \<and>
       (e = None \<longrightarrow> (\<exists>d. au_Derive U auth \<lparr>do_RPID = sx_rpID x, do_CredentialID = cr_ID cred,
         do_Salt = salt, do_PIN = pin, do_UserPresence = False, do_UserPresenceSet = False,
         do_ClientDataJSON = []\<rparr> w2 = (d, w') \<and>
         (\<forall>v. res = Inr v \<longleftrightarrow> (\<exists>sec. d = Inr (Some sec) \<and> v = se_HMACSecret sec)))) \<and>
       (e \<noteq> None \<longrightarrow> (\<forall>v. res \<noteq> Inr v)))"
  using assms(2)
proof (cases rule: create_cases)
  case (put salt auth pin w1 cred w2 e)
  let ?r = "new_record x a cred salt"
  have n: "norm_record ?r = ?r" "ValidateRecord ?r = None \<longleftrightarrow> cr_ID cred \<noteq> []"
    using New_ok [OF assms(1)] put(2) rand_Read_length [OF put(1)]
    by (auto simp: norm_record_def new_record_def service_ok_def valid_record_def)
  have d: "\<exists>d. au_Derive U auth (derive_request ?r pin) w2 = (d, w') \<and>
      (\<forall>v. res = Inr v \<longleftrightarrow> (\<exists>sec. d = Inr (Some sec) \<and> v = se_HMACSecret sec))" if "e = None"
    using put(7) [OF that] by (force simp: reported_def split: sum.splits option.splits)
  have "e \<noteq> None \<Longrightarrow> res \<noteq> Inr v" for v using put(8) by auto
  with n d put(1,4-6) show ?thesis
    unfolding create_put_def create_request_def derive_request_def new_record_def
    by (intro disjI2 exI [of _ salt] exI [of _ auth] exI [of _ pin] exI [of _ w1] exI [of _ cred]
        exI [of _ w2] exI [of _ e] exI [of _ "\<lparr>rec_Alias = trim_space a, rec_CredentialID = cr_ID cred,
          rec_Salt = salt, rec_RPID = sx_rpID x\<rparr>"]) simp
qed simp

theorem create_puts_record_witness:
  "\<exists>s'. secrets_Create (sample_service mem_store) sample_authenticator zero_rng background
       ''mail'' (Some [], 7) = (Inr (Some (7 # sample_salt)), (s', 8)) \<and>
     st_Put mem_store background \<lparr>rec_Alias = ''mail'', rec_CredentialID = [7],
       rec_Salt = sample_salt, rec_RPID = ''example.org''\<rparr> (Some []) = (None, s')"
proof -
  obtain s' where s': "secrets_Create (sample_service mem_store) sample_authenticator zero_rng
      background ''mail'' (Some [], 7) = (Inr (Some (7 # sample_salt)), (s', 8))"
    using sample_create by blast
  from create_puts_record [OF sample_New s'] s' show ?thesis
    by (auto simp: sample_rand sample_authenticator_def)
qed

section \<open>Derive\<close>

lemma derive_course:
  assumes "alias_api x recs stored ok" "ok s"
    and "secrets_Derive x U c a (s, w) = (res, (s', w'))"
  shows "s' = s \<and>
    (\<forall>v. res = Inr v \<longrightarrow> (\<exists>r auth pin w1 sec. recs s (trim_space a) = Some r \<and>
      openSelected x (later c) OpDerive w = (Inr (auth, pin), w1) \<and>
      au_Derive U auth (derive_request r pin) w1 = (Inr (Some sec), w') \<and>
      v = se_HMACSecret sec)) \<and>
    (recs s (trim_space a) = None \<longrightarrow> w' = w \<and> (\<exists>e. res = Inl e))"
proof (intro conjI allI impI)
  note d = derive_cases [OF assms(3)]
  show "s' = s" using d by simp
  show "\<exists>r auth pin w1 sec. recs s (trim_space a) = Some r \<and>
      openSelected x (later c) OpDerive w = (Inr (auth, pin), w1) \<and>
      au_Derive U auth (derive_request r pin) w1 = (Inr (Some sec), w') \<and>
      v = se_HMACSecret sec" if v: "res = Inr v" for v
  proof -
    obtain r auth pin w1 d where o: "st_Get (sx_store x) c (trim_space a) s = Inr r"
        "openSelected x (later c) OpDerive w = (Inr (auth, pin), w1)"
        "au_Derive U auth (derive_request r pin) w1 = (d, w')"
        "Inr v = reported ''secrets derive fido: %w'' d"
      using d v by blast
    then obtain sec where "d = Inr (Some sec)" "v = se_HMACSecret sec"
      using reported_Inr [of _ d v] by metis
    moreover have st: "store_contract (sx_store x) recs stored ok"
      using assms(1) by (simp add: alias_api_def)
    ultimately show ?thesis using o store_contract.get_ok [OF st assms(2) o(1)] by auto
  qed
  assume "recs s (trim_space a) = None"
  from alias_api.derive_absent [OF assms(1,2) this, of U c w] assms(3)
  show "w' = w" "\<exists>e. res = Inl e" by auto
qed

text \<open>\<open>Derive\<close> never changes the store. A secret that it returns is what an authenticator
  derived for the record that the store has under the alias; without a record it fails before
  the user or an authenticator is asked.\<close>

theorem derive_uses_stored_record:
  assumes "alias_api x recs stored ok" "ok s"
    and "secrets_Derive x U c a (s, w) = (res, (s', w'))"
  shows "s' = s \<and>
    (\<forall>v. res = Inr v \<longrightarrow> (\<exists>r auth pin w1 sec. recs s (trim_space a) = Some r \<and>
      openSelected x (later c) OpDerive w = (Inr (auth, pin), w1) \<and>
      au_Derive U auth (derive_request r pin) w1 = (Inr (Some sec), w') \<and>
      v = se_HMACSecret sec)) \<and>
    (recs s (trim_space a) = None \<longrightarrow> w' = w \<and> (\<exists>e. res = Inl e))"
  by (rule derive_course [OF assms])

theorem derive_uses_stored_record_witness:
  "\<exists>e. secrets_Derive (sample_service mem_store) sample_authenticator background ''mail'' (Some [], 5)
     = (Inl e, (Some [], 5))"
proof -
  obtain res t w where r: "secrets_Derive (sample_service mem_store) sample_authenticator background
      ''mail'' (Some [], 5) = (res, (t, w))" by (rule prod_cases3)
  from derive_uses_stored_record [OF api.alias_api_axioms empty_plain(1) r] r show ?thesis by auto
qed

lemma derived_again:
  assumes "alias_api x recs stored ok" "prf_authenticator U content hmac" "pin_given x"
    and "ok s" "valid_utf8 (sx_rpID x)" "secrets_Create x U g c a (s, w) = (Inr v, (s', w'))"
    and "ok t" "recs t (trim_space a) = recs s' (trim_space a)" "trim_space b = trim_space a"
    and "secrets_Derive x U c' b (t, w1) = (Inr v', (t', w2))"
  shows "v' \<noteq> None \<and> map_option content v' = map_option content v"
proof -
  obtain salt auth pin u1 cred u2 sec where c: "openSelected x (later c) OpCreate w = (Inr (auth, pin), u1)"
      "recs s' = (recs s)(trim_space a \<mapsto> stored (new_record x a cred salt))"
      "au_Derive U auth (derive_request (new_record x a cred salt) pin) u2 = (Inr (Some sec), w')"
      "v = se_HMACSecret sec"
    by (rule alias_api.create_returns [OF assms(1,4,6)]) blast
  have st: "store_contract (sx_store x) recs stored ok" "service_ok x"
    using assms(1) by (auto simp: alias_api_def alias_api_axioms_def)
  have "stored (new_record x a cred salt) = new_record x a cred salt"
    using store_contract.stored_clean [OF st(1), of "new_record x a cred salt"] st(2) assms(5)
    by (simp add: service_ok_def new_record_def norm_record_def)
  with c(2) have m: "recs t (trim_space b) = Some (new_record x a cred salt)"
    using assms(8,9) by simp
  obtain auth' pin' w3 sec' where d: "openSelected x (later c') OpDerive w1 = (Inr (auth', pin'), w3)"
      "au_Derive U auth' (derive_request (new_record x a cred salt) pin') w3 = (Inr (Some sec'), w2)"
      "v' = se_HMACSecret sec'"
    using derive_course [OF assms(1,7,10)] m by auto
  have "pin \<noteq> []" "pin' \<noteq> []" using openSelected_pin [OF _ assms(3)] c(1) d(1) by blast+
  with prf_authenticator.same_secret [OF assms(2) c(3) d(2)]
    prf_authenticator.derive_prf [OF assms(2) d(2)] c(4) d(3)
  show ?thesis by auto
qed

text \<open>C1: The secret that \<open>Create\<close> returned comes back: as long as the alias keeps its record,
  every secret that \<open>Derive\<close> returns for it, whichever device is chosen, is the same, provided
  that the credential's secret is a function of credential, salt and user verification, that a
  PIN is given each time, and that the RP ID is UTF-8.\<close>

theorem create_then_derive_same:
  assumes "alias_api x recs stored ok" "prf_authenticator U content hmac" "pin_given x"
    and "ok s" "valid_utf8 (sx_rpID x)" "secrets_Create x U g c a (s, w) = (Inr v, (s', w'))"
    and "ok t" "recs t (trim_space a) = recs s' (trim_space a)" "trim_space b = trim_space a"
    and "secrets_Derive x U c' b (t, w1) = (Inr v', (t', w2))"
  shows "v' \<noteq> None \<and> map_option content v' = map_option content v"
  by (rule derived_again [OF assms])

lemma sample_pin [simp]: "pin_given (sample_service S)"
  by (simp add: pin_given_def sample_service_def)

lemma valid_example [simp]: "valid_utf8 ''example.org''"
  by code_simp

theorem create_then_derive_same_witness:
  "\<exists>s' v' w. secrets_Create (sample_service mem_store) sample_authenticator zero_rng background
       ''mail'' (Some [], 7) = (Inr (Some (7 # sample_salt)), (s', 8)) \<and>
     secrets_Derive (sample_service mem_store) sample_authenticator background '' mail'' (s', 20)
       = (Inr v', (s', w)) \<and> v' = Some (7 # sample_salt)"
proof -
  have t: "trim_space '' mail'' = ''mail''" by code_simp
  obtain s' where s': "secrets_Create (sample_service mem_store) sample_authenticator zero_rng
      background ''mail'' (Some [], 7) = (Inr (Some (7 # sample_salt)), (s', 8))" "s' \<noteq> None"
    using sample_create by blast
  have k: "plain_ok map_of s'" "plain_recs map_of s' ''mail'' \<noteq> None"
    using api.create_returns_map [OF empty_plain(1) s'(1)] by simp_all
  then obtain r where r: "plain_recs map_of s' ''mail'' = Some r" by blast
  have "live_store mem_store (plain_recs map_of) plain_stored (plain_ok map_of) (\<lambda>s. s \<noteq> None) (\<lambda>_. True)"
    by (rule pebble_live.plain_live_contract [OF mem_pebble_live])
  from live_store.get_live [OF this k(1), of "''mail''" r] r s'(2)
  have g: "st_Get mem_store background ''mail'' s' = Inr r" by simp
  obtain v' w where d: "secrets_Derive (sample_service mem_store) sample_authenticator background
      '' mail'' (s', 20) = (Inr v', (s', w))"
    using derive_runs [of "'' mail''" "sample_service mem_store" background s' r 20 "()" "''1234''" 20
        sample_authenticator] g t
    by (auto simp: sample_authenticator_def reported_def)
  from create_then_derive_same [OF api.alias_api_axioms sa.prf_authenticator_axioms sample_pin
      empty_plain(1) _ s'(1) k(1) _ _ d] t
  have "v' = Some (7 # sample_salt)" by (auto simp: option.map_ident)
  with d s' show ?thesis by blast
qed

text \<open>C19: A \<open>Create\<close> that stored its record and then failed can be made up for: \<open>Derive\<close> of
  the alias, on a store that is up, sends the authenticator the request for that record and
  returns what it answers.\<close>

theorem derive_retries_create:
  assumes "alias_api x recs stored ok" "live_store (sx_store x) recs stored ok up takes" "ok s"
    and "secrets_Create x U g c a (s, w) = (Inl e, (s', w'))" "recs s' \<noteq> recs s" "up s'"
    and "openSelected x background OpDerive w1 = (Inr (auth, pin), w2)"
  shows "\<exists>cred salt. rand_Read g 0 SaltSize = Inr salt \<and>
    recs s' = (recs s)(trim_space a \<mapsto> stored (new_record x a cred salt)) \<and>
    (\<forall>d w3. au_Derive U auth (derive_request (stored (new_record x a cred salt)) pin) w2 = (d, w3) \<longrightarrow>
      secrets_Derive x U background a (s', w1) =
        (reported ''secrets derive fido: %w'' d, (s', w3)))"
proof -
  obtain cred salt where c: "ok s'" "trim_space a \<noteq> []" "rand_Read g 0 SaltSize = Inr salt"
      "recs s' = (recs s)(trim_space a \<mapsto> stored (new_record x a cred salt))"
    using alias_api.create_step [OF assms(1,3,4)] assms(5) by blast
  have "st_Get (sx_store x) background (trim_space a) s' = Inr (stored (new_record x a cred salt))"
    using live_store.get_live [OF assms(2) c(1) assms(6), of "trim_space a"] c(4) by simp
  with derive_runs [OF c(2) this, of w1 auth pin w2 U] assms(7) c show ?thesis
    by (intro exI [of _ cred] exI [of _ salt]) simp
qed

text \<open>The sample authenticator, timing out in the first derivation.\<close>

definition flaky_authenticator :: "(unit, nat, bytes) authenticator" where
  "flaky_authenticator = sample_authenticator\<lparr>au_Derive := (\<lambda>u q w.
     if w = 8 then (Inl (Foreign ''timeout''), 9) else au_Derive sample_authenticator u q w)\<rparr>"

lemma mem_live_store: "live_store mem_store (plain_recs map_of) plain_stored (plain_ok map_of)
    (\<lambda>s. s \<noteq> None) (\<lambda>_. True)"
  by (rule pebble_live.plain_live_contract [OF mem_pebble_live])

lemma mem_live_api: "live_store (sx_store (sample_service mem_store)) (plain_recs map_of) plain_stored
    (plain_ok map_of) (\<lambda>s. s \<noteq> None) (\<lambda>_. True)"
  by (simp add: mem_live_store del: not_None_eq)

lemma flaky_create:
  "\<exists>s' e r. secrets_Create (sample_service mem_store) flaky_authenticator zero_rng background ''mail''
     (Some [], 7) = (Inl e, (s', 9)) \<and> s' \<noteq> None \<and> plain_recs map_of s' = [''mail'' \<mapsto> r]"
proof -
  let ?c = "\<lparr>cr_ID = [7], cr_RPID = ''example.org'', cr_PubKey = []\<rparr> :: credential"
  let ?r = "new_record (sample_service mem_store) ''mail'' ?c sample_salt"
  have "valid_record ?r"
    by (subst api.new_record_valid) (simp_all add: sample_salt_def SaltSize_def)
  then obtain s' where p: "st_Put mem_store background ?r (Some []) = (None, s')" "s' \<noteq> None"
    using live_store.put_live [OF mem_live_store, of "Some []" ?r] by auto
  moreover have "st_Has mem_store background ''mail'' (Some []) = Inr False"
    by (simp add: pebble_ops_def pebble_Has_def db_read_def mem_pebble_def)
  ultimately have "secrets_Create (sample_service mem_store) flaky_authenticator zero_rng background
      ''mail'' (Some [], 7) = (Inl (errorf ''secrets create derive: %w'' (Foreign ''timeout'')), (s', 9))"
    using create_runs [OF sample_rand, of "''mail''" "sample_service mem_store" background
        "Some []" 7 "()" "''1234''" 7 flaky_authenticator ?c 8 None s']
    by (auto simp: create_put_def flaky_authenticator_def sample_authenticator_def create_request_def
        derive_request_def new_record_def reported_def)
  moreover have "plain_recs map_of s' = [''mail'' \<mapsto> plain_stored ?r]"
    using store_contract.put_ok [OF live_store.axioms(1) [OF mem_live_store] empty_plain(1) p(1)]
    by simp
  ultimately show ?thesis using p(2) by blast
qed

theorem derive_retries_create_witness:
  "\<exists>s' v. fst (secrets_Create (sample_service mem_store) flaky_authenticator zero_rng background
       ''mail'' (Some [], 7)) \<noteq> Inr v \<and>
     secrets_Derive (sample_service mem_store) flaky_authenticator background ''mail'' (s', 20)
       = (Inr v, (s', 20))"
proof -
  obtain s' e r where c: "secrets_Create (sample_service mem_store) flaky_authenticator zero_rng
      background ''mail'' (Some [], 7) = (Inl e, (s', 9))" "s' \<noteq> None"
      "plain_recs map_of s' = [''mail'' \<mapsto> r]"
    using flaky_create by blast
  then have "plain_recs map_of s' \<noteq> plain_recs map_of (Some [])" by (simp add: fun_eq_iff)
  from derive_retries_create [OF api.alias_api_axioms mem_live_api empty_plain(1) c(1) this c(2),
      of 20 "()" "''1234''" 20] c(1)
  show ?thesis by (auto simp: flaky_authenticator_def sample_authenticator_def reported_def)
qed

section \<open>Delete\<close>

text \<open>C20: After a successful \<open>Delete\<close> the alias is free and every other record is as it was:
  no \<open>Derive\<close> of it succeeds or asks the user. A \<open>Delete\<close> that reports \<open>ErrNotFound\<close> changed
  nothing and was right.\<close>

theorem delete_frees_alias:
  assumes "alias_api x recs stored ok" "ok s" "secrets_Delete x c a s = (e, s')"
  shows "ok s' \<and>
    (e = None \<longrightarrow> recs s (trim_space a) \<noteq> None \<and> recs s' = (recs s)(trim_space a := None) \<and>
      (\<exists>x'. secrets_Derive x U c' a (s', w) = (Inl x', (s', w)))) \<and>
    (e = Some (Sentinel SecretsErrNotFound) \<longrightarrow> recs s' = recs s \<and> recs s (trim_space a) = None)"
proof (cases "trim_space a = []")
  case True
  with assms(2,3) show ?thesis by (auto simp: secrets_Delete_def ValidateAlias_def)
next
  case False
  have st: "store_contract (sx_store x) recs stored ok" using assms(1) by (simp add: alias_api_def)
  obtain y t where d: "st_Delete (sx_store x) c (trim_space a) s = (y, t)" by fastforce
  show ?thesis
  proof (cases y)
    case None
    then have "e = None" "s' = t" using assms(3) d False by (auto simp: secrets_Delete_def)
    moreover have k: "ok t" "recs s (trim_space a) \<noteq> None" "recs t = (recs s)(trim_space a := None)"
      using store_contract.delete_ok [OF st assms(2) d [unfolded None]] by auto
    moreover have "\<exists>x'. secrets_Derive x U c' a (t, w) = (Inl x', (t, w))"
      by (rule alias_api.derive_absent [OF assms(1) k(1)]) (simp add: k(3))
    ultimately show ?thesis by simp
  next
    case (Some z)
    then have e: "e = Some (if errors_is z StoreErrNotFound then Sentinel SecretsErrNotFound
        else errorf ''secrets delete: %w'' z)" "s' = t"
      using assms(3) d False by (auto simp: secrets_Delete_def split: if_splits)
    have k: "ok t" using store_contract.delete_err [OF st assms(2) d [unfolded Some]] by blast
    show ?thesis
    proof (cases "errors_is z StoreErrNotFound")
      case True
      with store_contract.delete_absent [OF st assms(2) d [unfolded Some]] e k show ?thesis by simp
    next
      case False
      then have "errorf ''secrets delete: %w'' z \<noteq> Sentinel SecretsErrNotFound"
        by (cases z) (auto simp: errorf_def)
      with False e k show ?thesis by simp
    qed
  qed
qed

theorem delete_frees_alias_witness:
  "\<exists>s' t. plain_recs map_of s' ''mail'' \<noteq> None \<and>
     secrets_Delete (sample_service mem_store) background ''mail'' s' = (None, t) \<and>
     plain_recs map_of t ''mail'' = None"
proof -
  obtain s' e r where c: "s' \<noteq> None" "plain_recs map_of s' = [''mail'' \<mapsto> r]"
      "secrets_Create (sample_service mem_store) flaky_authenticator zero_rng background ''mail''
       (Some [], 7) = (Inl e, (s', 9))"
    using flaky_create by blast
  have k: "plain_ok map_of s'" using api.create_step [OF empty_plain(1) c(3)] by simp
  obtain t where "st_Delete mem_store background ''mail'' s' = (None, t)"
    using live_store.delete_live [OF mem_live_store k, of "''mail''" r] c(1,2) by auto
  then have d: "secrets_Delete (sample_service mem_store) background ''mail'' s' = (None, t)"
    by (simp add: secrets_Delete_def)
  from delete_frees_alias [OF api.alias_api_axioms k d, of flaky_authenticator background 9] c(2) d
  show ?thesis by (intro exI [of _ s'] exI [of _ t]) auto
qed

section \<open>A locked vault\<close>

text \<open>C36: \<open>Create\<close> on a locked encrypted store makes the user produce a credential that is then
  lost: \<open>Has\<close> answers while the store is locked, so the device is opened, the PIN asked and the
  credential created before \<open>Put\<close> fails with \<open>ErrLocked\<close>; the store is left as it was.\<close>

theorem create_on_locked_vault:
  assumes "sx_store x = enc_ops B M A h" "es_dek s = None" "trim_space a \<noteq> []"
    and "rand_Read g 0 SaltSize = Inr salt" "enc_Has B background (trim_space a) s = Inr False"
    and "openSelected x background OpCreate w = (Inr (auth, pin), w1)"
    and "au_CreateCredential U auth (create_request x pin) w1 = (Inr (Some cred), w2)"
    and "service_ok x" "cr_ID cred \<noteq> []"
  shows "\<exists>e. secrets_Create x U g background a ((s, k), w) = (Inl e, ((s, Suc k), w2)) \<and>
    errors_is e ErrLocked"
proof -
  let ?r = "new_record x a cred salt"
  have "valid_record ?r" "norm_record ?r = ?r"
    using assms(3,8,9) rand_Read_length [OF assms(4)]
    by (simp_all add: valid_record_def norm_record_def new_record_def service_ok_def)
  then have p: "create_put x background a cred salt (s, k) = (Some (Sentinel ErrLocked), (s, Suc k))"
    using assms(1,2)
    by (simp add: create_put_def enc_ops_def enc_Put_def snapshot_def Let_def norm_record_def)
  have h: "st_Has (sx_store x) background (trim_space a) (s, k) = Inr False"
    using assms(1,5) by (simp add: enc_ops_def)
  obtain d w3 where d: "au_Derive U auth (derive_request ?r pin) w2 = (d, w3)" by fastforce
  show ?thesis
    using create_runs [OF assms(4,3) h _ assms(7) p d, of w] assms(6) by simp
qed

theorem create_on_locked_vault_witness:
  "\<exists>e. secrets_Create (sample_service (enc_ops mem_ops plain_guard xchacha20poly1305 zero_rng))
       sample_authenticator zero_rng background ''mail'' ((fresh_store, 0), 7)
     = (Inl e, ((fresh_store, 1), 8)) \<and> errors_is e ErrLocked"
proof -
  have "enc_Has mem_ops background ''mail'' fresh_store = Inr False"
    by (simp add: enc_Has_def asking_def fresh_store_def pebble_envelope_ops_def
        pebble_HasEnvelope_def db_read_def mem_pebble_def)
  from create_on_locked_vault [of "sample_service (enc_ops mem_ops plain_guard xchacha20poly1305 zero_rng)"
      _ _ _ _ fresh_store "''mail''" zero_rng sample_salt 7 "()" "''1234''" 7 sample_authenticator
      "\<lparr>cr_ID = [7], cr_RPID = ''example.org'', cr_PubKey = []\<rparr>" 8 0] this
  show ?thesis by (simp add: sample_rand sample_authenticator_def create_request_def fresh_store_def)
qed

end
