(* ===== verification/Device_Properties.thy ===== *)
theory Device_Properties
  imports Device Secrets_Properties "HOL-Library.Multiset"
begin

text \<open>
  What discovery promises, that a device derives the same secret again, and that it refuses
  requests that are not well formed before it reaches the authenticator; salts and client data.
\<close>

section \<open>Discovery\<close>

text \<open>What is listed of a location, before it has its index.\<close>

definition location_info :: "platform \<Rightarrow> device_location \<Rightarrow> device_info" where
  "location_info pf l = \<lparr>di_Index = 0, di_Path = dl_Path l, di_Product = dl_Product l,
     di_Manufacturer = dl_Manufacturer l, di_ProductID = dl_ProductID l,
     di_VendorID = dl_VendorID l, di_WindowsHello = isWindowsHello pf (dl_Path l)\<rparr>"

abbreviation no_index :: "device_info \<Rightarrow> device_info" where
  "no_index d \<equiv> d\<lparr>di_Index := 0\<rparr>"

lemma collect_eq:
  "map no_index (collect pf opts ls out) = map no_index out @
     map (location_info pf) (filter (\<lambda>l. platformLocationAllowed pf l (lo_ExcludeWindowsWebAuthn opts)) ls)"
  by (induction ls arbitrary: out) (auto simp: location_info_def)

lemma takeWhile_eq_take:
  assumes "i < length xs" "\<not> P (xs ! i)" "\<forall>j < i. P (xs ! j)"
  shows "takeWhile P xs = take i xs" "dropWhile P xs = xs ! i # drop (Suc i) xs"
proof -
  show t: "takeWhile P xs = take i xs"
    using assms by (intro takeWhile_eq_take_P_nth) auto
  have "take i xs @ dropWhile P xs = take i xs @ drop i xs"
    using takeWhile_dropWhile_id [of P xs] t by (metis append_take_drop_id)
  then show "dropWhile P xs = xs ! i # drop (Suc i) xs"
    using assms(1) by (metis Cons_nth_drop_Suc same_append_eq)
qed

abbreviation plain_key :: "device_info \<Rightarrow> bool" where
  "plain_key d \<equiv> \<not> di_WindowsHello d"

lemma promote_eq:
  "\<forall>j < i. j < length out \<longrightarrow> plain_key (out ! j) \<Longrightarrow>
     promote out i = (case dropWhile plain_key out of [] \<Rightarrow> out
       | h # r \<Rightarrow> h # takeWhile plain_key out @ r)"
proof (induction out i rule: promote.induct)
  case (1 out i)
  consider "length out \<le> i" | "i < length out" "plain_key (out ! i)"
    | "i < length out" "di_WindowsHello (out ! i)" by linarith
  then show ?case
  proof cases
    case 1
    then have "\<forall>d \<in> set out. plain_key d" using "1.prems" by (auto simp: in_set_conv_nth)
    then have "dropWhile plain_key out = []" by simp
    then show ?thesis using 1 by (subst promote.simps) (simp del: dropWhile_eq_Nil_conv)
  next
    case 2
    then have "promote out (Suc i) = (case dropWhile plain_key out of [] \<Rightarrow> out
       | h # r \<Rightarrow> h # takeWhile plain_key out @ r)"
      using 1 by (auto simp: less_Suc_eq)
    with 2 show ?thesis by (subst promote.simps) simp
  next
    case 3
    with "1.prems" have "takeWhile plain_key out = take i out"
        "dropWhile plain_key out = out ! i # drop (Suc i) out"
      using takeWhile_eq_take [of i out plain_key] by auto
    then have "(case dropWhile plain_key out of [] \<Rightarrow> out | h # r \<Rightarrow> h # takeWhile plain_key out @ r)
        = out ! i # take i out @ drop (Suc i) out" by simp
    moreover have "promote out i = out ! i # take i out @ drop (Suc i) out"
      using 3 Cons_nth_drop_Suc [of 0 out] by (subst promote.simps) (cases i, auto)
    ultimately show ?thesis by simp
  qed
qed

lemma promote_0:
  "promote out 0 = (case dropWhile plain_key out of [] \<Rightarrow> out
     | h # r \<Rightarrow> h # takeWhile plain_key out @ r)"
  by (rule promote_eq) simp

lemma promote_facts:
  "mset (promote out 0) = mset out"
  "filter plain_key (promote out 0) = filter plain_key out"
  "\<exists>d \<in> set out. di_WindowsHello d \<Longrightarrow> di_WindowsHello (hd (promote out 0))"
proof -
  have s: "out = takeWhile plain_key out @ dropWhile plain_key out" by simp
  show "mset (promote out 0) = mset out"
    using arg_cong [OF s, of mset]
    by (cases "dropWhile plain_key out") (simp_all add: promote_0 del: dropWhile_eq_Nil_conv)
  show "filter plain_key (promote out 0) = filter plain_key out"
  proof (cases "dropWhile plain_key out")
    case (Cons h r)
    then have "di_WindowsHello h" using hd_dropWhile [of plain_key out] by simp
    with Cons show ?thesis using arg_cong [OF s, of "filter plain_key"] by (simp add: promote_0)
  qed (simp add: promote_0 del: dropWhile_eq_Nil_conv)
  assume "\<exists>d \<in> set out. di_WindowsHello d"
  then have "dropWhile plain_key out \<noteq> []" by auto
  then show "di_WindowsHello (hd (promote out 0))"
    using hd_dropWhile [of plain_key out] by (cases "dropWhile plain_key out") (auto simp: promote_0)
qed

lemma hello_no_index: "no_index d = no_index e \<Longrightarrow> di_WindowsHello d = di_WindowsHello e"
  by (drule arg_cong [of _ _ di_WindowsHello]) simp

lemma reindex_facts:
  "length (reindex out) = length out"
  "map di_Index (reindex out) = map int [0..<length out]"
  "map no_index (reindex out) = map no_index out"
proof -
  show l: "length (reindex out) = length out" by (simp add: reindex_def)
  show "map di_Index (reindex out) = map int [0..<length out]"
    by (rule nth_equalityI) (simp_all add: reindex_def nth_enumerate_eq)
  show "map no_index (reindex out) = map no_index out"
    by (rule nth_equalityI) (simp_all add: reindex_def nth_enumerate_eq)
qed

text \<open>C37: \<open>ListDevices\<close> returns exactly the locations that the platform admits, each once with
  its own data, numbered from 0 in their order; a Windows broker among them comes first, and the
  other devices keep the order in which they were found. Without any it reports an error.\<close>

theorem list_devices_order:
  assumes "ListDevices pf F opts w = (Inr ds, w')"
  shows "\<exists>ls. fd_DeviceLocations F w = (Inr ls, w') \<and> ds \<noteq> [] \<and>
    map di_Index ds = map int [0..<length ds] \<and>
    (let adm = map (location_info pf)
       (filter (\<lambda>l. platformLocationAllowed pf l (lo_ExcludeWindowsWebAuthn opts)) ls) in
     mset (map no_index ds) = mset adm \<and>
     filter plain_key (map no_index ds) = filter plain_key adm \<and>
     ((\<exists>d \<in> set adm. di_WindowsHello d) \<longrightarrow> di_WindowsHello (ds ! 0)))"
proof -
  obtain ls where ls: "fd_DeviceLocations F w = (Inr ls, w')" "collect pf opts ls [] \<noteq> []"
      "ds = reindex (promote (collect pf opts ls []) 0)"
    using assms by (auto simp: ListDevices_def Let_def split: sum.splits prod.splits if_splits)
  let ?out = "collect pf opts ls []" and ?adm = "map (location_info pf)
       (filter (\<lambda>l. platformLocationAllowed pf l (lo_ExcludeWindowsWebAuthn opts)) ls)"
  have c: "map no_index ?out = ?adm" using collect_eq [of pf opts ls "[]"] by simp
  have m: "mset (map no_index ds) = mset ?adm"
    using promote_facts(1) [of ?out] by (simp add: ls(3) reindex_facts(3) c flip: mset_map)
       (simp add: c [symmetric])
  have f: "filter plain_key (map no_index xs) = map no_index (filter plain_key xs)" for xs
    by (induction xs) auto
  have k: "filter plain_key (map no_index ds) = filter plain_key ?adm"
    by (simp only: ls(3) reindex_facts(3) f promote_facts(2)) (simp only: f [symmetric] c)
  have n: "ds \<noteq> []"
  proof -
    have "?adm \<noteq> []" using c ls(2) by (metis Nil_is_map_conv)
    with m show "ds \<noteq> []" by auto
  qed
  have h: "di_WindowsHello (ds ! 0)" if "\<exists>d \<in> set ?adm. di_WindowsHello d"
  proof -
    have "\<exists>d \<in> set ?out. di_WindowsHello d" using that unfolding c [symmetric] by auto
    then have "di_WindowsHello (hd (promote ?out 0))" by (rule promote_facts(3))
    moreover have "promote ?out 0 \<noteq> []"
      using n ls(3) reindex_facts(1) [of "promote ?out 0"] by (metis length_0_conv)
    then have "no_index (ds ! 0) = no_index (hd (promote ?out 0))"
      using n arg_cong [OF reindex_facts(3) [of "promote ?out 0"], of hd] ls(3)
      by (simp add: hd_map hd_conv_nth)
    ultimately show ?thesis using hello_no_index [of "ds ! 0"] by blast
  qed
  have i: "map di_Index ds = map int [0..<length ds]"
    using ls(3) reindex_facts(1,2) by metis
  show ?thesis using ls(1) n i m k h by (simp add: Let_def)
qed

text \<open>Two locations, the broker second.\<close>

definition sample_locations :: "device_location list" where
  "sample_locations =
     [\<lparr>dl_Path = ''usb'', dl_ProductID = 1, dl_VendorID = 2, dl_Manufacturer = [], dl_Product = []\<rparr>,
      \<lparr>dl_Path = ''windows://hello'', dl_ProductID = 1, dl_VendorID = 2, dl_Manufacturer = [],
        dl_Product = []\<rparr>]"

definition sample_fido :: "(string, nat, bytes) fido_api" where
  "sample_fido =
     \<lparr>fd_DeviceLocations = (\<lambda>w. (Inr sample_locations, w)), fd_NewDevice = (\<lambda>p w. (Inr p, w)),
      fd_IsFIDO2 = (\<lambda>_ w. (Inr True, w)),
      fd_MakeCredential = (\<lambda>_ _ _ _ _ _ _ w. (Inr \<lparr>at_CredentialID = [of_nat w], at_PubKey = []\<rparr>, Suc w)),
      fd_Assertion = (\<lambda>_ _ _ cs _ q w. (Inr (Some (hd cs @ as_HMACSalt q)), w))\<rparr>"

lemma hello_paths [simp]:
  "isWindowsHello WindowsLibfido2 ''windows://hello''" "\<not> isWindowsHello WindowsLibfido2 ''usb''"
  by code_simp+

lemma sample_list:
  "\<exists>ds. ListDevices WindowsLibfido2 sample_fido \<lparr>lo_ExcludeWindowsWebAuthn = False\<rparr> w = (Inr ds, w) \<and>
     map di_Path ds = [''windows://hello'', ''usb'']"
  by (simp add: ListDevices_def sample_fido_def sample_locations_def platformLocationAllowed_def
      promote_0 reindex_def enumerate_Suc_eq Let_def)

theorem list_devices_order_witness:
  "\<exists>ds. ListDevices WindowsLibfido2 sample_fido \<lparr>lo_ExcludeWindowsWebAuthn = False\<rparr> 0 = (Inr ds, 0) \<and>
     map di_Index ds = map int [0..<length ds] \<and> di_WindowsHello (ds ! 0)"
proof -
  obtain ds where l: "ListDevices WindowsLibfido2 sample_fido \<lparr>lo_ExcludeWindowsWebAuthn = False\<rparr> 0
      = (Inr ds, 0)" using sample_list by blast
  from list_devices_order [OF l] have "map di_Index ds = map int [0..<length ds] \<and> di_WindowsHello (ds ! 0)"
    by (auto simp: sample_fido_def sample_locations_def platformLocationAllowed_def Let_def
        location_info_def)
  with l show ?thesis by blast
qed

text \<open>\<open>OpenIndex\<close> opens the device that \<open>ListDevices\<close> shows under the index, by its path, and
  refuses every other index, negative ones included, with \<open>ErrInvalidArgument\<close> without opening a
  device.\<close>

theorem open_index_opens_listed:
  assumes "ListDevices pf F opts w = (Inr ds, w1)"
  shows "if 0 \<le> i \<and> i < int (length ds)
    then device_OpenIndex pf F i opts w = device_Open F (di_Path (ds ! nat i)) w1 \<and>
      (\<forall>dv w'. device_OpenIndex pf F i opts w = (Inr dv, w') \<longrightarrow> dv_path dv = di_Path (ds ! nat i))
    else \<exists>e. device_OpenIndex pf F i opts w = (Inl e, w1) \<and> errors_is e ErrInvalidArgument"
proof -
  have p: "dv_path dv = x" if "device_Open F x w1 = (Inr dv, w')" for x dv w'
    using that by (auto simp: device_Open_def split: sum.splits prod.splits if_splits)
  show ?thesis using assms p by (auto simp: device_OpenIndex_def)
qed

theorem open_index_opens_listed_witness:
  "\<exists>dv. device_OpenIndex WindowsLibfido2 sample_fido 1 \<lparr>lo_ExcludeWindowsWebAuthn = False\<rparr> 0 = (Inr dv, 0) \<and>
     dv_path dv = ''usb''"
proof -
  obtain ds where l: "ListDevices WindowsLibfido2 sample_fido \<lparr>lo_ExcludeWindowsWebAuthn = False\<rparr> 0
      = (Inr ds, 0)" "map di_Path ds = [''windows://hello'', ''usb'']"
    using sample_list [of 0] by (elim exE conjE) (rule that)
  have "length ds = 2" using arg_cong [OF l(2), of length] by simp
  moreover have "di_Path (ds ! 1) = ''usb''"
    using arg_cong [OF l(2), of "\<lambda>xs. xs ! 1"] \<open>length ds = 2\<close> by simp
  ultimately show ?thesis using open_index_opens_listed [OF l(1), of 1]
    by (simp add: device_Open_def sample_fido_def)
qed

section \<open>Secrets\<close>

text \<open>What a derivation that succeeds has done.\<close>

lemma device_Derive_cases:
  assumes "device_Derive F M g d q w = (Inr (Some sec), w')"
  obtains dev challenge data up w1 hs where "Option.bind d dv_device = Some dev"
    "trim_space (do_RPID q) \<noteq> []" "do_CredentialID q \<noteq> []" "length (do_Salt q) = HmacSaltSize"
    "fd_IsFIDO2 F dev w = (Inr True, w1)" "randomBytes g 0 32 = Inr challenge"
    "fd_Assertion F dev (trim_space (do_RPID q)) challenge [do_CredentialID q] (do_PIN q)
       \<lparr>as_Extensions = [HMACSecretExtension], as_UP = up, as_HMACSalt = do_Salt q,
        as_ClientDataJSON = data\<rparr> w1 = (Inr (Some hs), w')"
    "mg_Size M hs \<noteq> 0"
    "sec = \<lparr>se_CredentialID = do_CredentialID q, se_Salt = do_Salt q, se_HMACSecret = Some hs\<rparr>"
  using assms
  by (auto simp: device_Derive_def device_IsFIDO2_def Let_def
      split: option.splits sum.splits prod.splits if_splits)

text \<open>The binding honours the hmac-secret extension. So a device does as an \<open>Authenticator\<close>.\<close>

locale fido_prf =
  fixes F :: "('d, 'w, 'e) fido_api" and M :: "'e memguard" and g :: rng
    and content :: "'e \<Rightarrow> bytes" and hmac :: "bool \<Rightarrow> string \<Rightarrow> bytes \<Rightarrow> bytes \<Rightarrow> bytes"
  assumes assertion_prf: "fd_Assertion F dev rp ch [cred] pin q w = (Inr (Some hs), w') \<Longrightarrow>
    HMACSecretExtension \<in> set (as_Extensions q) \<Longrightarrow>
    content hs = hmac (pin \<noteq> []) rp cred (as_HMACSalt q)"
begin

lemma device_prf:
  assumes "device_Derive F M g' d q w = (Inr (Some sec), w')"
  shows "map_option content (se_HMACSecret sec) =
    Some (hmac (do_PIN q \<noteq> []) (trim_space (do_RPID q)) (do_CredentialID q) (do_Salt q))"
  using assms
proof (cases rule: device_Derive_cases)
  case (1 dev challenge data up w1 hs)
  from assertion_prf [OF 1(7)] 1(9) show ?thesis by simp
qed

end

sublocale fido_prf \<subseteq> dev: prf_authenticator "device_authenticator F M g" content
  "\<lambda>v rp. hmac v (trim_space rp)"
proof
  show "map_option content (se_HMACSecret sec) = Some (hmac (do_PIN q \<noteq> [])
      (trim_space (do_RPID q)) (do_CredentialID q) (do_Salt q))"
    if "au_Derive (device_authenticator F M g) auth q w = (Inr (Some sec), w')" for auth q w sec w'
    using that device_prf
    by (auto simp: device_authenticator_def split: prod.splits simp del: map_option_eq_Some)
qed

interpretation sf: fido_prf sample_fido plain_guard zero_rng "\<lambda>e. e" "\<lambda>_ _ c s. c @ s"
  by unfold_locales (auto simp: sample_fido_def)

lemma CreateAndDerive_cases:
  assumes "device_CreateAndDerive F M g d create salt pin w = (Inr (Some sec), w')"
  obtains cred w1 salt' where
    "device_CreateCredential F g d (create\<lparr>co_PIN := pin\<rparr>) w = (Inr (Some cred), w1)"
    "salt \<noteq> [] \<Longrightarrow> salt' = salt"
    "device_Derive F M (rng_from g (create_reads create + (if length salt = 0 then 1 else 0))) d
       \<lparr>do_RPID = co_RPID create, do_CredentialID = cr_ID cred, do_Salt = salt', do_PIN = pin,
        do_UserPresence = False, do_UserPresenceSet = False, do_ClientDataJSON = []\<rparr> w1
       = (Inr (Some sec), w')"
  using assms
  by (auto simp: device_CreateAndDerive_def create_reads_def Let_def
      split: option.splits sum.splits prod.splits if_splits)

text \<open>The secret that \<open>CreateAndDerive\<close> returns can be derived again, on any handle and in
  any later state of the outside, from what it returns with it: the credential ID and the salt,
  with the same RP ID up to white space and a PIN or none as before. The salt it returns is the
  one given, or one of the required size.\<close>

theorem create_and_derive_reproducible:
  assumes "fido_prf F content hmac"
    and "device_CreateAndDerive F M g d create salt pin w = (Inr (Some sec), w')"
    and "device_Derive F M g' d' q w1 = (Inr (Some sec'), w2)"
    and "do_CredentialID q = se_CredentialID sec" "do_Salt q = se_Salt sec"
      "trim_space (do_RPID q) = trim_space (co_RPID create)" "do_PIN q = [] \<longleftrightarrow> pin = []"
  shows "se_HMACSecret sec \<noteq> None \<and>
    map_option content (se_HMACSecret sec') = map_option content (se_HMACSecret sec) \<and>
    length (se_Salt sec) = HmacSaltSize \<and> (salt \<noteq> [] \<longrightarrow> se_Salt sec = salt)"
  using assms(2)
proof (cases rule: CreateAndDerive_cases)
  case (1 cred w1 salt')
  note d = fido_prf.device_prf [OF assms(1) 1(3)] fido_prf.device_prf [OF assms(1,3)]
  from 1(3) have "se_CredentialID sec = cr_ID cred" "se_Salt sec = salt'" "length salt' = HmacSaltSize"
    by (auto elim!: device_Derive_cases)
  with d 1(2) assms(4-7) show ?thesis by auto
qed

lemma plain_size [simp]: "mg_Size plain_guard = length"
  by (simp add: plain_guard_def)

definition sample_create_options :: create_options where
  "sample_create_options = \<lparr>co_RPID = '' example.org'', co_RPName = [], co_UserName = [],
     co_UserDisplayName = [], co_UserID = [], co_PIN = [], co_ClientDataJSON = [1]\<rparr>"

lemma trim_lead [simp]: "trim_space '' example.org'' = ''example.org''"
  by code_simp

abbreviation sample_handle :: "string fido_device option" where
  "sample_handle \<equiv> Some \<lparr>dv_path = ''usb'', dv_device = Some ''usb''\<rparr>"

lemma sample_random: "randomBytes zero_rng k n = Inr (replicate n 0)"
  by (simp add: randomBytes_def rand_Read_def zero_rng_def map_replicate_const)

lemma sample_device_create:
  "device_CreateCredential sample_fido zero_rng sample_handle (sample_create_options\<lparr>co_PIN := p\<rparr>) 7
     = (Inr (Some \<lparr>cr_ID = [7], cr_RPID = ''example.org'', cr_PubKey = []\<rparr>), 8)"
  by (simp add: device_CreateCredential_def device_IsFIDO2_def sample_fido_def client_data_def
      sample_create_options_def sample_random Let_def)

lemma rng_from_zero [simp]: "rng_from zero_rng k = zero_rng"
  by (simp add: rng_from_def zero_rng_def)

lemma client_data_get: "\<exists>b. client_data [] ''webauthn.get'' (replicate 32 0) ''example.org'' = Inr b"
  by (simp add: client_data_def MakeClientDataJSON_def)

lemma sample_device_derive:
  assumes "length c = 1" "length s = HmacSaltSize" "do_CredentialID q = c" "do_Salt q = s"
    "trim_space (do_RPID q) = ''example.org''" "do_ClientDataJSON q = []"
  shows "device_Derive sample_fido plain_guard zero_rng sample_handle q w
    = (Inr (Some \<lparr>se_CredentialID = c, se_Salt = s, se_HMACSecret = Some (c @ s)\<rparr>), w)"
proof -
  obtain b where "client_data [] ''webauthn.get'' (replicate 32 0) ''example.org'' = Inr b"
    using client_data_get by blast
  moreover have "c \<noteq> []" "s \<noteq> []" using assms(1,2) by (auto simp: HmacSaltSize_def)
  ultimately show ?thesis
    using assms
    by (simp add: device_Derive_def device_IsFIDO2_def sample_fido_def sample_random validateSalt_def Let_def)
qed

lemma sample_create_and_derive:
  assumes "length s = HmacSaltSize"
  shows "device_CreateAndDerive sample_fido plain_guard zero_rng sample_handle sample_create_options s p 7
    = (Inr (Some \<lparr>se_CredentialID = [7], se_Salt = s, se_HMACSecret = Some (7 # s)\<rparr>), 8)"
proof -
  have "length s \<noteq> 0" using assms by (auto simp: HmacSaltSize_def)
  moreover have "co_RPID sample_create_options = '' example.org''" by (simp add: sample_create_options_def)
  ultimately show ?thesis using assms sample_device_derive [of "[7]" s "\<lparr>do_RPID = '' example.org'',
      do_CredentialID = [7], do_Salt = s, do_PIN = p, do_UserPresence = False,
      do_UserPresenceSet = False, do_ClientDataJSON = []\<rparr>" 8]
    by (simp add: device_CreateAndDerive_def sample_device_create Let_def del: length_0_conv)
qed

theorem create_and_derive_reproducible_witness:
  "\<exists>sec sec'. device_CreateAndDerive sample_fido plain_guard zero_rng sample_handle
       sample_create_options (replicate 32 1) ''1234'' 7 = (Inr (Some sec), 8) \<and>
     device_Derive sample_fido plain_guard zero_rng sample_handle
       \<lparr>do_RPID = ''example.org'', do_CredentialID = [7], do_Salt = replicate 32 1, do_PIN = ''9'',
        do_UserPresence = False, do_UserPresenceSet = True, do_ClientDataJSON = []\<rparr> 20
       = (Inr (Some sec'), 20) \<and> se_HMACSecret sec' = se_HMACSecret sec"
proof -
  have l: "length (replicate 32 (1 :: byte)) = HmacSaltSize" by (simp add: HmacSaltSize_def)
  let ?q = "\<lparr>do_RPID = ''example.org'', do_CredentialID = [7], do_Salt = replicate 32 1, do_PIN = ''9'',
        do_UserPresence = False, do_UserPresenceSet = True, do_ClientDataJSON = []\<rparr> :: derive_options"
  let ?s = "\<lparr>se_CredentialID = [7], se_Salt = replicate 32 1,
      se_HMACSecret = Some (7 # replicate 32 1)\<rparr> :: bytes secret"
  have d: "device_Derive sample_fido plain_guard zero_rng sample_handle ?q 20 = (Inr (Some ?s), 20)"
    using sample_device_derive [of "[7]" "replicate 32 1" ?q 20] l by simp
  note c = sample_create_and_derive [OF l, of "''1234''"]
  from create_and_derive_reproducible [OF sf.fido_prf_axioms c d] have
    "map_option (\<lambda>e. e) (se_HMACSecret ?s) = map_option (\<lambda>e. e) (se_HMACSecret ?s)"
    by (simp add: sample_create_options_def)
  with c d show ?thesis by blast
qed

lemma derive_bad_salt:
  assumes "length (do_Salt q) \<noteq> 32"
  shows "\<exists>e. device_Derive F M g d q w = (Inl e, w) \<and> errors_is e ErrInvalidArgument"
proof (cases "Option.bind d dv_device")
  case (Some dev)
  with assms show ?thesis
    by (auto simp: device_Derive_def validateSalt_def HmacSaltSize_def errors_is_errorf_v Let_def
        split: option.splits)
qed (simp add: device_Derive_def)

text \<open>A request that is not well formed is refused with \<open>ErrInvalidArgument\<close> before the
  authenticator is reached: no device, an RP ID of white space, no credential ID, or a salt that
  is not of 32 bytes.\<close>

theorem derive_request_checked:
  assumes "Option.bind d dv_device = None \<or> trim_space (do_RPID q) = [] \<or> do_CredentialID q = [] \<or>
    length (do_Salt q) \<noteq> 32"
  shows "\<exists>e. device_Derive F M g d q w = (Inl e, w) \<and> errors_is e ErrInvalidArgument"
proof (cases "length (do_Salt q) = 32")
  case True
  with assms show ?thesis by (cases "Option.bind d dv_device") (auto simp: device_Derive_def Let_def)
qed (rule derive_bad_salt)

theorem derive_request_checked_witness:
  "\<exists>e. device_Derive sample_fido plain_guard zero_rng sample_handle
       \<lparr>do_RPID = ''example.org'', do_CredentialID = [7], do_Salt = replicate 31 1, do_PIN = [],
        do_UserPresence = False, do_UserPresenceSet = False, do_ClientDataJSON = []\<rparr> 3 = (Inl e, 3) \<and>
     errors_is e ErrInvalidArgument"
  by (rule derive_request_checked) simp

text \<open>\<open>CreateAndDerive\<close> looks at the salt too late: with a salt of a wrong size it makes the
  user produce a credential, drops it and reports \<open>ErrInvalidArgument\<close>.\<close>

theorem create_and_derive_bad_salt:
  assumes "salt \<noteq> []" "length salt \<noteq> 32"
    and "device_CreateCredential F g d (create\<lparr>co_PIN := pin\<rparr>) w = (Inr (Some cred), w1)"
  shows "\<exists>e. device_CreateAndDerive F M g d create salt pin w = (Inl e, w1) \<and>
    errors_is e ErrInvalidArgument"
proof -
  obtain e where "device_Derive F M (rng_from g (create_reads create)) d
      \<lparr>do_RPID = co_RPID create, do_CredentialID = cr_ID cred, do_Salt = salt, do_PIN = pin,
       do_UserPresence = False, do_UserPresenceSet = False, do_ClientDataJSON = []\<rparr> w1 = (Inl e, w1)"
      "errors_is e ErrInvalidArgument"
    using derive_bad_salt [of "\<lparr>do_RPID = co_RPID create, do_CredentialID = cr_ID cred, do_Salt = salt,
       do_PIN = pin, do_UserPresence = False, do_UserPresenceSet = False, do_ClientDataJSON = []\<rparr>"]
      assms(2) by fastforce
  then show ?thesis using assms by (simp add: device_CreateAndDerive_def create_reads_def Let_def)
qed

theorem create_and_derive_bad_salt_witness:
  "\<exists>e. device_CreateAndDerive sample_fido plain_guard zero_rng sample_handle sample_create_options
     [1, 2] ''1234'' 7 = (Inl e, 8) \<and> errors_is e ErrInvalidArgument"
  by (rule create_and_derive_bad_salt [OF _ _ sample_device_create]) simp_all

section \<open>Salts and client data\<close>

text \<open>\<open>ParseSalt\<close> returns 32 bytes or an error: a new salt, marked as such, only for empty
  input, else what the input spells in hexadecimal; every 32 bytes written in hexadecimal are
  read back.\<close>

theorem parse_salt_exact:
  "(\<forall>b new. ParseSalt g k v = Inr (b, new) \<longrightarrow> length b = 32 \<and> new = (v = []) \<and>
     (v \<noteq> [] \<longrightarrow> hex_DecodeString v = Some b \<and> length v = 64)) \<and>
   (length s = 32 \<longrightarrow> ParseSalt g k (hex_EncodeToString s) = Inr (s, False))"
proof (intro conjI allI impI)
  fix b new
  assume "ParseSalt g k v = Inr (b, new)"
  then show "length b = 32" "new = (v = [])"
      "v \<noteq> [] \<Longrightarrow> hex_DecodeString v = Some b" "v \<noteq> [] \<Longrightarrow> length v = 64"
    using rand_Read_length [of g k 32 b] hex_DecodeString_length [of v b]
    by (auto simp: ParseSalt_def HmacSaltSize_def split: sum.splits option.splits if_splits)
next
  assume l: "length s = 32"
  then have "hex_EncodeToString s \<noteq> []" by (cases s) auto
  with l show "ParseSalt g k (hex_EncodeToString s) = Inr (s, False)"
    by (simp add: ParseSalt_def HmacSaltSize_def)
qed

theorem parse_salt_exact_witness:
  "ParseSalt zero_rng 0 (hex_EncodeToString (replicate 32 255)) = Inr (replicate 32 255, False)"
  using parse_salt_exact [of zero_rng 0 "[]" "replicate 32 255"] by simp

lemma b64_enc_chars:
  assumes "length al = 64" "\<forall>n \<in> set ns. n < 256"
  shows "set (b64_enc al pad ns) \<subseteq> set al \<union> set pad"
  using assms
proof (induction al pad ns rule: b64_enc.induct)
  case (2 al pad a)
  then have "a div 4 < 64" "a mod 4 * 16 < 64" by auto
  with 2 show ?case by auto
next
  case (3 al pad a b)
  then have "a div 4 < 64" "a mod 4 * 16 + b div 16 < 64" "b mod 16 * 4 < 64" by auto
  with 3 show ?case by auto
next
  case (4 al pad a b c r)
  then have "a div 4 < 64" "a mod 4 * 16 + b div 16 < 64" "b mod 16 * 4 + c div 64 < 64" "c mod 64 < 64"
    by auto
  with 4 show ?case by auto
qed simp

lemma raw_url_ascii: "valid_utf8 (b64_RawURLEncode bs)"
proof (rule valid_utf8_ascii, rule ballI)
  fix c
  assume "c \<in> set (b64_RawURLEncode bs)"
  moreover have "set (b64_RawURLEncode bs) \<subseteq> set b64_url \<union> set []"
    unfolding b64_RawURLEncode_def using unsigned_less [where ?'a = nat and ?'b = 8]
    by (intro b64_enc_chars) (auto simp: b64_url_def)
  ultimately have "c \<in> set b64_url" by auto
  moreover have "list_all (\<lambda>c. ord c < 128) b64_url" by code_simp
  ultimately show "ord c < 128" by (simp add: list_all_iff)
qed

text \<open>Client data are made exactly when operation, challenge and RP ID are given, and are a
  JSON object that reads back as these: the challenge in base64url without padding, the origin
  with the scheme https. Only strings that are not UTF-8 read back changed.\<close>

theorem client_data_reads_back:
  "case MakeClientDataJSON op ch rp of
     Inl e \<Rightarrow> op = [] \<or> ch = [] \<or> rp = []
   | Inr b \<Rightarrow> op \<noteq> [] \<and> ch \<noteq> [] \<and> rp \<noteq> [] \<and>
       json_parse (str_of b) = Some (JObj
         [(''type'', JStr (sanitize op)), (''challenge'', JStr (b64_RawURLEncode ch)),
          (''origin'', JStr (sanitize (''https://'' @ rp))), (''crossOrigin'', JBool False)])"
proof -
  have k: "valid_utf8 ''type''" "valid_utf8 ''challenge''" "valid_utf8 ''origin''"
      "valid_utf8 ''crossOrigin''" by code_simp+
  define j where "j = JObj [(''type'', JStr op), (''challenge'', JStr (b64_RawURLEncode ch)),
    (''origin'', JStr (''https://'' @ rp)), (''crossOrigin'', JBool False)]"
  have "json_parse (json_render j) = Some (json_sanitize j)"
    by (rule json_parse_render) (simp add: j_def)
  moreover have "json_sanitize j = JObj
      [(''type'', JStr (sanitize op)), (''challenge'', JStr (b64_RawURLEncode ch)),
       (''origin'', JStr (sanitize (''https://'' @ rp))), (''crossOrigin'', JBool False)]"
    unfolding j_def by (simp add: raw_url_ascii k del: append.simps)
  moreover have "MakeClientDataJSON op ch rp = (if op \<noteq> [] \<and> ch \<noteq> [] \<and> rp \<noteq> []
      then Inr (bytes_of (json_render j)) else MakeClientDataJSON op ch rp)"
    unfolding MakeClientDataJSON_def j_def by simp
  moreover have "\<exists>e. MakeClientDataJSON op ch rp = Inl e" if "\<not> (op \<noteq> [] \<and> ch \<noteq> [] \<and> rp \<noteq> [])"
    using that by (auto simp: MakeClientDataJSON_def)
  ultimately show ?thesis by (cases "op \<noteq> [] \<and> ch \<noteq> [] \<and> rp \<noteq> []") auto
qed

end
