(* ===== verification/Windows_Properties.thy ===== *)
theory Windows_Properties
  imports Windows_Device Device_Properties
begin

text \<open>
  What the Windows backend promises: every result of the system is read before it is freed and
  freed once, a secret is the one the system returned for the request, the failures of the system
  keep their class, and the broker derives what libfido2 derives from the same authenticator.
\<close>

section \<open>The course of a call\<close>

lemma utf16Pointer_not_panic: "utf16Pointer v = Inl e \<Longrightarrow> \<not> is_panic e"
  by (auto simp: utf16Pointer_def split: if_splits)

lemma request_timeout_0: "request_timeout 0 = Inr 600000"
  by (simp add: request_timeout_def defaultTimeout_def Millisecond_def)

text \<open>A statement that returns early with an error leaves the outside as it is.\<close>

lemma early_if:
  assumes "(if b then (Inl e, w) else r) = (res, w')"
  obtains "res = Inl e" "w' = w" | "\<not> b" "r = (res, w')"
  using assms by (cases b) auto

lemma early_sum:
  assumes "(case x of Inl e \<Rightarrow> (Inl (f e), w) | Inr v \<Rightarrow> k v) = (res, w')"
  obtains e where "res = Inl (f e)" "w' = w" | v where "x = Inr v" "k v = (res, w')"
  using assms by (cases x) auto

lemma early_option:
  assumes "(case x of None \<Rightarrow> (Inl e, w) | Some v \<Rightarrow> k v) = (res, w')"
  obtains "res = Inl e" "w' = w" | v where "x = Some v" "k v = (res, w')"
  using assms by (cases x) auto

lemma early_some:
  assumes "(case x of None \<Rightarrow> r | Some e \<Rightarrow> (Inl (f e), w)) = (res, w')"
  obtains e where "res = Inl (f e)" "w' = w" | "x = None" "r = (res, w')"
  using assms by (cases x) auto

text \<open>The end of a call: the result of the system is read and freed.\<close>

definition finish_call ::
  "string \<Rightarrow> ('w \<Rightarrow> 'r \<Rightarrow> go_error + 'x) \<Rightarrow> (addr \<Rightarrow> 'w \<Rightarrow> 'w) \<Rightarrow> (64 word \<times> (addr \<times> 'r) option) \<times> 'w
     \<Rightarrow> (go_error + 'x) \<times> 'w" where
  "finish_call op readout free = (\<lambda>((r, p), w).
     if Failed (ucast r) then (Inl (callError op (ucast r)), w)
     else (case p of None \<Rightarrow> (Inl (Errorf (op @ '': nil result'')), w)
       | Some (a, x) \<Rightarrow> (readout w x, free a w)))"

lemma finish_call_cases:
  assumes "finish_call op readout free c = (res, w')"
  obtains (failed) r p where "c = ((r, p), w')" "Failed (ucast r)" "res = Inl (callError op (ucast r))"
  | (no_result) r where "c = ((r, None), w')" "\<not> Failed (ucast r)" "res = Inl (Errorf (op @ '': nil result''))"
  | (result) r a x w1 where "c = ((r, Some (a, x)), w1)" "\<not> Failed (ucast r)" "res = readout w1 x"
      "w' = free a w1"
  using assms by (auto simp: finish_call_def split: prod.splits if_splits option.splits)

lemma finish_callI:
  assumes "(case c of ((r, p), w) \<Rightarrow>
     if Failed (ucast r) then (Inl (callError op (ucast r)), w)
     else (case p of None \<Rightarrow> (Inl (Errorf nil), w) | Some (a, x) \<Rightarrow> (readout w x, free a w))) = (res, w')"
    and "nil = op @ '': nil result''"
  shows "finish_call op readout free c = (res, w')"
proof -
  obtain r p w1 where "c = ((r, p), w1)" by (metis prod.exhaust)
  then show ?thesis using assms by (cases p) (auto simp: finish_call_def)
qed

definition assertion_args :: "string \<Rightarrow> assert_request \<Rightarrow> 32 word \<Rightarrow> assert_args" where
  "assertion_args rp q timeout =
     \<lparr>aa_RPID = rp,
      aa_ClientData = \<lparr>cd_Version = 1, cd_JSONLength = of_nat (length (ar_ClientDataJSON q)),
        cd_JSON = bytePointer (ar_ClientDataJSON q), cd_HashAlgorithm = ''SHA-256''\<rparr>,
      aa_Options = \<lparr>ao_Version = 6, ao_TimeoutMilliseconds = timeout,
        ao_CredentialList = [\<lparr>ca_Version = 1, ca_IDLength = of_nat (length (ar_CredentialID q)),
          ca_ID = bytePointer (ar_CredentialID q), ca_CredentialType = ''public-key''\<rparr>],
        ao_AuthenticatorAttachment = AuthenticatorAttachmentCrossPlatform,
        ao_UserVerificationRequirement = UserVerificationAny,
        ao_Flags = AuthenticatorHMACSecretValuesFlag,
        ao_GlobalSalt = Some \<lparr>sa_FirstLength = of_nat (length (ar_Salt q)),
          sa_First = bytePointer (ar_Salt q)\<rparr>\<rparr>\<rparr>"

lemma MakeCredential_cases:
  assumes "api_MakeCredential m (Some api) q w = (res, w')"
  obtains (unasked) e where "res = Inl e" "w' = w"
  | (asked) call x where "ap_makeCredential api = Some call"
      "finish_call ''WebAuthNAuthenticatorMakeCredential'' (read_attestation m)
         (ap_freeCredentialAttestation api) (call x w) = (res, w')"
  using assms unfolding api_MakeCredential_def Let_def option.case
  by (elim early_if early_sum early_option) (rule unasked, assumption+ | rule asked, assumption, erule finish_callI, simp)+

lemma GetAssertion_cases:
  assumes "api_GetAssertion M m (Some api) q w = (res, w')"
  obtains (unasked) e where "res = Inl e" "w' = w"
  | (asked) call rp timeout where "ap_getAssertion api = Some call"
      "utf16Pointer (ar_RPID q) = Inr rp" "request_timeout (ar_Timeout q) = Inr timeout"
      "length (ar_Salt q) = HMACSecretLength" "ar_CredentialID q \<noteq> []"
      "finish_call ''WebAuthNAuthenticatorGetAssertion'' (\<lambda>w. read_assertion M m w (ar_CredentialID q))
         (ap_freeAssertion api) (call (assertion_args rp q timeout) w) = (res, w')"
  using assms unfolding api_GetAssertion_def Let_def option.case
    assertion_args_def [symmetric] length_0_conv
  by (elim early_if early_sum early_option) (rule unasked, assumption+ | rule asked, assumption, assumption, assumption, simp, assumption,
      erule finish_callI, simp)+

text \<open>The operations of the device, down to the call of the binding.\<close>

lemma win_CreateCredential_cases:
  assumes "win_CreateCredential m g d q w = (res, w')"
  obtains (unasked) e where "res = Inl e" "w' = w"
  | (failed) api r e where "Option.bind d wd_api = Some api"
      "api_MakeCredential m (Some api) r w = (Inl e, w')"
      "res = Inl (mapWindowsError ''make hmac-secret credential'' e)"
  | (made) api r x where "Option.bind d wd_api = Some api"
      "api_MakeCredential m (Some api) r w = (Inr x, w')" "mr_RPID r = trim_space (co_RPID q)"
      "res = Inr (Some \<lparr>cr_ID = mt_CredentialID x, cr_RPID = trim_space (co_RPID q), cr_PubKey = []\<rparr>)"
  using assms unfolding win_CreateCredential_def Let_def
proof (elim early_if early_sum early_option, goal_cases)
  case (6 api userID challenge data)
  then show ?case by (auto split: prod.splits sum.splits)
qed (rule unasked, assumption+)+

lemma win_Derive_cases:
  assumes "win_Derive M m g d q w = (res, w')"
  obtains (unasked) e where "res = Inl e" "w' = w"
  | (failed) api r e where "Option.bind d wd_api = Some api"
      "api_GetAssertion M m (Some api) r w = (Inl e, w')"
      "res = Inl (mapWindowsError ''hmac-secret assertion'' e)"
  | (empty) api r x where "Option.bind d wd_api = Some api"
      "api_GetAssertion M m (Some api) r w = (Inr x, w')" "res = Inl (Sentinel ErrEmptyHMACSecret)"
  | (derived) api r x hs where "Option.bind d wd_api = Some api"
      "api_GetAssertion M m (Some api) r w = (Inr x, w')" "ar_RPID r = trim_space (do_RPID q)"
      "ar_CredentialID r = do_CredentialID q" "ar_Salt r = do_Salt q" "ar_Timeout r = 0"
      "do_UserPresenceSet q \<longrightarrow> do_UserPresence q" "az_HMACSecret x = Some hs" "mg_Size M hs \<noteq> 0"
      "res = Inr (Some \<lparr>se_CredentialID = do_CredentialID q, se_Salt = do_Salt q, se_HMACSecret = Some hs\<rparr>)"
  using assms unfolding win_Derive_def Let_def
proof (elim early_if early_sum early_some early_option, goal_cases)
  case (8 api challenge data)
  then show ?case by (auto split: prod.splits sum.splits option.splits if_splits)
qed (rule unasked, assumption+)+

section \<open>Results are freed\<close>

text \<open>Which results of the system are allocated, and whether its heap has been damaged: a call that
  succeeds with a result allocates it, any other call leaves them as they are, and freeing a result
  with the function for its kind frees that result. Freeing what is not allocated - twice, with the
  function for the other kind, or at another address - damages the heap.\<close>

datatype result_kind = AttestationResult | AssertionResult

locale webauthn_resources =
  fixes api :: "'w wa_api" and live :: "'w \<Rightarrow> (result_kind \<times> addr) set" and fault :: "'w \<Rightarrow> bool"
  assumes make_none: "ap_makeCredential api = Some call \<Longrightarrow> call x w = ((r, pt), w1) \<Longrightarrow>
      Failed (ucast r) \<or> pt = None \<Longrightarrow> live w1 = live w \<and> fault w1 = fault w"
    and make_some: "ap_makeCredential api = Some call \<Longrightarrow> call x w = ((r, Some (p, t)), w1) \<Longrightarrow>
      \<not> Failed (ucast r) \<Longrightarrow> (AttestationResult, p) \<notin> live w \<and>
      live w1 = insert (AttestationResult, p) (live w) \<and> fault w1 = fault w"
    and assert_none: "ap_getAssertion api = Some call' \<Longrightarrow> call' y w = ((r, pt'), w1) \<Longrightarrow>
      Failed (ucast r) \<or> pt' = None \<Longrightarrow> live w1 = live w \<and> fault w1 = fault w"
    and assert_some: "ap_getAssertion api = Some call' \<Longrightarrow> call' y w = ((r, Some (p, t')), w1) \<Longrightarrow>
      \<not> Failed (ucast r) \<Longrightarrow> (AssertionResult, p) \<notin> live w \<and>
      live w1 = insert (AssertionResult, p) (live w) \<and> fault w1 = fault w"
    and free_attestation: "(AttestationResult, p) \<in> live w \<Longrightarrow>
      live (ap_freeCredentialAttestation api p w) = live w - {(AttestationResult, p)} \<and>
      fault (ap_freeCredentialAttestation api p w) = fault w"
    and free_assertion: "(AssertionResult, p) \<in> live w \<Longrightarrow>
      live (ap_freeAssertion api p w) = live w - {(AssertionResult, p)} \<and>
      fault (ap_freeAssertion api p w) = fault w"
    and bad_attestation: "(AttestationResult, p) \<notin> live w \<Longrightarrow> fault (ap_freeCredentialAttestation api p w)"
    and bad_assertion: "(AssertionResult, p) \<notin> live w \<Longrightarrow> fault (ap_freeAssertion api p w)"
begin

lemma MakeCredential_live:
  assumes "api_MakeCredential m (Some api) q w = (res, w')"
  shows "live w' = live w \<and> fault w' = fault w"
  using assms
proof (cases rule: MakeCredential_cases)
  case (asked call x)
  from asked(2) show ?thesis
    by (cases rule: finish_call_cases)
      (use make_none [OF asked(1)] make_some [OF asked(1)] in \<open>auto simp: free_attestation\<close>)
qed simp

lemma GetAssertion_live:
  assumes "api_GetAssertion M m (Some api) q w = (res, w')"
  shows "live w' = live w \<and> fault w' = fault w"
  using assms
proof (cases rule: GetAssertion_cases)
  case (asked call rp timeout)
  from asked(6) show ?thesis
    by (cases rule: finish_call_cases)
      (use assert_none [OF asked(1)] assert_some [OF asked(1)] in \<open>auto simp: free_assertion\<close>)
qed simp

lemma create_live:
  assumes "win_CreateCredential m g d q w = (res, w')" "Option.bind d wd_api = Some api"
  shows "live w' = live w \<and> fault w' = fault w"
  using assms(1) by (cases rule: win_CreateCredential_cases) (use assms(2) in \<open>auto dest!: MakeCredential_live\<close>)

lemma derive_live:
  assumes "win_Derive M m g d q w = (res, w')" "Option.bind d wd_api = Some api"
  shows "live w' = live w \<and> fault w' = fault w"
  using assms(1) by (cases rule: win_Derive_cases) (use assms(2) in \<open>auto dest!: GetAssertion_live\<close>)

end

text \<open>C23: No result of the system is leaked, and none is freed twice or with the wrong function: over
  \<open>CreateCredential\<close>, \<open>Derive\<close> and \<open>CreateAndDerive\<close>, whatever the system answers and however they
  end, the results that are allocated after the call are those that were before, and the heap of
  the system, which freeing anything that is not allocated would have damaged, is as it was.\<close>

theorem windows_results_freed:
  assumes "webauthn_resources api live fault" "Option.bind d wd_api = Some api"
  shows "\<forall>w' \<in> {snd (win_CreateCredential m g d opts w), snd (win_Derive M m g d q w),
      snd (win_CreateAndDerive M m g d opts salt pin w)}.
    live w' = live w \<and> fault w' = fault w"
proof -
  let ?same = "\<lambda>w w'. live w' = live w \<and> fault w' = fault w"
  have c: "?same v (snd (win_CreateCredential m g d q' v))" for q' v
    using webauthn_resources.create_live [OF assms(1) _ assms(2)] by (metis prod.collapse)
  have r: "?same v (snd (win_Derive M m g' d q' v))" for g' q' v
    using webauthn_resources.derive_live [OF assms(1) _ assms(2)] by (metis prod.collapse)
  obtain res1 w1 where p: "win_CreateCredential m g d (opts\<lparr>co_PIN := pin\<rparr>) w = (res1, w1)"
    by (rule prod.exhaust)
  with c have l: "?same w w1" by (metis snd_conv)
  have "?same w (snd (win_CreateAndDerive M m g d opts salt pin w))"
  proof (cases res1)
    case (Inr x)
    with p l r show ?thesis
      by (cases x) (simp_all add: win_CreateAndDerive_def Let_def split: sum.split)
  qed (use p l in \<open>simp add: win_CreateAndDerive_def Let_def\<close>)
  with c r show ?thesis by blast
qed

text \<open>A system for the examples: results of either kind at address 8, one at a time, with a flag that
  is set when something is freed that is not there, over a memory that holds some bytes at
  address 16 and zeros elsewhere. The secret is the salt with the first
  byte of the credential ID added.\<close>

type_synonym sample_os = "((result_kind \<times> addr) set \<times> bool) \<times> bytes"

definition sample_memory :: "sample_os os_memory" where
  "sample_memory =
     \<lparr>om_byte = (\<lambda>(_, b) p. let i = unat p - 16 in if 16 \<le> unat p \<and> i < length b then b ! i else 0),
      om_wide = (\<lambda>_ _. []),
      om_extension = (\<lambda>_ _ _. \<lparr>we_Identifier = 0, we_ValueSize = 0, we_Value = 0\<rparr>),
      om_salt = (\<lambda>_ p. (32, 16))\<rparr>"

definition sample_attestation :: wa_attestation where
  "sample_attestation = \<lparr>wt_Version = 7, wt_AuthenticatorDataLength = 0, wt_AuthenticatorData = 0,
     wt_CredentialIDLength = 1, wt_CredentialID = 16, wt_ExtensionCount = 0, wt_Extensions = 0,
     wt_PRFEnabled = 1\<rparr>"

definition sample_assertion :: wa_assertion where
  "sample_assertion = \<lparr>ws_Version = 3, ws_AuthenticatorDataLength = 0, ws_AuthenticatorData = 0,
     ws_CredentialIDLength = 0, ws_CredentialID = 0, ws_HMACSecret = 24\<rparr>"

definition sample_add :: "bytes \<Rightarrow> bytes \<Rightarrow> bytes" where
  "sample_add cred salt = map (\<lambda>b. b + hd cred) salt"

definition sample_secret :: "assert_args \<Rightarrow> bytes" where
  "sample_secret x =
     (case (ao_GlobalSalt (aa_Options x), ao_CredentialList (aa_Options x)) of
        (Some sl, [c]) \<Rightarrow> sample_add (take (unat (ca_IDLength c)) (the (ca_ID c))) (the (sa_First sl)) | _ \<Rightarrow> [])"

definition sample_wa :: "sample_os wa_api" where
  "sample_wa =
     \<lparr>ap_getAPIVersion = Some (\<lambda>_. 7),
      ap_makeCredential = Some (\<lambda>x ((L, f), b).
        if (AttestationResult, 8) \<in> L then ((ucast NTENotSupported, None), ((L, f), b))
        else ((0, Some (8, sample_attestation)), ((insert (AttestationResult, 8) L, f), [7]))),
      ap_getAssertion = Some (\<lambda>x ((L, f), b).
        if (AssertionResult, 8) \<in> L then ((ucast NTENotSupported, None), ((L, f), b))
        else ((0, Some (8, sample_assertion)), ((insert (AssertionResult, 8) L, f), sample_secret x))),
      ap_freeCredentialAttestation = (\<lambda>p ((L, f), b).
        ((L - {(AttestationResult, p)}, f \<or> (AttestationResult, p) \<notin> L), b)),
      ap_freeAssertion = (\<lambda>p ((L, f), b).
        ((L - {(AssertionResult, p)}, f \<or> (AssertionResult, p) \<notin> L), b))\<rparr>"

lemma Failed_samples [simp]: "\<not> Failed 0" "Failed NTENotSupported"
  by code_simp+

lemma ucast_hresult [simp]: "ucast (ucast (h :: hresult) :: 64 word) = h"
  by (rule bit_word_eqI) (simp add: bit_simps)

interpretation sr: webauthn_resources sample_wa "\<lambda>w. fst (fst w)" "\<lambda>w. snd (fst w)"
  by unfold_locales (auto simp: sample_wa_def split: if_splits prod.splits)

abbreviation sample_broker :: "sample_os win_device option" where
  "sample_broker \<equiv> Some \<lparr>wd_path = windowsHelloPath, wd_api = Some sample_wa\<rparr>"

theorem windows_results_freed_witness:
  "fst (snd (win_CreateAndDerive plain_guard sample_memory zero_rng sample_broker sample_create_options
     [] [] (({(AssertionResult, 3)}, False), []))) = ({(AssertionResult, 3)}, False)"
  using windows_results_freed [OF sr.webauthn_resources_axioms, of sample_broker sample_memory zero_rng
    sample_create_options "(({(AssertionResult, 3)}, False), [])" plain_guard]
  by (simp add: prod_eq_iff)

section \<open>The secret is the one that the system returned\<close>

lemma read_assertion_Inr:
  assumes "read_assertion M m w requested as = Inr x"
  obtains first where "om_salt m w (ws_HMACSecret as) = (32, first)" "first \<noteq> 0"
    "sealResultBytes M m w first 32 ''HMAC secret'' = Inr (az_HMACSecret x)"
    "az_CredentialID x = requested"
proof -
  obtain n first where s: "om_salt m w (ws_HMACSecret as) = (n, first)" by (rule prod.exhaust)
  have n: "n = 32" and e: "sealResultBytes M m w first 32 ''HMAC secret'' = Inr (az_HMACSecret x)"
      "az_CredentialID x = requested"
    using assms s by (auto simp: read_assertion_def HMACSecretLength_def Let_def
        split: if_splits sum.splits)
  from e(1) have "first \<noteq> 0" by (auto simp: sealResultBytes_def split: if_splits)
  with s n e that show ?thesis by blast
qed

context memguard_live begin

lemma sealResultBytes_32:
  assumes "sealResultBytes M m w first 32 field = Inr (Some e)"
  shows "content e = read_bytes m w first 32"
proof -
  have l: "length (read_bytes m w first 32) = 32" by (simp add: read_bytes_def)
  have "mg_Seal M (read_bytes m w first 32) = Some e"
    using assms l by (simp add: sealResultBytes_def buffer_live Let_def split: if_splits)
  then show ?thesis by (rule seal_content)
qed

lemma win_Derive_secret:
  assumes "win_Derive M m g d q w = (Inr (Some sec), w')"
  obtains api call data r p as w1 first hs where "Option.bind d wd_api = Some api"
    "ap_getAssertion api = Some call"
    "call (assertion_args (sanitize (trim_space (do_RPID q)))
       \<lparr>ar_RPID = trim_space (do_RPID q), ar_CredentialID = do_CredentialID q, ar_Salt = do_Salt q,
        ar_ClientDataJSON = data, ar_Timeout = 0\<rparr> 600000) w = ((r, Some (p, as)), w1)"
    "\<not> Failed (ucast r)" "w' = ap_freeAssertion api p w1" "do_CredentialID q \<noteq> []"
    "length (do_Salt q) = 32" "om_salt m w1 (ws_HMACSecret as) = (32, first)"
    "content hs = read_bytes m w1 first 32"
    "sec = \<lparr>se_CredentialID = do_CredentialID q, se_Salt = do_Salt q, se_HMACSecret = Some hs\<rparr>"
  using assms
proof (cases rule: win_Derive_cases)
  case (derived api rq x hs)
  from derived(2) show ?thesis
  proof (cases rule: GetAssertion_cases)
    case (asked call rp timeout)
    from asked(6) show ?thesis
    proof (cases rule: finish_call_cases)
      case (result r p as w1)
      obtain first where f: "om_salt m w1 (ws_HMACSecret as) = (32, first)"
          "sealResultBytes M m w1 first 32 ''HMAC secret'' = Inr (az_HMACSecret x)"
        using result(3) read_assertion_Inr by metis
      have t: "timeout = 600000" using asked(3) derived(6) by (simp add: request_timeout_0)
      have u: "rp = sanitize (trim_space (do_RPID q))"
        using asked(2) derived(3) by (auto simp: utf16Pointer_def split: if_splits)
      have q: "rq = \<lparr>ar_RPID = trim_space (do_RPID q), ar_CredentialID = do_CredentialID q,
          ar_Salt = do_Salt q, ar_ClientDataJSON = ar_ClientDataJSON rq, ar_Timeout = 0\<rparr>"
        using derived(3-6) by (cases rq) simp
      have cl: "call (assertion_args (sanitize (trim_space (do_RPID q)))
          \<lparr>ar_RPID = trim_space (do_RPID q), ar_CredentialID = do_CredentialID q, ar_Salt = do_Salt q,
           ar_ClientDataJSON = ar_ClientDataJSON rq, ar_Timeout = 0\<rparr> 600000) w = ((r, Some (p, as)), w1)"
        using result(1) t u arg_cong [OF q, of "\<lambda>rq. assertion_args rp rq timeout"] by metis
      show ?thesis
      proof (rule that [OF derived(1) asked(1) cl result(2,4) _ _ f(1)])
        show "content hs = read_bytes m w1 first 32"
          using f(2) derived(8) by (intro sealResultBytes_32) simp
      qed (use asked(4,5) derived in \<open>simp_all add: HMACSecretLength_def\<close>)
    qed simp_all
  qed simp
qed simp_all

end

text \<open>C22: A secret that \<open>Derive\<close> returns on Windows is what the system returned for this request:
  it was asked once, for the RP ID without white space around it, the one credential and the salt
  as a raw hmac-secret salt; the 32 bytes were read before the result was freed, and are what the
  enclave holds.\<close>

theorem windows_secret_is_result:
  assumes "memguard_live M content" "win_Derive M m g d q w = (Inr (Some sec), w')"
  shows "\<exists>api call args c r p as w1 first. Option.bind d wd_api = Some api \<and>
    ap_getAssertion api = Some call \<and> call args w = ((r, Some (p, as)), w1) \<and> \<not> Failed (ucast r) \<and>
    w' = ap_freeAssertion api p w1 \<and> aa_RPID args = sanitize (trim_space (do_RPID q)) \<and>
    ao_CredentialList (aa_Options args) = [c] \<and> ca_ID c = Some (do_CredentialID q) \<and>
    ao_GlobalSalt (aa_Options args) = Some \<lparr>sa_FirstLength = 32, sa_First = Some (do_Salt q)\<rparr> \<and>
    ao_Flags (aa_Options args) = AuthenticatorHMACSecretValuesFlag \<and>
    om_salt m w1 (ws_HMACSecret as) = (32, first) \<and>
    map_option content (se_HMACSecret sec) = Some (read_bytes m w1 first 32) \<and>
    se_CredentialID sec = do_CredentialID q \<and> se_Salt sec = do_Salt q"
proof (rule memguard_live.win_Derive_secret [OF assms])
  fix api call data r p as w1 first hs
  assume "Option.bind d wd_api = Some api" "ap_getAssertion api = Some call"
    "call (assertion_args (sanitize (trim_space (do_RPID q)))
       \<lparr>ar_RPID = trim_space (do_RPID q), ar_CredentialID = do_CredentialID q, ar_Salt = do_Salt q,
        ar_ClientDataJSON = data, ar_Timeout = 0\<rparr> 600000) w = ((r, Some (p, as)), w1)"
    "\<not> Failed (ucast r)" "w' = ap_freeAssertion api p w1" "do_CredentialID q \<noteq> []"
    "length (do_Salt q) = 32" "om_salt m w1 (ws_HMACSecret as) = (32, first)"
    "content hs = read_bytes m w1 first 32"
    "sec = \<lparr>se_CredentialID = do_CredentialID q, se_Salt = do_Salt q, se_HMACSecret = Some hs\<rparr>"
  moreover have "do_Salt q \<noteq> []" using \<open>length (do_Salt q) = 32\<close> by auto
  ultimately show ?thesis
    by (intro exI conjI) (assumption | simp add: assertion_args_def bytePointer_def)+
qed

section \<open>Both backends\<close>

text \<open>What the broker computes for a request: the RP ID reaches it trimmed and as UTF-16, and the
  length of the credential ID in 32 bits.\<close>

definition broker_hmac ::
  "(string \<Rightarrow> bytes \<Rightarrow> bytes \<Rightarrow> bytes) \<Rightarrow> bool \<Rightarrow> string \<Rightarrow> bytes \<Rightarrow> bytes \<Rightarrow> bytes" where
  "broker_hmac hmac v rp cred salt =
     hmac (sanitize (trim_space rp)) (take (length cred mod 2 ^ 32) cred) salt"

text \<open>The system and the authenticator honour the hmac-secret extension: an assertion with a raw salt
  for one credential returns the value for the RP ID, the credential and the salt. \<open>ca_IDLength\<close>
  bytes of the credential ID reach them.\<close>

locale webauthn_prf = memguard_live M content
  for M :: "'e memguard" and content :: "'e \<Rightarrow> bytes" +
  fixes m :: "'w os_memory" and api :: "'w wa_api" and g :: rng
    and hmac :: "string \<Rightarrow> bytes \<Rightarrow> bytes \<Rightarrow> bytes"
  assumes prf_result: "ap_getAssertion api = Some call \<Longrightarrow> call x w = ((r, Some (p, as)), w1) \<Longrightarrow>
    \<not> Failed (ucast r) \<Longrightarrow> ao_Flags (aa_Options x) = AuthenticatorHMACSecretValuesFlag \<Longrightarrow>
    ao_GlobalSalt (aa_Options x) = Some \<lparr>sa_FirstLength = 32, sa_First = Some salt\<rparr> \<Longrightarrow>
    length salt = 32 \<Longrightarrow> ao_CredentialList (aa_Options x) = [c] \<Longrightarrow> ca_ID c = Some cred \<Longrightarrow>
    om_salt m w1 (ws_HMACSecret as) = (32, first) \<Longrightarrow>
    read_bytes m w1 first 32 = hmac (aa_RPID x) (take (unat (ca_IDLength c)) cred) salt"
begin

lemma win_prf:
  assumes "win_Derive M m g' (Some \<lparr>wd_path = path, wd_api = Some api\<rparr>) q w = (Inr (Some sec), w')"
  shows "map_option content (se_HMACSecret sec) =
    Some (broker_hmac hmac v (do_RPID q) (do_CredentialID q) (do_Salt q))"
proof (rule win_Derive_secret [OF assms])
  fix api' call data r p as w1 first hs
  assume a: "Option.bind (Some \<lparr>wd_path = path, wd_api = Some api\<rparr>) wd_api = Some api'"
    "ap_getAssertion api' = Some call"
    "call (assertion_args (sanitize (trim_space (do_RPID q)))
       \<lparr>ar_RPID = trim_space (do_RPID q), ar_CredentialID = do_CredentialID q, ar_Salt = do_Salt q,
        ar_ClientDataJSON = data, ar_Timeout = 0\<rparr> 600000) w = ((r, Some (p, as)), w1)"
    "\<not> Failed (ucast r)" "do_CredentialID q \<noteq> []"
    "length (do_Salt q) = 32" "om_salt m w1 (ws_HMACSecret as) = (32, first)"
    "content hs = read_bytes m w1 first 32"
    "sec = \<lparr>se_CredentialID = do_CredentialID q, se_Salt = do_Salt q, se_HMACSecret = Some hs\<rparr>"
  then have "do_Salt q \<noteq> []" by auto
  with a have "read_bytes m w1 first 32 = hmac (sanitize (trim_space (do_RPID q)))
      (take (unat (of_nat (length (do_CredentialID q)) :: 32 word)) (do_CredentialID q)) (do_Salt q)"
    using prf_result [of call _ w r p as w1 "do_Salt q" _ "do_CredentialID q" first]
    by (simp add: assertion_args_def bytePointer_def)
  with a(8,9) show ?thesis by (simp add: broker_hmac_def unat_of_nat)
qed

end

sublocale webauthn_prf \<subseteq> win: prf_authenticator "win_authenticator M m g api" content "broker_hmac hmac"
proof
  show "map_option content (se_HMACSecret sec) =
      Some (broker_hmac hmac (do_PIN q \<noteq> []) (do_RPID q) (do_CredentialID q) (do_Salt q))"
    if "au_Derive (win_authenticator M m g api) auth q w = (Inr (Some sec), w')" for auth q w sec w'
    using that win_prf
    by (auto simp: win_authenticator_def split: prod.splits simp del: map_option_eq_Some)
qed

text \<open>The operations agree: what libfido2 derives with a PIN the broker derives, from the same
  credential and salt. Only an RP ID that is not UTF-8 and a credential ID of 4 GiB differ.\<close>

text \<open>C21: The two backends are interchangeable. If the libfido2 binding and Windows answer for the same
  authenticator, a secret that was derived with a PIN through libfido2 is derived through Windows
  too, from the same credential ID and salt and the same RP ID up to white space, whatever the
  PIN, on any handle and in any state of the outside.\<close>

theorem backends_derive_same:
  assumes "fido_prf F content hmac" "webauthn_prf M' content m api (hmac True)"
    and "device_Derive F M g d q w = (Inr (Some sec), w1)"
    and "win_Derive M' m g' (Some \<lparr>wd_path = path, wd_api = Some api\<rparr>) q' v = (Inr (Some sec'), v1)"
    and "do_PIN q \<noteq> []" "do_CredentialID q' = do_CredentialID q" "do_Salt q' = do_Salt q"
      "trim_space (do_RPID q') = trim_space (do_RPID q)" "valid_utf8 (trim_space (do_RPID q))"
      "length (do_CredentialID q) < 2 ^ 32"
  shows "map_option content (se_HMACSecret sec') = map_option content (se_HMACSecret sec) \<and>
    se_HMACSecret sec \<noteq> None \<and> se_CredentialID sec' = se_CredentialID sec \<and> se_Salt sec' = se_Salt sec"
proof -
  note f = fido_prf.device_prf [OF assms(1,3)]
  note n = webauthn_prf.win_prf [OF assms(2,4), of True]
  have s: "se_CredentialID sec = do_CredentialID q" "se_Salt sec = do_Salt q"
    using assms(3) by (auto elim!: device_Derive_cases)
  have s': "se_CredentialID sec' = do_CredentialID q'" "se_Salt sec' = do_Salt q'"
    using assms(4) by (auto elim!: win_Derive_cases)
  show ?thesis using f n s s' assms(5-10) by (auto simp: broker_hmac_def)
qed

definition sample_token :: "(string, nat, bytes) fido_api" where
  "sample_token = sample_fido\<lparr>fd_Assertion := (\<lambda>_ _ _ cs _ q w. (Inr (Some (sample_add (hd cs) (as_HMACSalt q))), w))\<rparr>"

interpretation sk: fido_prf sample_token plain_guard zero_rng "\<lambda>e. e" "\<lambda>_ _. sample_add"
  by unfold_locales (auto simp: sample_token_def)

lemma read_sample:
  assumes "length b = 32"
  shows "read_bytes sample_memory (L, b) 16 32 = b"
proof (rule nth_equalityI)
  fix i assume "i < length (read_bytes sample_memory (L, b) 16 32)"
  then have i: "i < 32" by (simp add: read_bytes_def)
  then have "unat (of_nat (16 + i) :: addr) = 16 + i" by (simp only: unat_of_nat) simp
  with i assms show "read_bytes sample_memory (L, b) 16 32 ! i = b ! i"
    by (simp add: read_bytes_def sample_memory_def)
qed (simp add: read_bytes_def assms)

interpretation sw: webauthn_prf plain_guard "\<lambda>e. e" sample_memory sample_wa zero_rng "\<lambda>_. sample_add"
proof
  fix call x and w w1 :: sample_os and r p as salt c cred first
  assume a: "ap_getAssertion sample_wa = Some call" "call x w = ((r, Some (p, as)), w1)"
    "ao_GlobalSalt (aa_Options x) = Some \<lparr>sa_FirstLength = 32, sa_First = Some salt\<rparr>" "length salt = 32"
    "ao_CredentialList (aa_Options x) = [c]" "ca_ID c = Some cred"
    "om_salt sample_memory w1 (ws_HMACSecret as) = (32, first)"
  let ?b = "sample_add (take (unat (ca_IDLength c)) cred) salt"
  have "snd w1 = ?b" using a by (cases w) (auto simp: sample_wa_def sample_secret_def split: if_splits)
  moreover have "first = 16" using a by (simp add: sample_memory_def)
  moreover have "length ?b = 32" using a by (simp add: sample_add_def)
  ultimately show "read_bytes sample_memory w1 first 32 = ?b" using read_sample by (metis prod.collapse)
qed

definition sample_query :: "string \<Rightarrow> derive_options" where
  "sample_query pin = \<lparr>do_RPID = ''example.org'', do_CredentialID = [7], do_Salt = replicate 32 1,
     do_PIN = pin, do_UserPresence = False, do_UserPresenceSet = False, do_ClientDataJSON = []\<rparr>"

lemma sample_query_simps [simp]:
  "do_RPID (sample_query p) = ''example.org''" "do_CredentialID (sample_query p) = [7]"
  "do_Salt (sample_query p) = replicate 32 1" "do_PIN (sample_query p) = p"
  "\<not> do_UserPresenceSet (sample_query p)" "do_ClientDataJSON (sample_query p) = []"
  by (simp_all add: sample_query_def)

lemma sample_add_32: "sample_add [7] (replicate 32 1) = replicate 32 8"
  by (simp add: sample_add_def)

lemma sample_version: "api_Version (Some sample_wa) w = 7"
  by (simp add: api_Version_def sample_wa_def)

lemma sample_utf16: "utf16Pointer ''example.org'' = Inr ''example.org''"
  by code_simp

lemma sample_read_assertion:
  "read_assertion plain_guard sample_memory (L, replicate 32 8) [7] sample_assertion
     = Inr \<lparr>az_CredentialID = [7], az_AuthenticatorData = [], az_HMACSecret = Some (replicate 32 8)\<rparr>"
proof -
  have "read_bytes sample_memory (L, replicate 32 8) 16 32 = replicate 32 8" by (rule read_sample) simp
  then have "sealResultBytes plain_guard sample_memory (L, replicate 32 8) 16 32 ''HMAC secret''
      = Inr (Some (replicate 32 8))"
    by (simp add: sealResultBytes_def maxResultBytes_def plain_guard_def)
  then show ?thesis
    by (simp add: read_assertion_def sample_assertion_def copyResultBytes_def HMACSecretLength_def
        sample_memory_def)
qed

lemma sample_win_derive:
  "win_Derive plain_guard sample_memory zero_rng sample_broker (sample_query pin) (({}, False), []) =
     (Inr (Some \<lparr>se_CredentialID = [7], se_Salt = replicate 32 1, se_HMACSecret = Some (replicate 32 8)\<rparr>),
      (({}, False), replicate 32 8))"
proof -
  obtain b where b: "client_data [] ''webauthn.get'' (replicate 32 0) ''example.org'' = Inr b" "b \<noteq> []"
    by (auto simp: client_data_def MakeClientDataJSON_def)
  obtain call where c: "ap_getAssertion sample_wa = Some call"
      "call (assertion_args ''example.org'' \<lparr>ar_RPID = ''example.org'', ar_CredentialID = [7],
         ar_Salt = replicate 32 1, ar_ClientDataJSON = b, ar_Timeout = 0\<rparr> 600000) (({}, False), [])
       = ((0, Some (8, sample_assertion)), (({(AssertionResult, 8)}, False), replicate 32 8))"
    by (simp add: sample_wa_def assertion_args_def sample_secret_def bytePointer_def sample_add_32)
  have "ap_freeAssertion sample_wa 8 (({(AssertionResult, 8)}, False), replicate 32 8) = (({}, False), replicate 32 8)"
    by (simp add: sample_wa_def)
  with c b(2) have "api_GetAssertion plain_guard sample_memory (Some sample_wa)
      \<lparr>ar_RPID = ''example.org'', ar_CredentialID = [7], ar_Salt = replicate 32 1,
       ar_ClientDataJSON = b, ar_Timeout = 0\<rparr> (({}, False), [])
    = (Inr \<lparr>az_CredentialID = [7], az_AuthenticatorData = [], az_HMACSecret = Some (replicate 32 8)\<rparr>,
       (({}, False), replicate 32 8))"
    unfolding api_GetAssertion_def assertion_args_def
    by (simp add: sample_version APIVersionPRF_def HMACSecretLength_def request_timeout_0 sample_utf16
        sample_read_assertion)
  with b(1) show ?thesis
    by (simp add: win_Derive_def validateSalt_def HmacSaltSize_def sample_random)
qed

theorem windows_secret_is_result_witness:
  "\<exists>w1 first. win_Derive plain_guard sample_memory zero_rng sample_broker (sample_query []) (({}, False), []) =
     (Inr (Some \<lparr>se_CredentialID = [7], se_Salt = replicate 32 1, se_HMACSecret = Some (replicate 32 8)\<rparr>),
      (({}, False), replicate 32 8)) \<and>
     om_salt sample_memory w1 24 = (32, first) \<and> read_bytes sample_memory w1 first 32 = replicate 32 8"
proof -
  have "memguard_live plain_guard (\<lambda>e. e)" by unfold_locales
  from windows_secret_is_result [OF this sample_win_derive [of "[]"]] obtain first w1 where
      "map_option (\<lambda>e. e) (Some (replicate 32 8)) = Some (read_bytes sample_memory w1 first 32)"
      "om_salt sample_memory w1 (ws_HMACSecret sample_assertion) = (32, first)"
    by (auto simp: sample_memory_def)
  then have "om_salt sample_memory w1 24 = (32, first) \<and> read_bytes sample_memory w1 first 32 = replicate 32 8"
    by (simp add: sample_assertion_def)
  with sample_win_derive [of "[]"] show ?thesis by blast
qed

lemma sample_token_derive:
  "device_Derive sample_token plain_guard zero_rng sample_handle (sample_query pin) w =
     (Inr (Some \<lparr>se_CredentialID = [7], se_Salt = replicate 32 1, se_HMACSecret = Some (replicate 32 8)\<rparr>), w)"
proof -
  obtain b where "client_data [] ''webauthn.get'' (replicate 32 0) ''example.org'' = Inr b"
    using client_data_get by blast
  then show ?thesis
    by (simp add: device_Derive_def device_IsFIDO2_def sample_token_def sample_fido_def sample_random
        validateSalt_def HmacSaltSize_def sample_add_32)
qed

theorem backends_derive_same_witness:
  "\<exists>sec sec'. device_Derive sample_token plain_guard zero_rng sample_handle (sample_query ''1234'') 5
       = (Inr (Some sec), 5) \<and>
     win_Derive plain_guard sample_memory zero_rng sample_broker (sample_query []) (({}, False), [])
       = (Inr (Some sec'), (({}, False), replicate 32 8)) \<and> se_HMACSecret sec' = se_HMACSecret sec"
proof -
  note a = sample_token_derive [of "''1234''" 5] and b = sample_win_derive [of "[]"]
  have "valid_utf8 ''example.org''" by code_simp
  with backends_derive_same [OF sk.fido_prf_axioms sw.webauthn_prf_axioms a b] a b show ?thesis by simp
qed

section \<open>Time limits and failures\<close>

text \<open>The time limit in milliseconds fits its 32 bits: it is the given duration rounded down, ten
  minutes when none is given, and a duration that does not fit is refused.\<close>

theorem windows_timeout_exact:
  "case request_timeout t of
     Inr ms \<Rightarrow> int (unat ms) = (if t \<le> 0 then 600000 else t div Millisecond)
   | Inl e \<Rightarrow> (2 ^ 32 - 1) * Millisecond < t \<and> errors_is e WebErrInvalidInput"
proof (cases "(2 ^ 32 - 1) * Millisecond < t")
  case False
  then have "int (unat (of_int (t div Millisecond) :: 32 word)) = t div Millisecond" if "0 < t"
    using that by (simp add: unat_eq_nat_uint uint_word_of_int Millisecond_def)
  with False show ?thesis by (auto simp: request_timeout_def defaultTimeout_def Millisecond_def)
qed (simp add: request_timeout_def Millisecond_def)

text \<open>The sentinel of the package that a failure of the system is reported as.\<close>

definition failure_class :: "hresult \<Rightarrow> sentinel option" where
  "failure_class r =
     (if r = NTENotSupported then Some ErrNotFIDO2
      else if r = NTEInvalidParameter then Some ErrInvalidArgument
      else if r = NTEDeviceNotFound \<or> r = NTENotFound then Some WebErrNotFound
      else if r = NTEUserCancelled \<or> r = HRESULTCancelled then Some WebErrUserCanceled
      else None)"

lemma mapWindowsError_class:
  "errors_is (mapWindowsError op (callError op' r)) s \<longleftrightarrow> failure_class r = Some s"
  by (auto simp: mapWindowsError_def errors_is_callError errors_is_errorf_v failure_class_def Unwrap_def)

text \<open>C39: What the system answers decides the error: when it fails a well-formed request of \<open>Derive\<close>
  with \<open>r\<close>, the error is the sentinel for \<open>r\<close> and no other, so that a cancelled prompt, a missing
  credential, an unsupported and a malformed request can be told apart; any other result, and none
  of these, wraps no sentinel at all.\<close>

theorem windows_failure_classes:
  assumes "Option.bind d wd_api = Some api" "ap_getAssertion api = Some call"
    "\<And>x. call x w = ((ucast r, p), w1)" "Failed r"
    "APIVersionPRF \<le> api_Version (Some api) w" "trim_space (do_RPID q) \<noteq> []"
    "CHR 0x00 \<notin> set (trim_space (do_RPID q))" "do_CredentialID q \<noteq> []" "length (do_Salt q) = 32"
    "do_UserPresenceSet q \<longrightarrow> do_UserPresence q" "randomBytes g 0 32 = Inr b"
  shows "\<exists>e. win_Derive M m g d q w = (Inl e, w1) \<and>
    (\<forall>s. errors_is e s \<longleftrightarrow> failure_class r = Some s)"
proof -
  have "b \<noteq> []" using assms(11) rand_Read_length [of g 0 32 b] by (auto simp: randomBytes_def)
  then obtain c where c: "client_data (do_ClientDataJSON q) ''webauthn.get'' b (trim_space (do_RPID q)) = Inr c"
      "c \<noteq> []"
    using assms(6) by (cases "do_ClientDataJSON q") (auto simp: client_data_def MakeClientDataJSON_def)
  have v: "\<not> api_Version (Some api) w < APIVersionPRF" using assms(5) by simp
  have "api_GetAssertion M m (Some api) \<lparr>ar_RPID = trim_space (do_RPID q),
      ar_CredentialID = do_CredentialID q, ar_Salt = do_Salt q, ar_ClientDataJSON = c, ar_Timeout = 0\<rparr> w
    = (Inl (callError ''WebAuthNAuthenticatorGetAssertion'' r), w1)"
    using assms(2-4,6-9) c(2) v
    by (simp add: api_GetAssertion_def request_timeout_0 utf16Pointer_def HMACSecretLength_def Let_def)
  moreover have "validateSalt (do_Salt q) = None" "\<not> (do_UserPresenceSet q \<and> \<not> do_UserPresence q)"
    using assms(9,10) by (simp_all add: HmacSaltSize_def)
  ultimately have "win_Derive M m g d q w =
      (Inl (mapWindowsError ''hmac-secret assertion'' (callError ''WebAuthNAuthenticatorGetAssertion'' r)), w1)"
    using assms(1,6,8,11) c(1) by (auto simp: win_Derive_def Let_def simp del: validateSalt_None)
  then show ?thesis using mapWindowsError_class by simp
qed

text \<open>A system where every prompt is cancelled.\<close>

theorem windows_failure_classes_witness:
  "\<exists>e. win_Derive plain_guard sample_memory zero_rng
     (Some \<lparr>wd_path = windowsHelloPath, wd_api = Some (sample_wa
       \<lparr>ap_getAssertion := Some (\<lambda>_ w. ((ucast NTEUserCancelled, None), w))\<rparr>)\<rparr>)
     (sample_query []) (({}, False), []) = (Inl e, (({}, False), [])) \<and> errors_is e WebErrUserCanceled"
proof -
  let ?api = "sample_wa \<lparr>ap_getAssertion := Some (\<lambda>_ w. ((ucast NTEUserCancelled, None), w))\<rparr>"
  let ?d = "Some \<lparr>wd_path = windowsHelloPath, wd_api = Some ?api\<rparr>"
  have "Failed NTEUserCancelled" "failure_class NTEUserCancelled = Some WebErrUserCanceled"
      "trim_space ''example.org'' = ''example.org''" "CHR 0x00 \<notin> set ''example.org''"
    by (code_simp, code_simp, code_simp, simp)
  then show ?thesis
    using windows_failure_classes [of ?d ?api "\<lambda>_ w. ((ucast NTEUserCancelled, None), w)" "(({}, False), [])"
        NTEUserCancelled None "(({}, False), [])" "sample_query []" zero_rng "replicate 32 0" plain_guard
        sample_memory]
    by (auto simp: sample_random APIVersionPRF_def api_Version_def sample_wa_def)
qed

text \<open>The extensions of an attestation say that the hmac-secret extension is on exactly when the
  first of them with this identifier has a value of at least four bytes that is not zero. No more
  than 64 are looked at: a longer list counts as off.\<close>

theorem extension_enabled_first:
  "hmacSecretExtensionEnabled m w n p \<longleftrightarrow> p \<noteq> 0 \<and> n \<le> 64 \<and>
     (case List.find (\<lambda>x. we_Identifier x \<noteq> 0 \<and> om_wide m w (we_Identifier x) = ''hmac-secret'')
        (map (om_extension m w p) [0..<unat n]) of
      None \<Rightarrow> False
    | Some x \<Rightarrow> 4 \<le> we_ValueSize x \<and> we_Value x \<noteq> 0 \<and> read_int32 m w (we_Value x) \<noteq> 0)"
proof -
  let ?P = "\<lambda>x. we_Identifier x \<noteq> 0 \<and> om_wide m w (we_Identifier x) = ''hmac-secret''"
  have "extension_loop m w p i k \<longleftrightarrow> (case List.find ?P (map (om_extension m w p) [i..<i + k]) of
      None \<Rightarrow> False
    | Some x \<Rightarrow> 4 \<le> we_ValueSize x \<and> we_Value x \<noteq> 0 \<and> read_int32 m w (we_Value x) \<noteq> 0)" for i k
    by (induction k arbitrary: i) (auto simp: upt_conv_Cons Let_def not_le)
  from this [of 0 "unat n"] show ?thesis
    by (auto simp: hmacSecretExtensionEnabled_def not_less)
qed

end
