(* ===== verification/Go_Flag.thy ===== *)
theory Go_Flag
  imports Go_Encoding
begin

text \<open>
  Command lines: package \<open>flag\<close> as far as the commands use it (string, bool and int flags), and the
  conversions of \<open>strconv\<close>. The base prefixes and underscores that \<open>ParseInt(s, 0, 64)\<close> accepts
  for an int flag are the parameter \<open>parseInt0\<close>.
\<close>

section \<open>Conversions\<close>

definition show_int :: "int \<Rightarrow> string" where
  "show_int i = (if i < 0 then CHR ''-'' # dec (nat (- i)) else dec (nat i))"

text \<open>\<open>strconv.Atoi\<close>: an optional sign and digits, in 64 bits.\<close>

definition Atoi :: "string \<Rightarrow> int option" where
  "Atoi s =
     (let neg = (case s of [] \<Rightarrow> False | c # _ \<Rightarrow> c = CHR ''-'');
          t = (case s of [] \<Rightarrow> [] | c # r \<Rightarrow> if c = CHR ''-'' \<or> c = CHR ''+'' then r else s) in
      if t = [] \<or> \<not> list_all is_digit t then None
      else if neg then (if nat_of_dec t \<le> 2 ^ 63 then Some (- int (nat_of_dec t)) else None)
      else (if nat_of_dec t < 2 ^ 63 then Some (int (nat_of_dec t)) else None))"

definition ParseBool :: "string \<Rightarrow> bool option" where
  "ParseBool s =
     (if s \<in> {''1'', ''t'', ''T'', ''TRUE'', ''true'', ''True''} then Some True
      else if s \<in> {''0'', ''f'', ''F'', ''FALSE'', ''false'', ''False''} then Some False
      else None)"

section \<open>The parser\<close>

datatype 'f flag =
    StringVar "string \<Rightarrow> 'f \<Rightarrow> 'f"
  | BoolVar "bool \<Rightarrow> 'f \<Rightarrow> 'f"
  | IntVar "int \<Rightarrow> 'f \<Rightarrow> 'f"

definition ErrHelp :: go_error where
  "ErrHelp = Foreign ''flag: help requested''"

text \<open>A name with the value after its first \<open>=\<close>, which is not at its start.\<close>

fun split_value :: "string \<Rightarrow> string \<times> string option" where
  "split_value [] = ([], None)"
| "split_value [c] = ([c], None)"
| "split_value (c # d # s) =
     (if d = CHR ''='' then ([c], Some s)
      else (case split_value (d # s) of (n, v) \<Rightarrow> (c # n, v)))"

definition set_flag ::
  "(string \<Rightarrow> int option) \<Rightarrow> 'f flag \<Rightarrow> string \<Rightarrow> 'f \<Rightarrow> 'f option" where
  "set_flag parseInt0 fl value f =
     (case fl of StringVar put \<Rightarrow> Some (put value f)
      | BoolVar put \<Rightarrow> map_option (\<lambda>b. put b f) (ParseBool value)
      | IntVar put \<Rightarrow> map_option (\<lambda>i. put i f) (parseInt0 value))"

definition is_bool :: "'f flag \<Rightarrow> bool" where
  "is_bool fl = (case fl of BoolVar _ \<Rightarrow> True | _ \<Rightarrow> False)"

text \<open>\<open>FlagSet.Parse\<close>: the flags, and the arguments from the first that is not one.\<close>

function flag_Parse ::
  "(string \<Rightarrow> int option) \<Rightarrow> (string \<Rightarrow> 'f flag option) \<Rightarrow> string list \<Rightarrow> 'f
     \<Rightarrow> go_error + 'f \<times> string list" where
  "flag_Parse parseInt0 formal [] f = Inr (f, [])"
| "flag_Parse parseInt0 formal (s # args) f =
     (if length s < 2 \<or> hd s \<noteq> CHR ''-'' then Inr (f, s # args)
      else if s = ''--'' then Inr (f, args)
      else
     (let name = (if s ! 1 = CHR ''-'' then drop 2 s else drop 1 s) in
      if name = [] \<or> hd name = CHR ''-'' \<or> hd name = CHR ''=''
      then Inl (Errorf ''bad flag syntax: %s'')
      else
     (case split_value name of (name, value) \<Rightarrow>
     (case formal name of
        None \<Rightarrow> if name = ''help'' \<or> name = ''h'' then Inl ErrHelp
          else Inl (Errorf ''flag provided but not defined: -%s'')
      | Some fl \<Rightarrow>
     (if is_bool fl then
       (case set_flag parseInt0 fl (case value of None \<Rightarrow> ''true'' | Some v \<Rightarrow> v) f of
          None \<Rightarrow> Inl (Errorf ''invalid boolean value %q for -%s: %v'')
        | Some f \<Rightarrow> flag_Parse parseInt0 formal args f)
      else
       (case value of
          Some v \<Rightarrow>
           (case set_flag parseInt0 fl v f of
              None \<Rightarrow> Inl (Errorf ''invalid value %q for flag -%s: %v'')
            | Some f \<Rightarrow> flag_Parse parseInt0 formal args f)
        | None \<Rightarrow>
           (case args of
              [] \<Rightarrow> Inl (Errorf ''flag needs an argument: -%s'')
            | v # args' \<Rightarrow>
               (case set_flag parseInt0 fl v f of
                  None \<Rightarrow> Inl (Errorf ''invalid value %q for flag -%s: %v'')
                | Some f \<Rightarrow> flag_Parse parseInt0 formal args' f))))))))"
  by pat_completeness auto
termination
  by (relation "measure (\<lambda>(_, _, args, _). length args)") auto

declare flag_Parse.simps [simp del]

end
