(* ===== verification/Terminal.thy ===== *)
theory Terminal
  imports Go_Flag Windows_Device
begin

text \<open>
  What the commands share: the terminal, the selector of \<open>pkg/device/cli\<close>, the PIN providers of
  \<open>pkg/pin/cli\<close> and \<open>pkg/pin/windows\<close>, \<open>lib/hmacsecret/pin.go\<close>, and the backend of the build.

  The standard streams act on the outside \<open>'w\<close> through a \<open>console\<close>. A writer other than the
  standard streams is a function of the text.
\<close>

section \<open>The console\<close>

record 'w console =
  cn_Stdout :: "string \<Rightarrow> 'w \<Rightarrow> (go_error \<times> nat) option \<times> 'w"
    \<comment> \<open>an error comes with the number of bytes that were written before it\<close>
  cn_Stderr :: "string \<Rightarrow> 'w \<Rightarrow> 'w"
  cn_ReadLine :: "'w \<Rightarrow> (go_error + string) \<times> 'w"        \<comment> \<open>of standard input, up to a newline\<close>
  cn_ReadPassword :: "'w \<Rightarrow> (go_error + bytes) \<times> 'w"

definition newline :: string where
  "newline = [CHR 0x0A]"

section \<open>Backends\<close>

text \<open>What package \<open>lib/hmacsecret\<close> offers in a build, with \<open>'a\<close> for the handles.\<close>

record ('a, 'w, 'e) backend =
  bk_ListDevices :: "'w lister"
  bk_Open :: "('a, 'w) opener"
  bk_auth :: "('a, 'w, 'e) authenticator"
  bk_isWindowsHello :: "string \<Rightarrow> bool"

definition bk_NeedsTerminalPIN :: "('a, 'w, 'e) backend \<Rightarrow> string \<Rightarrow> bool" where
  "bk_NeedsTerminalPIN B path = (\<not> bk_isWindowsHello B path)"

definition libfido2_backend ::
  "platform \<Rightarrow> ('d, 'w, 'e) fido_api \<Rightarrow> 'e memguard \<Rightarrow> rng \<Rightarrow> ('d fido_device, 'w \<times> nat, 'e) backend" where
  "libfido2_backend pf F M g =
     \<lparr>bk_ListDevices = (\<lambda>opts (w, k). case ListDevices pf F opts w of (r, w) \<Rightarrow> (r, (w, k))),
      bk_Open = (\<lambda>path (w, k). case device_Open F path w of (r, w) \<Rightarrow> (r, (w, k))),
      bk_auth = device_authenticator F M g,
      bk_isWindowsHello = isWindowsHello pf\<rparr>"

definition win_backend ::
  "'e memguard \<Rightarrow> 'w os_memory \<Rightarrow> rng \<Rightarrow> 'w wa_loader \<Rightarrow> string list \<Rightarrow> (string, 'w \<times> nat, 'e) backend" where
  "win_backend M m g L names =
     \<lparr>bk_ListDevices = (\<lambda>opts (w, k). (win_ListDevices L names opts w, (w, k))),
      bk_Open = (\<lambda>path (w, k). (map_sum (\<lambda>e. e) wd_path (win_Open L names path w), (w, k))),
      bk_auth = win_authenticator M m g (ld_API L),
      bk_isWindowsHello = win_isWindowsHello\<rparr>"

section \<open>The selector\<close>

record 'w cli_selector =
  cs_In :: "('w \<Rightarrow> (go_error + string) \<times> 'w) option"
  cs_Out :: "(string \<Rightarrow> 'w \<Rightarrow> 'w) option"
  cs_AutoSingle :: bool

definition selector_New :: "'w console \<Rightarrow> 'w cli_selector" where
  "selector_New C =
     \<lparr>cs_In = Some (cn_ReadLine C), cs_Out = Some (cn_Stderr C), cs_AutoSingle = True\<rparr>"

definition device_line :: "device_info \<Rightarrow> string" where
  "device_line d = ''['' @ show_int (di_Index d) @ ''] '' @ di_Product d @ '' / '' @ di_Manufacturer d @
     '' ('' @ di_Path d @ '')'' @ newline"

definition selector_Select ::
  "'w console \<Rightarrow> 'w cli_selector \<Rightarrow> device_info list \<Rightarrow> 'w \<Rightarrow> (go_error + device_info) \<times> 'w" where
  "selector_Select C s devices w =
     (if length devices = 0 then (Inl (Errorf ''no authenticator devices''), w)
      else
     (let out = (case cs_Out s of None \<Rightarrow> cn_Stderr C | Some f \<Rightarrow> f);
          inp = (case cs_In s of None \<Rightarrow> cn_ReadLine C | Some f \<Rightarrow> f);
          w = fold (\<lambda>d. out (device_line d)) devices w in
      if cs_AutoSingle s \<and> length devices = 1 then (Inr (devices ! 0), w)
      else
     (let w = out (''device index [0-'' @ show_int (int (length devices) - 1) @ '']: '') w in
      case inp w of
        (Inl e, w) \<Rightarrow> (Inl (errorf ''read device index: %w'' e), w)
      | (Inr line, w) \<Rightarrow>
     (let line = trim_space line in
      if line = [] then (Inr (devices ! 0), w)
      else
     (case Atoi line of
        None \<Rightarrow> (Inl (Errorf ''invalid device index %q''), w)
      | Some idx \<Rightarrow>
          if idx < 0 \<or> int (length devices) \<le> idx
          then (Inl (Errorf ''invalid device index %q''), w)
          else (Inr (devices ! nat idx), w))))))"

section \<open>PINs\<close>

text \<open>\<open>ReadTerminalPIN\<close>; a nil writer discards.\<close>

definition ReadTerminalPIN ::
  "'w console \<Rightarrow> (string \<Rightarrow> 'w \<Rightarrow> 'w) option \<Rightarrow> 'w \<Rightarrow> (go_error + string) \<times> 'w" where
  "ReadTerminalPIN C promptWriter w =
     (let promptWriter = (case promptWriter of None \<Rightarrow> (\<lambda>_ w. w) | Some f \<Rightarrow> f);
          w = promptWriter ''PIN (empty if unset): '' w in
      case cn_ReadPassword C w of (res, w) \<Rightarrow>
     (let w = promptWriter newline w in
      case res of
        Inl e \<Rightarrow> (Inl (errorf ''read hidden PIN: %w'' e), w)
      | Inr pinBytes \<Rightarrow> (Inr (str_of pinBytes), w)))"

record 'w cli_pin =
  cp_Out :: "(string \<Rightarrow> 'w \<Rightarrow> 'w) option"

definition cli_pin_New :: "'w console \<Rightarrow> 'w cli_pin" where
  "cli_pin_New C = \<lparr>cp_Out = Some (cn_Stderr C)\<rparr>"

definition cli_pin_Provide ::
  "('a, 'w, 'e) backend \<Rightarrow> 'w console \<Rightarrow> 'w cli_pin \<Rightarrow> device_info \<Rightarrow> 'w \<Rightarrow> (go_error + string) \<times> 'w" where
  "cli_pin_Provide B C p device w =
     (if \<not> bk_NeedsTerminalPIN B (di_Path device) then (Inr [], w)
      else
     (let out = (case cp_Out p of None \<Rightarrow> cn_Stderr C | Some f \<Rightarrow> f);
          w = out (''device '' @ di_Path device @ '' PIN (empty if unset): '') w in
      ReadTerminalPIN C (Some out) w))"

definition win_pin_Provide :: "device_info \<Rightarrow> 'w \<Rightarrow> (go_error + string) \<times> 'w" where
  "win_pin_Provide device w = (Inr [], w)"

section \<open>Output\<close>

text \<open>The output so far goes along with the outside. A write that fails may have written a part.\<close>

definition write_out ::
  "'w console \<Rightarrow> string \<Rightarrow> 'w \<times> string \<Rightarrow> go_error option \<times> 'w \<times> string" where
  "write_out C text wo =
     (case wo of (w, out) \<Rightarrow>
      case cn_Stdout C text w of
        (Some (e, n), w) \<Rightarrow> (Some e, w, out @ take n text)
      | (None, w) \<Rightarrow> (None, w, out @ text))"

text \<open>\<open>hex.NewEncoder(w).Write\<close>: at most 512 bytes at a time.\<close>

function hex_Write ::
  "'w console \<Rightarrow> bytes \<Rightarrow> 'w \<times> string \<Rightarrow> go_error option \<times> 'w \<times> string" where
  "hex_Write C p wo =
     (if p = [] then (None, wo)
      else
     (case write_out C (hex_EncodeToString (take 512 p)) wo of
        (Some e, wo) \<Rightarrow> (Some e, wo)
      | (None, wo) \<Rightarrow> hex_Write C (drop 512 p) wo))"
  by pat_completeness auto
termination by (relation "measure (\<lambda>(C, p, wo). length p)") auto

declare hex_Write.simps [simp del]

definition writeEnclaveHex ::
  "'e memguard \<Rightarrow> 'w console \<Rightarrow> string \<Rightarrow> 'e option \<Rightarrow> 'w \<times> string \<Rightarrow> go_error option \<times> 'w \<times> string" where
  "writeEnclaveHex M C prefix enclave wo =
     (case enclave of None \<Rightarrow> (Some (Sentinel ErrEmptyHMACSecret), wo)
      | Some e \<Rightarrow>
     (case mg_Open M e of Inl err \<Rightarrow> (Some (errorf ''open hmac-secret enclave: %w'' err), wo)
      | Inr secret \<Rightarrow>
     (case write_out C prefix wo of
        (Some e, wo) \<Rightarrow> (Some (errorf ''write hmac-secret prefix: %w'' e), wo)
      | (None, wo) \<Rightarrow>
     (case hex_Write C secret wo of
        (Some e, wo) \<Rightarrow> (Some (errorf ''write hmac-secret: %w'' e), wo)
      | (None, wo) \<Rightarrow>
     (case write_out C newline wo of
        (Some e, wo) \<Rightarrow> (Some (errorf ''write hmac-secret newline: %w'' e), wo)
      | (None, wo) \<Rightarrow> (None, wo))))))"

end
