(* ===== verification/Commands.thy ===== *)
theory Commands
  imports Terminal Pebble_Store Sqlite_Store
begin

text \<open>
  The commands \<open>cmd/hmac-secret\<close> and \<open>cmd/secrets\<close>: their \<open>run\<close> functions over a backend of the
  build. The state of a command is the outside with the text written to standard output so far.
\<close>

section \<open>hmac-secret\<close>

record hmac_flags =
  hf_deviceIndex :: int
  hf_rpID :: string
  hf_userName :: string
  hf_saltHex :: string
  hf_credentialIDHex :: string
  hf_listOnly :: bool
  hf_noWindowsWebAuthn :: bool

definition hmac_defaults :: hmac_flags where
  "hmac_defaults =
     \<lparr>hf_deviceIndex = 0, hf_rpID = ''hmac-secret.example'', hf_userName = ''hmac-secret-demo'',
      hf_saltHex = [], hf_credentialIDHex = [], hf_listOnly = False, hf_noWindowsWebAuthn = False\<rparr>"

definition hmac_formal :: "string \<Rightarrow> hmac_flags flag option" where
  "hmac_formal name =
     (if name = ''device'' then Some (IntVar (\<lambda>v. hf_deviceIndex_update (\<lambda>_. v)))
      else if name = ''rp-id'' then Some (StringVar (\<lambda>v. hf_rpID_update (\<lambda>_. v)))
      else if name = ''user'' then Some (StringVar (\<lambda>v. hf_userName_update (\<lambda>_. v)))
      else if name = ''salt'' then Some (StringVar (\<lambda>v. hf_saltHex_update (\<lambda>_. v)))
      else if name = ''credential-id'' then Some (StringVar (\<lambda>v. hf_credentialIDHex_update (\<lambda>_. v)))
      else if name = ''list'' then Some (BoolVar (\<lambda>v. hf_listOnly_update (\<lambda>_. v)))
      else if name = ''no-windows-webauthn'' then Some (BoolVar (\<lambda>v. hf_noWindowsWebAuthn_update (\<lambda>_. v)))
      else None)"

text \<open>The credential that is given, or a new one.\<close>

definition hmac_credential ::
  "('a, 'w, 'e) backend \<Rightarrow> 'w console \<Rightarrow> hmac_flags \<Rightarrow> 'a \<Rightarrow> string \<Rightarrow> 'w \<Rightarrow> (go_error + bytes) \<times> 'w" where
  "hmac_credential B C f dev pin w =
     (if trim_space (hf_credentialIDHex f) \<noteq> [] then
       (if trim_space (hf_saltHex f) = [] then (Inl (Errorf ''reusing a credential requires -salt''), w)
        else
       (case hex_DecodeString (trim_space (hf_credentialIDHex f)) of
          None \<Rightarrow> (Inl (errorf ''-credential-id must be valid hex: %w'' (Foreign ''encoding/hex'')), w)
        | Some credentialID \<Rightarrow>
            if length credentialID = 0 then (Inl (Errorf ''-credential-id must not be empty''), w)
            else (Inr credentialID,
              cn_Stderr C (''reusing stored non-discoverable credential'' @ newline) w)))
      else
     (let w = cn_Stderr C (''creating credential; approve in Windows Security UI / touch key...'' @ newline) w in
      case au_CreateCredential (bk_auth B) dev \<lparr>co_RPID = hf_rpID f, co_RPName = ''hmacsecret'',
          co_UserName = hf_userName f, co_UserDisplayName = [], co_UserID = [], co_PIN = pin,
          co_ClientDataJSON = []\<rparr> w of
        (Inl e, w) \<Rightarrow> (Inl e, w)
      | (Inr None, w) \<Rightarrow> (Inl nil_deref, w)
      | (Inr (Some cred), w) \<Rightarrow> (Inr (cr_ID cred), w)))"

text \<open>\<open>run\<close> after \<open>flag.Parse\<close>; \<open>g\<close> is the source that \<open>ParseSalt\<close> draws from.\<close>

definition hmac_run_parsed ::
  "('a, 'w, 'e) backend \<Rightarrow> 'e memguard \<Rightarrow> rng \<Rightarrow> 'w console \<Rightarrow> hmac_flags \<Rightarrow> 'w \<times> string
     \<Rightarrow> go_error option \<times> 'w \<times> string" where
  "hmac_run_parsed B M g C f wo =
     (case wo of (w, out) \<Rightarrow>
     (if hf_deviceIndex f < 0 then (Some (Errorf ''-device must be >= 0''), w, out)
      else if trim_space (hf_rpID f) = [] then (Some (Errorf ''-rp-id must not be empty''), w, out)
      else if trim_space (hf_userName f) = [] then (Some (Errorf ''-user must not be empty''), w, out)
      else
     (case bk_ListDevices B \<lparr>lo_ExcludeWindowsWebAuthn = hf_noWindowsWebAuthn f\<rparr> w of
        (Inl e, w) \<Rightarrow> (Some e, w, out)
      | (Inr devices, w) \<Rightarrow>
     (let w = fold (\<lambda>d. cn_Stderr C (device_line d)) devices w in
      if hf_listOnly f then (None, w, out)
      else if int (length devices) \<le> hf_deviceIndex f
      then (Some (Errorf ''device index %d out of range (count=%d)''), w, out)
      else
     (let info = devices ! nat (hf_deviceIndex f) in
      case (if bk_NeedsTerminalPIN B (di_Path info) then ReadTerminalPIN C (Some (cn_Stderr C)) w
            else (Inr [], cn_Stderr C (''using device ['' @ show_int (hf_deviceIndex f) @
              '']. PIN/touch via Windows Security UI (external key selectable there).'' @ newline) w)) of
        (Inl e, w) \<Rightarrow> (Some e, w, out)
      | (Inr pin, w) \<Rightarrow>
     (case bk_Open B (di_Path info) w of
        (Inl e, w) \<Rightarrow> (Some e, w, out)
      | (Inr dev, w) \<Rightarrow>
     (case hmac_credential B C f dev pin w of
        (Inl e, w) \<Rightarrow> (Some e, w, out)
      | (Inr credentialID, w) \<Rightarrow>
     (case ParseSalt g 0 (trim_space (hf_saltHex f)) of
        Inl e \<Rightarrow> (Some e, w, out)
      | Inr (salt, generated) \<Rightarrow>
     (let w = cn_Stderr C (''requesting hmac-secret; approve in Windows Security UI / touch key...'' @ newline) w in
      case au_Derive (bk_auth B) dev \<lparr>do_RPID = hf_rpID f, do_CredentialID = credentialID,
          do_Salt = salt, do_PIN = pin, do_UserPresence = False, do_UserPresenceSet = False,
          do_ClientDataJSON = []\<rparr> w of
        (Inl e, w) \<Rightarrow> (Some e, w, out)
      | (Inr None, w) \<Rightarrow> (Some nil_deref, w, out)
      | (Inr (Some secret), w) \<Rightarrow>
     (let wo = snd (write_out C (''credential_id='' @ hex_EncodeToString (se_CredentialID secret) @ newline) (w, out));
          wo = snd (write_out C (''salt='' @ hex_EncodeToString (se_Salt secret) @ newline) wo) in
      case writeEnclaveHex M C ''hmac_secret='' (se_HMACSecret secret) wo of
        (Some e, wo) \<Rightarrow> (Some e, wo)
      | (None, w, out) \<Rightarrow>
          (None, (if generated
             then cn_Stderr C (''generated random salt; store credential_id+salt to reproduce'' @ newline) w
             else w), out)))))))))))"

text \<open>\<open>run\<close>: on a malformed command line \<open>flag.Parse\<close> ends the process, with 0 after a request for help.\<close>

definition hmac_run ::
  "('a, 'w, 'e) backend \<Rightarrow> 'e memguard \<Rightarrow> rng \<Rightarrow> (string \<Rightarrow> int option) \<Rightarrow> 'w console \<Rightarrow> string list
     \<Rightarrow> 'w \<times> string \<Rightarrow> go_error option \<times> 'w \<times> string" where
  "hmac_run B M g parseInt0 C args wo =
     (case flag_Parse parseInt0 hmac_formal args hmac_defaults of
        Inl e \<Rightarrow> (Some (Panic (if e = ErrHelp then ''os.Exit(0)'' else ''os.Exit(2)'')), wo)
      | Inr (f, _) \<Rightarrow> hmac_run_parsed B M g C f wo)"

text \<open>The end of \<open>main\<close>: the error, in the words of \<open>show\<close>, and the exit status; 2 after a panic.
  \<open>memguard.Purge\<close> wipes memory that nothing reads any more.\<close>

definition exit_status ::
  "(go_error \<Rightarrow> string) \<Rightarrow> 'w console \<Rightarrow> go_error option \<Rightarrow> 'w \<Rightarrow> nat \<times> 'w" where
  "exit_status show C e w =
     (case e of None \<Rightarrow> (0, w)
      | Some e \<Rightarrow>
          if e = Panic ''os.Exit(0)'' then (0, w)
          else if is_panic e then (2, w)
          else (1, cn_Stderr C (''error: '' @ show e @ newline) w))"

definition hmac_main ::
  "(go_error \<Rightarrow> string) \<Rightarrow> ('a, 'w, 'e) backend \<Rightarrow> 'e memguard \<Rightarrow> rng \<Rightarrow> (string \<Rightarrow> int option)
     \<Rightarrow> 'w console \<Rightarrow> string list \<Rightarrow> 'w \<Rightarrow> nat \<times> 'w \<times> string" where
  "hmac_main show B M g parseInt0 C args w =
     (case hmac_run B M g parseInt0 C args (w, []) of (e, w, out) \<Rightarrow>
      case exit_status show C e w of (code, w) \<Rightarrow> (code, w, out))"

section \<open>secrets\<close>

record secrets_flags =
  sf_backend :: string
  sf_dbPath :: string
  sf_rpID :: string
  sf_userName :: string
  sf_noWebAuthn :: bool

definition secrets_defaults :: secrets_flags where
  "secrets_defaults =
     \<lparr>sf_backend = ''pebble'', sf_dbPath = [], sf_rpID = ''hmac-secret.example'',
      sf_userName = ''hmac-secret'', sf_noWebAuthn = False\<rparr>"

definition secrets_formal :: "string \<Rightarrow> secrets_flags flag option" where
  "secrets_formal name =
     (if name = ''backend'' then Some (StringVar (\<lambda>v. sf_backend_update (\<lambda>_. v)))
      else if name = ''db'' then Some (StringVar (\<lambda>v. sf_dbPath_update (\<lambda>_. v)))
      else if name = ''rp-id'' then Some (StringVar (\<lambda>v. sf_rpID_update (\<lambda>_. v)))
      else if name = ''user'' then Some (StringVar (\<lambda>v. sf_userName_update (\<lambda>_. v)))
      else if name = ''no-windows-webauthn'' then Some (BoolVar (\<lambda>v. sf_noWebAuthn_update (\<lambda>_. v)))
      else None)"

text \<open>A \<open>store.Store\<close> of either implementation.\<close>

definition either_ops :: "'s store_ops \<Rightarrow> 't store_ops \<Rightarrow> ('s + 't) store_ops" where
  "either_ops S T =
     \<lparr>st_Put = (\<lambda>c r st. case st of
        Inl s \<Rightarrow> (case st_Put S c r s of (e, s) \<Rightarrow> (e, Inl s))
      | Inr t \<Rightarrow> (case st_Put T c r t of (e, t) \<Rightarrow> (e, Inr t))),
      st_Get = (\<lambda>c a st. case st of Inl s \<Rightarrow> st_Get S c a s | Inr t \<Rightarrow> st_Get T c a t),
      st_Delete = (\<lambda>c a st. case st of
        Inl s \<Rightarrow> (case st_Delete S c a s of (e, s) \<Rightarrow> (e, Inl s))
      | Inr t \<Rightarrow> (case st_Delete T c a t of (e, t) \<Rightarrow> (e, Inr t))),
      st_Has = (\<lambda>c a st. case st of Inl s \<Rightarrow> st_Has S c a s | Inr t \<Rightarrow> st_Has T c a t),
      st_List = (\<lambda>c st. case st of Inl s \<Rightarrow> st_List S c s | Inr t \<Rightarrow> st_List T c t),
      st_Close = (\<lambda>st. case st of
        Inl s \<Rightarrow> (case st_Close S s of (e, s) \<Rightarrow> (e, Inl s))
      | Inr t \<Rightarrow> (case st_Close T t of (e, t) \<Rightarrow> (e, Inr t)))\<rparr>"

definition openStore ::
  "'p pebble_api \<Rightarrow> 'q sqlite_api \<Rightarrow> string \<Rightarrow> string \<Rightarrow> go_error + 'p option + 'q option" where
  "openStore P Q backend path =
     (let name = ToLower (trim_space backend) in
      if name = ''pebble'' \<or> name = [] then map_sum (\<lambda>e. e) Inl (pebble_Open P path)
      else if name = ''sqlite'' then map_sum (\<lambda>e. e) Inr (sqlite_Open Q path)
      else Inl (Errorf ''unknown backend %q''))"

text \<open>\<open>runtime.GOOS = "windows"\<close> is \<open>windows\<close>.\<close>

definition defaultPINProvider ::
  "bool \<Rightarrow> ('a, 'w, 'e) backend \<Rightarrow> 'w console \<Rightarrow> 'w pin_provider" where
  "defaultPINProvider windows B C =
     (if windows then (\<lambda>_ _. win_pin_Provide)
      else (\<lambda>_ _. cli_pin_Provide B C (cli_pin_New C)))"

text \<open>The path of the store, by the separator of the platform.\<close>

definition default_path :: "string \<Rightarrow> secrets_flags \<Rightarrow> string" where
  "default_path sep f =
     (if sf_dbPath f = [] then
       (if ToLower (sf_backend f) = ''sqlite'' then ''data'' @ sep @ ''secrets.sqlite''
        else ''data'' @ sep @ ''secrets.pebble'')
      else sf_dbPath f)"

text \<open>The command on an open store and service.\<close>

definition secrets_command ::
  "('s, 'a, 'w) secrets \<Rightarrow> ('a, 'w, 'e) authenticator \<Rightarrow> 'e memguard \<Rightarrow> rng \<Rightarrow> 'w console
     \<Rightarrow> string \<Rightarrow> string \<Rightarrow> 's \<times> 'w \<times> string \<Rightarrow> go_error option \<times> 's \<times> 'w \<times> string" where
  "secrets_command svc U M g C cmd alias st =
     (case st of (s, w, out) \<Rightarrow>
     (let ctx = background in
      if cmd = ''create'' then
       (if alias = [] then (Some (Errorf ''create requires alias''), s, w, out)
        else
       (case secrets_Create svc U g ctx alias (s, w) of
          (Inl e, s, w) \<Rightarrow> (Some e, s, w, out)
        | (Inr secret, s, w) \<Rightarrow>
         (let wo = snd (write_out C (''alias='' @ alias @ newline) (w, out)) in
          case writeEnclaveHex M C ''hmac_secret='' secret wo of (e, wo) \<Rightarrow> (e, s, wo))))
      else if cmd = ''derive'' \<or> cmd = ''get'' then
       (if alias = [] then (Some (Errorf ''derive requires alias''), s, w, out)
        else
       (case secrets_Derive svc U ctx alias (s, w) of
          (Inl e, s, w) \<Rightarrow> (Some e, s, w, out)
        | (Inr secret, s, w) \<Rightarrow>
         (let wo = snd (write_out C (''alias='' @ alias @ newline) (w, out)) in
          case writeEnclaveHex M C ''hmac_secret='' secret wo of (e, wo) \<Rightarrow> (e, s, wo))))
      else if cmd = ''delete'' \<or> cmd = ''rm'' then
       (if alias = [] then (Some (Errorf ''delete requires alias''), s, w, out)
        else (case secrets_Delete svc ctx alias s of (e, s) \<Rightarrow> (e, s, w, out)))
      else if cmd = ''has'' then
       (if alias = [] then (Some (Errorf ''has requires alias''), s, w, out)
        else
       (case secrets_Has svc ctx alias s of
          Inl e \<Rightarrow> (Some e, s, w, out)
        | Inr ok \<Rightarrow>
            (None, s, snd (write_out C ((if ok then ''true'' else ''false'') @ newline) (w, out)))))
      else if cmd = ''list'' then
       (case secrets_List svc ctx s of
          Inl e \<Rightarrow> (Some e, s, w, out)
        | Inr aliases \<Rightarrow>
            (None, s, fold (\<lambda>a wo. snd (write_out C (a @ newline) wo)) aliases (w, out)))
      else (Some (Errorf ''unknown command %q''), s, w, out)))"

text \<open>\<open>run\<close>. \<open>mkdir\<close> makes the directory of the path; its error is ignored. The store is closed at
  the end, and an error of \<open>Close\<close> is lost.\<close>

definition secrets_run ::
  "bool \<Rightarrow> string \<Rightarrow> 'p pebble_api \<Rightarrow> 'q sqlite_api \<Rightarrow> ('a, 'w, 'e) backend \<Rightarrow> 'e memguard \<Rightarrow> rng
     \<Rightarrow> (string \<Rightarrow> int option) \<Rightarrow> (string \<Rightarrow> 'w \<Rightarrow> 'w) \<Rightarrow> 'w console \<Rightarrow> string list \<Rightarrow> 'w \<times> string
     \<Rightarrow> go_error option \<times> ('p option + 'q option) option \<times> 'w \<times> string" where
  "secrets_run windows sep P Q B M g parseInt0 mkdir C args wo =
     (case wo of (w, out) \<Rightarrow>
     (case flag_Parse parseInt0 secrets_formal args secrets_defaults of
        Inl e \<Rightarrow> (Some e, None, w, out)
      | Inr (f, rest) \<Rightarrow>
     (if length rest < 1
      then (Some (Errorf ''usage: secrets <create|derive|list|delete|has> [alias]''), None, w, out)
      else
     (let cmd = rest ! 0; alias = (if 1 < length rest then rest ! 1 else []);
          dbPath = default_path sep f; w = mkdir dbPath w in
      case openStore P Q (sf_backend f) dbPath of
        Inl e \<Rightarrow> (Some e, None, w, out)
      | Inr st \<Rightarrow>
     (let S = either_ops (pebble_ops P) (sqlite_ops Q) in
      case secrets_New (bk_ListDevices B) (bk_Open B)
        \<lparr>so_Store = Some S, so_Devices = None, so_Open = None,
         so_Select = Some (\<lambda>_. selector_Select C (selector_New C)),
         so_PIN = Some (defaultPINProvider windows B C),
         so_ListOptions = \<lparr>lo_ExcludeWindowsWebAuthn = sf_noWebAuthn f\<rparr>, so_RPID = sf_rpID f,
         so_RPName = [], so_UserName = sf_userName f\<rparr> of
        Inl e \<Rightarrow> (Some e, Some (snd (st_Close S st)), w, out)
      | Inr svc \<Rightarrow>
     (case secrets_command svc (bk_auth B) M g C cmd alias (st, w, out) of (e, st, w, out) \<Rightarrow>
        (e, Some (snd (st_Close S st)), w, out)))))))"

definition secrets_main ::
  "(go_error \<Rightarrow> string) \<Rightarrow> bool \<Rightarrow> string \<Rightarrow> 'p pebble_api \<Rightarrow> 'q sqlite_api \<Rightarrow> ('a, 'w, 'e) backend
     \<Rightarrow> 'e memguard \<Rightarrow> rng \<Rightarrow> (string \<Rightarrow> int option) \<Rightarrow> (string \<Rightarrow> 'w \<Rightarrow> 'w) \<Rightarrow> 'w console \<Rightarrow> string list
     \<Rightarrow> 'w \<Rightarrow> nat \<times> ('p option + 'q option) option \<times> 'w \<times> string" where
  "secrets_main show windows sep P Q B M g parseInt0 mkdir C args w =
     (case secrets_run windows sep P Q B M g parseInt0 mkdir C args (w, []) of (e, st, w, out) \<Rightarrow>
      case exit_status show C e w of (code, w) \<Rightarrow> (code, st, w, out))"

end
