(* ===== verification/Command_Properties.thy ===== *)
theory Command_Properties
  imports Commands Windows_Properties
begin

text \<open>
  What the commands promise: the values that \<open>hmac-secret\<close> prints derive the secret again, \<open>secrets\<close>
  prints for an alias what it printed when it made it, and the selector takes the device that was
  shown under the number typed.
\<close>

section \<open>Output\<close>

definition printing :: "'w console \<Rightarrow> bool" where
  "printing C \<longleftrightarrow> (\<forall>s w. fst (cn_Stdout C s w) = None)"

lemma write_out_ok:
  assumes "printing C"
  shows "\<exists>w'. write_out C txt (w, out) = (None, w', out @ txt)"
proof (cases "cn_Stdout C txt w")
  case (Pair r w')
  moreover have "fst (cn_Stdout C txt w) = None" using assms by (simp add: printing_def)
  ultimately show ?thesis by (simp add: write_out_def)
qed

lemma hex_append: "hex_EncodeToString (p @ q) = hex_EncodeToString p @ hex_EncodeToString q"
  by (induction p) auto

lemma hex_Write_ok:
  assumes "printing C"
  shows "\<exists>w'. hex_Write C p (w, out) = (None, w', out @ hex_EncodeToString p)"
proof (induction "length p" arbitrary: p w out rule: less_induct)
  case less
  show ?case
  proof (cases "p = []")
    case True
    then show ?thesis by (simp add: hex_Write.simps)
  next
    case False
    obtain w1 where w: "write_out C (hex_EncodeToString (take 512 p)) (w, out)
        = (None, w1, out @ hex_EncodeToString (take 512 p))" using write_out_ok [OF assms] by blast
    have "length (drop 512 p) < length p" using False by simp
    from less [OF this] obtain w2 where "hex_Write C (drop 512 p) (w1, out @ hex_EncodeToString (take 512 p))
        = (None, w2, out @ hex_EncodeToString (take 512 p) @ hex_EncodeToString (drop 512 p))"
      by (metis append_assoc)
    then show ?thesis using False w
      by (subst hex_Write.simps) (simp flip: hex_append)
  qed
qed

definition hex_line :: "string \<Rightarrow> bytes \<Rightarrow> string" where
  "hex_line prefix bs = prefix @ hex_EncodeToString bs @ newline"

lemma writeEnclave_ok:
  assumes "printing C" "mg_Open M e = Inr bs"
  shows "\<exists>w'. writeEnclaveHex M C prefix (Some e) (w, out) = (None, w', out @ hex_line prefix bs)"
proof -
  obtain w1 where 1: "write_out C prefix (w, out) = (None, w1, out @ prefix)"
    using write_out_ok [OF assms(1)] by blast
  obtain w2 where 2: "hex_Write C bs (w1, out @ prefix) = (None, w2, (out @ prefix) @ hex_EncodeToString bs)"
    using hex_Write_ok [OF assms(1)] by blast
  obtain w3 where 3: "write_out C newline (w2, (out @ prefix) @ hex_EncodeToString bs)
      = (None, w3, ((out @ prefix) @ hex_EncodeToString bs) @ newline)"
    using write_out_ok [OF assms(1)] by blast
  show ?thesis using assms(2) 1 2 3 by (simp add: writeEnclaveHex_def hex_line_def)
qed

lemma writeEnclave_None:
  assumes "printing C" "writeEnclaveHex M C prefix e (w, out) = (None, w', out')"
  obtains x bs where "e = Some x" "mg_Open M x = Inr bs" "out' = out @ hex_line prefix bs"
proof (cases e)
  case None
  with assms(2) show ?thesis by (simp add: writeEnclaveHex_def)
next
  case (Some x)
  show ?thesis
  proof (cases "mg_Open M x")
    case (Inl err)
    with Some assms(2) show ?thesis by (simp add: writeEnclaveHex_def)
  next
    case (Inr bs)
    with writeEnclave_ok [OF assms(1) Inr, of prefix w out] Some assms(2) that show ?thesis by auto
  qed
qed

text \<open>A writer that may fail: what it takes is a beginning of what it is given.\<close>

definition begins :: "string \<Rightarrow> string \<Rightarrow> string \<Rightarrow> go_error option \<Rightarrow> bool" where
  "begins line out out' e \<longleftrightarrow> (\<exists>l r. line = l @ r \<and> out' = out @ l \<and> (e = None \<longrightarrow> r = []))"

lemma begins_write:
  assumes "write_out C s (w, out) = (e, w', out')"
  shows "begins s out out' e"
proof (cases "fst (cn_Stdout C s w)")
  case None
  with assms have "e = None" "out' = out @ s" by (auto simp: write_out_def split: prod.splits)
  then show ?thesis by (simp add: begins_def)
next
  case (Some x)
  with assms have "e = Some (fst x)" "out' = out @ take (snd x) s"
    by (auto simp: write_out_def split: prod.splits)
  then show ?thesis
    unfolding begins_def by (intro exI [of _ "take (snd x) s"] exI [of _ "drop (snd x) s"]) simp
qed

lemma begins_append:
  assumes "begins s out o1 None" "begins t o1 o2 e"
  shows "begins (s @ t) out o2 e"
proof -
  obtain l r where "t = l @ r" "o2 = o1 @ l" "e = None \<longrightarrow> r = []" using assms(2) by (auto simp: begins_def)
  with assms(1) show ?thesis unfolding begins_def by (intro exI [of _ "s @ l"] exI [of _ r]) auto
qed

lemma begins_more: "begins s out o1 (Some x) \<Longrightarrow> begins (s @ t) out o1 (Some y)"
  by (fastforce simp: begins_def)

lemma begins_hex: "hex_Write C p (w, out) = (e, w', out') \<Longrightarrow> begins (hex_EncodeToString p) out out' e"
proof (induction "length p" arbitrary: p w out rule: less_induct)
  case less
  have h: "hex_EncodeToString p = hex_EncodeToString (take 512 p) @ hex_EncodeToString (drop 512 p)"
    by (simp flip: hex_append)
  obtain e1 w1 o1 where 1: "write_out C (hex_EncodeToString (take 512 p)) (w, out) = (e1, w1, o1)"
    by (metis prod_cases3)
  note b = begins_write [OF 1]
  show ?case
  proof (cases "p = []")
    case True
    then show ?thesis using less.prems by (simp add: hex_Write.simps begins_def)
  next
    case False
    show ?thesis
    proof (cases e1)
      case None
      then have "hex_Write C (drop 512 p) (w1, o1) = (e, w', out')"
        using less.prems 1 False by (subst (asm) hex_Write.simps) simp
      then have "begins (hex_EncodeToString (drop 512 p)) o1 out' e"
        using less.hyps [of "drop 512 p"] False by simp
      with b None show ?thesis unfolding h by (auto intro: begins_append)
    next
      case (Some x)
      then have "e = Some x" "out' = o1"
        using less.prems 1 False by (subst (asm) hex_Write.simps, simp)+
      with b Some show ?thesis unfolding h by (auto intro: begins_more)
    qed
  qed
qed

text \<open>C33: A secret is printed whole, however long it is: once the enclave opens, \<open>writeEnclaveHex\<close> ends
  after finitely many writes of at most 512 bytes; it returns no error only when the output is the
  prefix, the whole secret in hexadecimal and a newline, and then the digits decode to the secret;
  when a write fails, after however many of its bytes, it reports an error and the output is a
  beginning of that line.\<close>

theorem enclave_written_whole:
  assumes "mg_Open M x = Inr bs"
  shows "\<exists>e w' l r. writeEnclaveHex M C p (Some x) (w, out) = (e, w', out @ l) \<and>
    l @ r = p @ hex_EncodeToString bs @ newline \<and> (e = None \<longrightarrow> r = []) \<and>
    hex_DecodeString (hex_EncodeToString bs) = Some bs \<and>
    (printing C \<longrightarrow> e = None)"
proof -
  obtain e w' out' where e: "writeEnclaveHex M C p (Some x) (w, out) = (e, w', out')" by (metis prod_cases3)
  obtain e1 w1 o1 where 1: "write_out C p (w, out) = (e1, w1, o1)" by (metis prod_cases3)
  obtain e2 w2 o2 where 2: "hex_Write C bs (w1, o1) = (e2, w2, o2)" by (metis prod_cases3)
  obtain e3 w3 o3 where 3: "write_out C newline (w2, o2) = (e3, w3, o3)" by (metis prod_cases3)
  note b = begins_write [OF 1] begins_hex [OF 2] begins_write [OF 3]
  have "begins (p @ hex_EncodeToString bs @ newline) out out' e"
  proof (cases e1)
    case (Some y)
    with e 1 assms b(1) show ?thesis by (auto simp: writeEnclaveHex_def intro: begins_more)
  next
    case None
    have "begins (hex_EncodeToString bs @ newline) o1 out' e"
    proof (cases e2)
      case (Some y)
      with e 1 2 None assms b(2) show ?thesis by (auto simp: writeEnclaveHex_def intro: begins_more)
    next
      case n: None
      with e 1 2 3 None assms b(3) have "begins newline o2 out' e"
        by (cases e3) (auto simp: writeEnclaveHex_def begins_def)
      with n b(2) show ?thesis by (auto intro: begins_append)
    qed
    with None b(1) show ?thesis by (auto intro: begins_append)
  qed
  moreover have "printing C \<Longrightarrow> e = None" using writeEnclave_ok [OF _ assms, of C p w out] e by auto
  ultimately show ?thesis using e unfolding begins_def by auto
qed

section \<open>Hexadecimal on the command line\<close>

definition hex_char :: "char \<Rightarrow> bool" where
  "hex_char c \<longleftrightarrow> c \<in> set ''0123456789abcdef''"

lemma hex_digit_char: "n < 16 \<Longrightarrow> hex_char (hex_digit n)"
proof -
  assume "n < 16"
  then have "n \<in> set [0..<16]" by simp
  moreover have "\<forall>n \<in> set [0..<16]. hex_char (hex_digit n)" by code_simp
  ultimately show ?thesis by blast
qed

lemma hex_chars: "c \<in> set (hex_EncodeToString bs) \<Longrightarrow> hex_char c"
proof (induction bs)
  case (Cons b bs)
  have "unat b < 256" using unsigned_less [of b] by simp
  with Cons show ?case by (auto intro: hex_digit_char)
qed simp

lemma ws_not_hex: "p \<in> set ws_seqs \<union> set (map rev ws_seqs) \<Longrightarrow> p \<noteq> [] \<and> \<not> hex_char (hd p)"
proof -
  have "\<forall>p \<in> set (ws_seqs @ map rev ws_seqs). p \<noteq> [] \<and> \<not> hex_char (hd p)" by code_simp
  then show "p \<in> set ws_seqs \<union> set (map rev ws_seqs) \<Longrightarrow> p \<noteq> [] \<and> \<not> hex_char (hd p)" by simp
qed

lemma trim_seqs_kept:
  assumes "s = [] \<or> hex_char (hd s)" "\<And>p. p \<in> set ps \<Longrightarrow> p \<noteq> [] \<and> \<not> hex_char (hd p)"
  shows "trim_seqs ps s = s"
proof -
  have "strip_any ps s = None" unfolding strip_any_None using assms by fastforce
  then show ?thesis by (simp add: trim_seqs.simps)
qed

lemma trim_hex: "trim_space (hex_EncodeToString bs) = hex_EncodeToString bs"
proof -
  let ?h = "hex_EncodeToString bs"
  have c: "s = [] \<or> hex_char (hd s)" if "set s \<subseteq> set ?h" for s
    using that hex_chars [of _ bs] by (cases s) auto
  have "trim_left ?h = ?h" unfolding trim_left_def using ws_not_hex by (intro trim_seqs_kept c) auto
  moreover have "trim_right ?h = ?h"
    unfolding trim_right_def using ws_not_hex c [of "rev ?h"] hex_chars [of "last ?h" bs]
    by (subst trim_seqs_kept) (auto simp: hd_rev)
  ultimately show ?thesis by (simp add: trim_space_def)
qed

lemma hex_Nil [simp]: "hex_EncodeToString bs = [] \<longleftrightarrow> bs = []"
  by (cases bs) auto

section \<open>hmac-secret\<close>

text \<open>An authenticator that says for which credential and salt it derived, and takes no empty ID.\<close>

locale reproducing = prf_authenticator +
  assumes answers: "au_Derive U auth q w = (Inr (Some sec), w') \<Longrightarrow>
    se_CredentialID sec = do_CredentialID q \<and> se_Salt sec = do_Salt q \<and> do_CredentialID q \<noteq> []"

sublocale fido_prf \<subseteq> cmd: reproducing "device_authenticator F M g" content "\<lambda>v rp. hmac v (trim_space rp)"
proof
  show "se_CredentialID sec = do_CredentialID q \<and> se_Salt sec = do_Salt q \<and> do_CredentialID q \<noteq> []"
    if "au_Derive (device_authenticator F M g) auth q w = (Inr (Some sec), w')" for auth q w sec w'
    using that by (auto simp: device_authenticator_def split: prod.splits elim!: device_Derive_cases)
qed

sublocale webauthn_prf \<subseteq> cmd: reproducing "win_authenticator M m g api" content "broker_hmac hmac"
proof
  show "se_CredentialID sec = do_CredentialID q \<and> se_Salt sec = do_Salt q \<and> do_CredentialID q \<noteq> []"
    if "au_Derive (win_authenticator M m g api) auth q w = (Inr (Some sec), w')" for auth q w sec w'
    using that by (auto simp: win_authenticator_def split: prod.splits elim!: win_Derive_secret)
qed

text \<open>Whether a PIN is given does not depend on the device chosen: either the terminal asks for every
  device and is never answered with nothing, or it asks for none.\<close>

definition asks_alike :: "('a, 'w, 'e) backend \<Rightarrow> 'w console \<Rightarrow> bool \<Rightarrow> bool" where
  "asks_alike B C pinned \<longleftrightarrow> (\<forall>path. bk_NeedsTerminalPIN B path = pinned) \<and>
     (pinned \<longrightarrow> (\<forall>w. fst (cn_ReadPassword C w) \<noteq> Inr []))"

definition hmac_lines :: "bytes \<Rightarrow> bytes \<Rightarrow> bytes \<Rightarrow> string" where
  "hmac_lines credentialID salt secret =
     hex_line ''credential_id='' credentialID @ hex_line ''salt='' salt @ hex_line ''hmac_secret='' secret"

definition run_pin :: "('a, 'w, 'e) backend \<Rightarrow> 'w console \<Rightarrow> hmac_flags \<Rightarrow> string \<Rightarrow> 'w \<Rightarrow> (go_error + string) \<times> 'w" where
  "run_pin B C f path w =
     (if bk_NeedsTerminalPIN B path then ReadTerminalPIN C (Some (cn_Stderr C)) w
      else (Inr [], cn_Stderr C (''using device ['' @ show_int (hf_deviceIndex f) @
        '']. PIN/touch via Windows Security UI (external key selectable there).'' @ newline) w))"

lemma run_pin_alike:
  assumes "asks_alike B C pinned" "run_pin B C f path w = (Inr pin, w')"
  shows "pin \<noteq> [] \<longleftrightarrow> pinned"
proof (cases pinned)
  case True
  then obtain bs u where "cn_ReadPassword C u = (Inr bs, w') \<or> (\<exists>v. cn_ReadPassword C u = (Inr bs, v))" "pin = str_of bs"
    using assms by (auto simp: asks_alike_def run_pin_def ReadTerminalPIN_def Let_def split: prod.splits sum.splits)
  moreover have "fst (cn_ReadPassword C u) \<noteq> Inr []" using assms(1) True by (auto simp: asks_alike_def)
  ultimately show ?thesis using True by (auto simp: str_of_def)
next
  case False
  then show ?thesis using assms by (simp add: asks_alike_def run_pin_def)
qed

lemma early_panic:
  assumes "(case x of (Inl e, w) \<Rightarrow> (Some e, w, out) | (Inr v, w) \<Rightarrow> k v w) = (None, r)"
  obtains v w where "x = (Inr v, w)" "k v w = (None, r)"
  using assms by (cases x) (auto split: sum.splits)

lemma early_nil:
  assumes "(case x of None \<Rightarrow> (Some e, wo) | Some v \<Rightarrow> k v) = (None, r)"
  obtains v where "x = Some v" "k v = (None, r)"
  using assms by (cases x) auto

lemma early_salt:
  assumes "(case x of Inl e \<Rightarrow> (Some e, w, out) | Inr (a, b) \<Rightarrow> k a b) = (None, r)"
  obtains a b where "x = Inr (a, b)" "k a b = (None, r)"
  using assms by (cases x) (auto split: prod.splits)

lemma early_guard:
  assumes "(if b then (Some e, wo) else r) = (None, q)"
  obtains "\<not> b" "r = (None, q)"
  using assms by (cases b) auto

lemma printed_run:
  assumes "(case writeEnclaveHex M C ''hmac_secret='' e
      (snd (write_out C (''salt='' @ hex_EncodeToString salt @ newline)
        (snd (write_out C (''credential_id='' @ hex_EncodeToString i @ newline) (w, out))))) of
      (Some e, wo) \<Rightarrow> (Some e, wo) | (None, w, out) \<Rightarrow> (None, k w, out)) = (None, w', out')"
    and "printing C"
  obtains x bs where "e = Some x" "mg_Open M x = Inr bs" "out' = out @ hmac_lines i salt bs"
proof -
  obtain w1 where 1: "write_out C (''credential_id='' @ hex_EncodeToString i @ newline) (w, out)
      = (None, w1, out @ hex_line ''credential_id='' i)"
    using write_out_ok [OF assms(2)] unfolding hex_line_def by blast
  obtain w2 where 2: "write_out C (''salt='' @ hex_EncodeToString salt @ newline)
      (w1, out @ hex_line ''credential_id='' i)
      = (None, w2, (out @ hex_line ''credential_id='' i) @ hex_line ''salt='' salt)"
    using write_out_ok [OF assms(2)] unfolding hex_line_def by blast
  obtain w3 where "writeEnclaveHex M C ''hmac_secret='' e
      (w2, (out @ hex_line ''credential_id='' i) @ hex_line ''salt='' salt) = (None, w3, out')"
    using assms(1) unfolding 1 2 snd_conv by (auto split: prod.splits option.splits)
  from writeEnclave_None [OF assms(2) this] that show ?thesis by (auto simp: hmac_lines_def)
qed

lemma hmac_run_cases:
  assumes "hmac_run_parsed B M g C f (w, out) = (None, w', out')" "\<not> hf_listOnly f" "printing C"
  obtains path w1 pin w2 dev w3 credentialID w4 salt generated w5 secret w6 x bs where
    "run_pin B C f path w1 = (Inr pin, w2)" "hmac_credential B C f dev pin w3 = (Inr credentialID, w4)"
    "ParseSalt g 0 (trim_space (hf_saltHex f)) = Inr (salt, generated)"
    "au_Derive (bk_auth B) dev \<lparr>do_RPID = hf_rpID f, do_CredentialID = credentialID,
        do_Salt = salt, do_PIN = pin, do_UserPresence = False, do_UserPresenceSet = False,
        do_ClientDataJSON = []\<rparr> w5 = (Inr (Some secret), w6)"
    "se_HMACSecret secret = Some x" "mg_Open M x = Inr bs"
    "out' = out @ hmac_lines (se_CredentialID secret) (se_Salt secret) bs"
  using assms(1)[unfolded hmac_run_parsed_def run_pin_def [symmetric] Let_def prod.case]
  unfolding if_not_P [OF assms(2)]
proof (elim early_guard early_panic early_salt early_nil, goal_cases)
  case (1 devices w1 pin w2 dev w3 credentialID w4 salt generated o' w6 secret)
  note last = 1(13)
  show ?case
    by (rule printed_run [OF last assms(3)]) (rule that [OF 1(7,9,10) 1(11)[unfolded 1(12)]])
qed

lemma takeWhile_hex: "takeWhile hex_char (hex_EncodeToString x @ newline @ r) = hex_EncodeToString x"
proof -
  have "takeWhile hex_char (newline @ r) = []" by (simp add: newline_def hex_char_def)
  then show ?thesis using hex_chars [of _ x] by (simp add: takeWhile_append2)
qed

lemma hex_line_inject:
  assumes "hex_line p x @ r = hex_line p y @ s"
  shows "x = y \<and> r = s"
proof -
  have e: "hex_EncodeToString x @ newline @ r = hex_EncodeToString y @ newline @ s"
    using assms by (simp add: hex_line_def)
  then have h: "hex_EncodeToString x = hex_EncodeToString y" using takeWhile_hex by metis
  then have "x = y" using hex_roundtrip by (metis option.inject)
  with e show ?thesis by simp
qed

lemma hmac_lines_inject: "hmac_lines x y z = hmac_lines x' y' z' \<Longrightarrow> x = x' \<and> y = y' \<and> z = z'"
  unfolding hmac_lines_def
  by (metis append_Nil2 hex_line_inject)

text \<open>C24: What a run of \<open>hmac-secret\<close> prints is enough to derive the secret again. A run that makes a
  credential prints its ID, the salt and the secret in hexadecimal; a later run that is given the
  ID and the salt as they were printed and the same RP ID, and that succeeds, prints the same
  three lines, whichever device it uses.\<close>

theorem hmac_secret_reproducible:
  assumes "reproducing (bk_auth B) content hmac" "memguard_api M content"
    and "asks_alike B C pinned" "asks_alike B C' pinned" "printing C" "printing C'"
    and "hmac_run_parsed B M g C f (w, []) = (None, w1, out)" "\<not> hf_listOnly f"
    and "out = hex_line ''credential_id='' i @ hex_line ''salt='' z @ rest"
    and "hmac_run_parsed B M g' C' f' (v, []) = (None, v1, out')" "\<not> hf_listOnly f'"
      "hf_rpID f' = hf_rpID f" "hf_credentialIDHex f' = hex_EncodeToString i"
      "hf_saltHex f' = hex_EncodeToString z"
  shows "out' = out \<and> (\<exists>secret. out = hmac_lines i z secret) \<and> length z = HmacSaltSize"
  using assms(7,8,5)
proof (cases rule: hmac_run_cases)
  case (1 path w1 pin w2 dev w3 credentialID w4 salt generated w5 secret w6 x bs)
  have "prf_authenticator (bk_auth B) content hmac" using assms(1) by (simp add: reproducing_def)
  note law = prf_authenticator.derive_prf [OF this]
  note answers = reproducing.answers [OF assms(1)]
  have ne: "credentialID \<noteq> []" using answers [OF 1(4)] by simp
  have len: "length salt = HmacSaltSize"
    using 1(3) rand_Read_length by (auto simp: ParseSalt_def split: if_splits sum.splits option.splits)
  have p: "pin \<noteq> [] \<longleftrightarrow> pinned" by (rule run_pin_alike [OF assms(3) 1(1)])
  have bs: "bs = hmac pinned (hf_rpID f) credentialID salt"
    using memguard_api.open_content [OF assms(2) 1(6)] law [OF 1(4)] 1(5) p by simp
  have out: "out = hmac_lines credentialID salt bs" using 1(7) answers [OF 1(4)] by simp
  then have given: "i = credentialID \<and> z = salt"
    using assms(9) by (auto simp: hmac_lines_def dest!: hex_line_inject)
  note r = assms(12-14)
  from assms(10,11,6) have "out' = out"
  proof (cases rule: hmac_run_cases)
    case (1 path' u1 pin' u2 dev' u3 credentialID' u4 salt' generated' u5 secret' u6 x' bs')
    have "pin' \<noteq> [] \<longleftrightarrow> pinned" by (rule run_pin_alike [OF assms(4) 1(1)])
    moreover have c: "credentialID' = credentialID"
      using 1(2) r(2,3) ne given by (auto simp: hmac_credential_def trim_hex split: if_splits)
    moreover have s: "salt' = salt"
      using 1(3) r(3) len given by (auto simp: ParseSalt_def trim_hex HmacSaltSize_def split: if_splits)
    ultimately have "bs' = bs"
      using memguard_api.open_content [OF assms(2) 1(6)] law [OF 1(4)] 1(5) r(1) bs by simp
    then show ?thesis using 1(7) answers [OF 1(4)] out c s by simp
  qed
  with out len given show ?thesis by blast
qed

text \<open>A console that answers with a PIN, and a device.\<close>

definition sample_console :: "'w console" where
  "sample_console =
     \<lparr>cn_Stdout = (\<lambda>_ w. (None, w)), cn_Stderr = (\<lambda>_ w. w), cn_ReadLine = (\<lambda>w. (Inr '' 1 '', w)),
      cn_ReadPassword = (\<lambda>w. (Inr (bytes_of ''1234''), w))\<rparr>"

theorem enclave_written_whole_witness:
  "\<exists>w'. writeEnclaveHex plain_guard sample_console ''hmac_secret='' (Some [0xAB, 1]) ((), []) =
     (None, w', ''hmac_secret=ab01'' @ newline)"
proof -
  have "printing sample_console" by (simp add: printing_def sample_console_def)
  moreover have "hex_EncodeToString [0xAB, 1] = ''ab01''" by code_simp
  ultimately show ?thesis
    using enclave_written_whole [of plain_guard "[0xAB, 1]" "[0xAB, 1]" sample_console "''hmac_secret=''" "()" "[]"]
    by (auto simp: plain_guard_def simp del: hex_EncodeToString.simps)
qed

abbreviation sample_backend where
  "sample_backend \<equiv> libfido2_backend NonWindows sample_fido plain_guard zero_rng"

lemma sample_printing [simp]: "printing sample_console"
  by (simp add: printing_def sample_console_def)

lemma sample_asks [simp]: "asks_alike sample_backend sample_console True"
  by (simp add: asks_alike_def bk_NeedsTerminalPIN_def libfido2_backend_def isWindowsHello_def
      sample_console_def bytes_of_def)

lemma sample_write [simp]: "write_out sample_console s (w, out) = (None, w, out @ s)"
  by (simp add: write_out_def sample_console_def)

lemma sample_print:
  "\<exists>w'. writeEnclaveHex plain_guard sample_console p (Some e) (w, out) = (None, w', out @ hex_line p e)"
  by (rule writeEnclave_ok) (simp_all add: plain_guard_def)

definition sample_flags :: "bytes \<Rightarrow> bytes \<Rightarrow> hmac_flags" where
  "sample_flags i z = hmac_defaults\<lparr>hf_rpID := ''example.org'',
     hf_credentialIDHex := hex_EncodeToString i, hf_saltHex := hex_EncodeToString z\<rparr>"

lemma trim_words [simp]:
  "trim_space ''example.org'' = ''example.org''" "trim_space ''hmac-secret-demo'' = ''hmac-secret-demo''"
  by code_simp+

lemma sample_devices:
  "\<exists>d ds. bk_ListDevices sample_backend l (w, k) = (Inr (d # ds), (w, k)) \<and> di_Path d = ''usb''"
  by (simp add: libfido2_backend_def ListDevices_def sample_fido_def sample_locations_def
      platformLocationAllowed_def isWindowsHello_def promote_0 reindex_def enumerate_Suc_eq Let_def)

lemma sample_pin_read: "ReadTerminalPIN sample_console (Some (cn_Stderr sample_console)) w = (Inr ''1234'', w)"
  by (simp add: ReadTerminalPIN_def sample_console_def Let_def)

lemma sample_stderr [simp]: "cn_Stderr sample_console s = (\<lambda>w. w)"
  by (simp add: sample_console_def fun_eq_iff)

lemma sample_bk_open:
  "bk_Open sample_backend ''usb'' (w, k) = (Inr \<lparr>dv_path = ''usb'', dv_device = Some ''usb''\<rparr>, (w, k))"
  by (simp add: libfido2_backend_def device_Open_def sample_fido_def)

lemma client_data_create: "\<exists>b. client_data [] ''webauthn.create'' (replicate 32 0) ''example.org'' = Inr b"
  by (simp add: client_data_def MakeClientDataJSON_def)

lemma sample_bk_create:
  assumes "co_RPID q = ''example.org''" "co_UserID q = []" "co_ClientDataJSON q = []"
  shows "au_CreateCredential (bk_auth sample_backend) \<lparr>dv_path = ''usb'', dv_device = Some ''usb''\<rparr> q (w, k)
    = (Inr (Some \<lparr>cr_ID = [of_nat w], cr_RPID = ''example.org'', cr_PubKey = []\<rparr>), (Suc w, k + 2))"
proof -
  obtain b where "client_data [] ''webauthn.create'' (replicate 32 0) ''example.org'' = Inr b"
    using client_data_create by blast
  with assms show ?thesis
    by (simp add: libfido2_backend_def device_authenticator_def device_CreateCredential_def
        device_IsFIDO2_def sample_fido_def sample_random create_reads_def Let_def)
qed

lemma sample_bk_derive:
  assumes "length s = 32"
  shows "au_Derive (bk_auth sample_backend) \<lparr>dv_path = ''usb'', dv_device = Some ''usb''\<rparr>
    \<lparr>do_RPID = ''example.org'', do_CredentialID = [i], do_Salt = s, do_PIN = p, do_UserPresence = False,
     do_UserPresenceSet = False, do_ClientDataJSON = []\<rparr> (w, k)
    = (Inr (Some \<lparr>se_CredentialID = [i], se_Salt = s, se_HMACSecret = Some (i # s)\<rparr>), (w, Suc k))"
  using sample_device_derive [of "[i]" s] assms
  by (simp add: libfido2_backend_def device_authenticator_def HmacSaltSize_def)

lemma sample_run:
  assumes "length s = 32" "ParseSalt zero_rng 0 (trim_space (hf_saltHex f)) = Inr (s, b)"
    "hf_deviceIndex f = 0" "hf_rpID f = ''example.org''" "trim_space (hf_userName f) \<noteq> []" "\<not> hf_listOnly f"
    "hmac_credential sample_backend sample_console f \<lparr>dv_path = ''usb'', dv_device = Some ''usb''\<rparr>
       ''1234'' (w, k) = (Inr [i], w1)"
  shows "\<exists>w2. hmac_run_parsed sample_backend plain_guard zero_rng sample_console f ((w, k), [])
     = (None, w2, hmac_lines [i] s (i # s))"
proof -
  obtain d ds where d: "bk_ListDevices sample_backend
        \<lparr>lo_ExcludeWindowsWebAuthn = hf_noWindowsWebAuthn f\<rparr> (w, k) = (Inr (d # ds), (w, k))"
      "di_Path d = ''usb''" using sample_devices by blast
  have n: "bk_NeedsTerminalPIN sample_backend ''usb''" using sample_asks by (simp add: asks_alike_def)
  obtain u j where w1: "w1 = (u, j)" by (cases w1)
  have f: "fold (\<lambda>d w. w) xs w = w" for xs :: "device_info list" and w :: "nat \<times> nat"
    by (induction xs) simp_all
  obtain w2 where p: "writeEnclaveHex plain_guard sample_console ''hmac_secret='' (Some (i # s))
     ((u, Suc j), hex_line ''credential_id='' [i] @ hex_line ''salt='' s)
      = (None, w2, (hex_line ''credential_id='' [i] @ hex_line ''salt='' s) @ hex_line ''hmac_secret='' (i # s))"
    using sample_print [of "''hmac_secret=''" "i # s" "(u, Suc j)"] by blast
  show ?thesis unfolding hmac_run_parsed_def
    using assms(2-6) d n p
    by (simp add: Let_def f sample_pin_read sample_bk_open assms(7) w1 sample_bk_derive [OF assms(1)]
        hmac_lines_def del: hex_EncodeToString.simps)
       (simp add: hex_line_def del: hex_EncodeToString.simps)
qed

lemma trim_hex_run [simp]: "trim_space (hf_saltHex (sample_flags i z)) = hex_EncodeToString z"
    "trim_space (hf_credentialIDHex (sample_flags i z)) = hex_EncodeToString i"
    "hf_deviceIndex (sample_flags i z) = 0" "hf_rpID (sample_flags i z) = ''example.org''"
    "hf_userName (sample_flags i z) = ''hmac-secret-demo''" "\<not> hf_listOnly (sample_flags i z)"
  by (simp_all add: sample_flags_def hmac_defaults_def trim_hex)

lemma sample_first_run:
  "\<exists>w2. hmac_run_parsed sample_backend plain_guard zero_rng sample_console (sample_flags [] [])
     ((7, 0), []) = (None, w2, hmac_lines [7] (replicate 32 0) (7 # replicate 32 0))"
  by (rule sample_run [where b = True])
     (simp_all add: ParseSalt_def sample_random [unfolded randomBytes_def] HmacSaltSize_def
        hmac_credential_def Let_def sample_bk_create)

theorem hmac_secret_reproducible_witness:
  "\<exists>w1 w2. hmac_run_parsed sample_backend plain_guard zero_rng sample_console (sample_flags [] [])
      ((7, 0), []) = (None, w1, hmac_lines [7] (replicate 32 0) (7 # replicate 32 0)) \<and>
    hmac_run_parsed sample_backend plain_guard zero_rng sample_console
      (sample_flags [7] (replicate 32 0)) ((20, 9), [])
      = (None, w2, hmac_lines [7] (replicate 32 0) (7 # replicate 32 0))"
proof -
  obtain w1 where a: "hmac_run_parsed sample_backend plain_guard zero_rng sample_console (sample_flags [] [])
     ((7, 0), []) = (None, w1, hmac_lines [7] (replicate 32 0) (7 # replicate 32 0))"
    using sample_first_run by blast
  have "\<exists>w2. hmac_run_parsed sample_backend plain_guard zero_rng sample_console
      (sample_flags [7] (replicate 32 0)) ((20, 9), [])
      = (None, w2, hmac_lines [7] (replicate 32 0) (7 # replicate 32 0))"
    by (rule sample_run [where b = False]) (simp_all add: ParseSalt_def HmacSaltSize_def
        hmac_credential_def del: hex_EncodeToString.simps)
  then obtain w2 out where b: "hmac_run_parsed sample_backend plain_guard zero_rng sample_console
      (sample_flags [7] (replicate 32 0)) ((20, 9), []) = (None, w2, out)" by blast
  have "reproducing (bk_auth sample_backend) (\<lambda>e. e) (\<lambda>_ _ i s. i @ s)"
    using sf.cmd.reproducing_axioms by (simp add: libfido2_backend_def)
  from hmac_secret_reproducible [OF this pg.memguard_api_axioms sample_asks sample_asks
      sample_printing sample_printing a _ _ b, of "[7]" "replicate 32 0"
      "hex_line ''hmac_secret='' (7 # replicate 32 0)"]
  have "out = hmac_lines [7] (replicate 32 0) (7 # replicate 32 0)"
    by (simp add: hmac_lines_def sample_flags_def hmac_defaults_def)
  with a b show ?thesis by blast
qed

text \<open>C38: \<open>hmac-secret\<close> reads the salt too late: with a salt that \<open>ParseSalt\<close> refuses it ends in that
  error, with nothing printed, but after it has made a credential on the device, whose ID is lost.\<close>

theorem hmac_bad_salt_creates:
  assumes "ParseSalt g 0 (trim_space (hf_saltHex f)) = Inl e" "trim_space (hf_credentialIDHex f) = []"
    and "0 \<le> hf_deviceIndex f" "trim_space (hf_rpID f) \<noteq> []" "trim_space (hf_userName f) \<noteq> []"
    and "bk_ListDevices B \<lparr>lo_ExcludeWindowsWebAuthn = hf_noWindowsWebAuthn f\<rparr> w = (Inr devices, w1)"
      "nat (hf_deviceIndex f) < length devices" "\<not> hf_listOnly f"
    and "run_pin B C f (di_Path (devices ! nat (hf_deviceIndex f)))
           (fold (\<lambda>d. cn_Stderr C (device_line d)) devices w1) = (Inr pin, w2)"
    and "bk_Open B (di_Path (devices ! nat (hf_deviceIndex f))) w2 = (Inr dev, w3)"
    and "au_CreateCredential (bk_auth B) dev \<lparr>co_RPID = hf_rpID f, co_RPName = ''hmacsecret'',
           co_UserName = hf_userName f, co_UserDisplayName = [], co_UserID = [], co_PIN = pin,
           co_ClientDataJSON = []\<rparr>
           (cn_Stderr C (''creating credential; approve in Windows Security UI / touch key...'' @ newline) w3)
         = (Inr (Some cred), w4)"
  shows "hmac_run_parsed B M g C f (w, out) = (Some e, w4, out)"
proof -
  have "hmac_credential B C f dev pin w3 = (Inr (cr_ID cred), w4)"
    using assms(2,11) by (simp add: hmac_credential_def Let_def)
  moreover have "\<not> int (length devices) \<le> hf_deviceIndex f" using assms(3,7) by linarith
  ultimately show ?thesis
    using assms(1,3-6,8-10) by (simp add: hmac_run_parsed_def run_pin_def [symmetric] Let_def)
qed

theorem hmac_bad_salt_creates_witness:
  "hmac_run_parsed sample_backend plain_guard zero_rng sample_console
     ((sample_flags [] [])\<lparr>hf_saltHex := ''1234''\<rparr>) ((7, 0), [])
   = (Some (Errorf ''salt must be exactly %d bytes (%d hex chars)''), (8, 2), [])"
proof -
  let ?f = "(sample_flags [] [])\<lparr>hf_saltHex := ''1234''\<rparr>"
  obtain d ds where d: "bk_ListDevices sample_backend
        \<lparr>lo_ExcludeWindowsWebAuthn = hf_noWindowsWebAuthn ?f\<rparr> (7, 0) = (Inr (d # ds), (7, 0))"
      "di_Path d = ''usb''" using sample_devices by blast
  have n: "bk_NeedsTerminalPIN sample_backend ''usb''" using sample_asks by (simp add: asks_alike_def)
  have f: "fold (\<lambda>d w. w) xs w = w" for xs :: "device_info list" and w :: "nat \<times> nat"
    by (induction xs) simp_all
  have "ParseSalt zero_rng 0 (trim_space ''1234'')
      = Inl (Errorf ''salt must be exactly %d bytes (%d hex chars)'')" by code_simp
  then show ?thesis
    using hmac_bad_salt_creates [of zero_rng ?f _ sample_backend "(7, 0)" "d # ds" "(7, 0)" sample_console
        "''1234''" "(7, 0)" "\<lparr>dv_path = ''usb'', dv_device = Some ''usb''\<rparr>" "(7, 0)"
        "\<lparr>cr_ID = [7], cr_RPID = ''example.org'', cr_PubKey = []\<rparr>" "(8, 2)" plain_guard "[]"] d n
    by (simp add: f sample_pin_read run_pin_def sample_bk_open sample_bk_create)
qed

section \<open>secrets\<close>

lemma printed_alias:
  assumes "(case writeEnclaveHex M C ''hmac_secret='' v (snd (write_out C (''alias='' @ a @ newline) (w, out)))
     of (e, wo) \<Rightarrow> (e, s, wo)) = (None, s', w', out')" "printing C"
  obtains x bs where "v = Some x" "mg_Open M x = Inr bs" "s' = s"
    "out' = out @ ''alias='' @ a @ newline @ hex_line ''hmac_secret='' bs"
proof -
  obtain w1 where 1: "write_out C (''alias='' @ a @ newline) (w, out) = (None, w1, out @ ''alias='' @ a @ newline)"
    using write_out_ok [OF assms(2)] by blast
  then have "writeEnclaveHex M C ''hmac_secret='' v (w1, out @ ''alias='' @ a @ newline) = (None, w', out')"
      "s' = s" using assms(1) by (auto split: prod.splits)
  from writeEnclave_None [OF assms(2) this(1)] this(2) that show ?thesis by auto
qed

lemma command_create:
  assumes "secrets_command x U M g C ''create'' a (s, w, out) = (None, s', w', out')" "printing C"
  obtains v w1 e bs where "secrets_Create x U g background a (s, w) = (Inr v, (s', w1))" "v = Some e"
    "mg_Open M e = Inr bs" "out' = out @ ''alias='' @ a @ newline @ hex_line ''hmac_secret='' bs"
proof -
  have run: "secrets_command x U M g C ''create'' a (s, w, out) =
    (if a = [] then (Some (Errorf ''create requires alias''), s, w, out)
     else (case secrets_Create x U g background a (s, w) of
          (Inl e, s, w) \<Rightarrow> (Some e, s, w, out)
        | (Inr secret, s, w) \<Rightarrow>
         (let wo = snd (write_out C (''alias='' @ a @ newline) (w, out)) in
          case writeEnclaveHex M C ''hmac_secret='' secret wo of (e, wo) \<Rightarrow> (e, s, wo))))"
    by (simp add: secrets_command_def)
  obtain r t w1 where p: "secrets_Create x U g background a (s, w) = (r, t, w1)" by (cases "secrets_Create x U g background a (s, w)")
  have "a \<noteq> []" using assms(1) unfolding run by (cases "a = []") simp_all
  then obtain v where 1: "secrets_Create x U g background a (s, w) = (Inr v, (t, w1))"
      "(case writeEnclaveHex M C ''hmac_secret='' v (snd (write_out C (''alias='' @ a @ newline) (w1, out)))
     of (e, wo) \<Rightarrow> (e, t, wo)) = (None, s', w', out')"
    using assms(1) unfolding run p by (cases r) (simp_all add: Let_def)
  show ?thesis
    by (rule printed_alias [OF 1(2) assms(2)]) (rule that, use 1(1) in simp_all)
qed

lemma command_derive:
  assumes "secrets_command x U M g C cmd a (s, w, out) = (None, s', w', out')" "printing C"
    "cmd = ''derive'' \<or> cmd = ''get''"
  obtains v w1 e bs where "secrets_Derive x U background a (s, w) = (Inr v, (s', w1))" "v = Some e"
    "mg_Open M e = Inr bs" "out' = out @ ''alias='' @ a @ newline @ hex_line ''hmac_secret='' bs"
proof -
  have run: "secrets_command x U M g C cmd a (s, w, out) =
    (if a = [] then (Some (Errorf ''derive requires alias''), s, w, out)
     else (case secrets_Derive x U background a (s, w) of
          (Inl e, s, w) \<Rightarrow> (Some e, s, w, out)
        | (Inr secret, s, w) \<Rightarrow>
         (let wo = snd (write_out C (''alias='' @ a @ newline) (w, out)) in
          case writeEnclaveHex M C ''hmac_secret='' secret wo of (e, wo) \<Rightarrow> (e, s, wo))))"
    using assms(3) by (elim disjE) (simp_all add: secrets_command_def)
  obtain r t w1 where p: "secrets_Derive x U background a (s, w) = (r, t, w1)" by (cases "secrets_Derive x U background a (s, w)")
  have "a \<noteq> []" using assms(1) unfolding run by (cases "a = []") simp_all
  then obtain v where 1: "secrets_Derive x U background a (s, w) = (Inr v, (t, w1))"
      "(case writeEnclaveHex M C ''hmac_secret='' v (snd (write_out C (''alias='' @ a @ newline) (w1, out)))
     of (e, wo) \<Rightarrow> (e, t, wo)) = (None, s', w', out')"
    using assms(1) unfolding run p by (cases r) (simp_all add: Let_def)
  show ?thesis
    by (rule printed_alias [OF 1(2) assms(2)]) (rule that, use 1(1) in simp_all)
qed

text \<open>C25: \<open>secrets derive\<close> and \<open>secrets get\<close> print for an alias what \<open>secrets create\<close> printed for it: the
  same two lines, as long as the alias keeps its record, whatever the terminal and the device.\<close>

theorem secrets_commands_agree:
  assumes "alias_api x recs stored ok" "prf_authenticator U content hmac" "pin_given x"
    and "memguard_api M content" "printing C" "printing C'" "ok s" "valid_utf8 (sx_rpID x)"
    and "secrets_command x U M g C ''create'' a (s, w, []) = (None, s', w', out)"
    and "ok t" "recs t (trim_space a) = recs s' (trim_space a)" "cmd = ''derive'' \<or> cmd = ''get''"
    and "secrets_command x U M g' C' cmd a (t, w1, []) = (None, t', w2, out')"
  shows "out' = out \<and> (\<exists>secret. out = ''alias='' @ a @ newline @ hex_line ''hmac_secret='' secret)"
proof -
  obtain v e bs u where c: "secrets_Create x U g background a (s, w) = (Inr v, (s', u))" "v = Some e"
      "mg_Open M e = Inr bs" "out = ''alias='' @ a @ newline @ hex_line ''hmac_secret='' bs"
    by (rule command_create [OF assms(9,5)]) auto
  obtain v' e' bs' u' where d: "secrets_Derive x U background a (t, w1) = (Inr v', (t', u'))" "v' = Some e'"
      "mg_Open M e' = Inr bs'" "out' = ''alias='' @ a @ newline @ hex_line ''hmac_secret='' bs'"
    by (rule command_derive [OF assms(13,6,12)]) auto
  have "bs' = bs"
    using derived_again [OF assms(1-3,7,8) c(1) assms(10,11) refl d(1)] c(2,3) d(2,3)
      memguard_api.open_content [OF assms(4)] by fastforce
  with c(4) d(4) show ?thesis by blast
qed

lemma command_prints:
  assumes "printing C" "mg_Open M e = Inr bs" "a \<noteq> []"
    and "cmd = ''create'' \<and> secrets_Create x U g background a (s, w) = (Inr (Some e), (s', w')) \<or>
      cmd = ''get'' \<and> secrets_Derive x U background a (s, w) = (Inr (Some e), (s', w'))"
  shows "\<exists>w2. secrets_command x U M g C cmd a (s, w, []) =
    (None, s', w2, ''alias='' @ a @ newline @ hex_line ''hmac_secret='' bs)"
proof -
  obtain w1 where 1: "write_out C (''alias='' @ a @ newline) (w', []) = (None, w1, ''alias='' @ a @ newline)"
    using write_out_ok [OF assms(1), of _ w' "[]"] by auto
  obtain w2 where "writeEnclaveHex M C ''hmac_secret='' (Some e) (w1, ''alias='' @ a @ newline)
      = (None, w2, (''alias='' @ a @ newline) @ hex_line ''hmac_secret='' bs)"
    using writeEnclave_ok [OF assms(1,2)] by blast
  with 1 assms(3,4) show ?thesis
    by (elim disjE conjE) (simp_all add: secrets_command_def)
qed

theorem secrets_commands_agree_witness:
  "\<exists>s1 w1 w2. secrets_command (sample_service mem_store) sample_authenticator plain_guard zero_rng
       sample_console ''create'' ''mail'' (Some [], 7, []) =
       (None, s1, w1, ''alias=mail'' @ newline @ hex_line ''hmac_secret='' (7 # sample_salt)) \<and>
     secrets_command (sample_service mem_store) sample_authenticator plain_guard zero_rng
       sample_console ''get'' ''mail'' (s1, 20, []) =
       (None, s1, w2, ''alias=mail'' @ newline @ hex_line ''hmac_secret='' (7 # sample_salt))"
proof -
  let ?c = "\<lambda>cmd. secrets_command (sample_service mem_store) sample_authenticator plain_guard zero_rng
     sample_console cmd ''mail''"
  obtain s1 where s1: "secrets_Create (sample_service mem_store) sample_authenticator zero_rng
      background ''mail'' (Some [], 7) = (Inr (Some (7 # sample_salt)), (s1, 8))" "s1 \<noteq> None"
    using sample_create by blast
  have open_plain: "mg_Open plain_guard e = Inr e" for e by (simp add: plain_guard_def)
  obtain w1 where a: "?c ''create'' (Some [], 7, []) =
      (None, s1, w1, ''alias=mail'' @ newline @ hex_line ''hmac_secret='' (7 # sample_salt))"
    using command_prints [OF sample_printing open_plain, of "''mail''" "''create''"
        "sample_service mem_store" sample_authenticator zero_rng "Some []" 7 "7 # sample_salt" s1 8] s1(1)
    by auto
  have k: "plain_ok map_of s1" "plain_recs map_of s1 ''mail'' \<noteq> None"
    using api.create_returns_map [OF empty_plain(1) s1(1)] by simp_all
  then obtain r where r: "plain_recs map_of s1 ''mail'' = Some r" by blast
  from live_store.get_live [OF mem_live_store k(1), of "''mail''" r] r s1(2)
  have g: "st_Get mem_store background ''mail'' s1 = Inr r" by simp
  obtain v where d: "secrets_Derive (sample_service mem_store) sample_authenticator background
      ''mail'' (s1, 20) = (Inr (Some v), (s1, 20))"
    using derive_runs [of "''mail''" "sample_service mem_store" background s1 r 20 "()" "''1234''" 20
        sample_authenticator] g
    by (auto simp: sample_authenticator_def reported_def)
  obtain w2 where b: "?c ''get'' (s1, 20, []) =
      (None, s1, w2, ''alias='' @ ''mail'' @ newline @ hex_line ''hmac_secret='' v)"
    using command_prints [OF sample_printing open_plain, of "''mail''" "''get''"
        "sample_service mem_store" sample_authenticator zero_rng s1 20 v s1 20] d by blast
  from secrets_commands_agree [OF api.alias_api_axioms sa.prf_authenticator_axioms sample_pin
      pg.memguard_api_axioms sample_printing sample_printing empty_plain(1) _ a k(1) refl _ b] a b
  show ?thesis by auto
qed

section \<open>The selector\<close>

lemma Atoi_dec: "Atoi (dec i) = (if i < 2 ^ 63 then Some (int i) else None)"
proof -
  obtain c r where d: "dec i = c # r" using dec_nonempty by (metis neq_Nil_conv)
  then have "is_digit c" using list_all_digit_dec [of i] by simp
  then have "c \<noteq> CHR ''-''" "c \<noteq> CHR ''+''" by (auto simp: is_digit_def ord_def)
  with d have "Atoi (dec i) = (if nat_of_dec (dec i) < 2 ^ 63 then Some (int (nat_of_dec (dec i))) else None)"
    unfolding Atoi_def Let_def using list_all_digit_dec [of i] by (simp del: nat_of_dec_dec)
  then show ?thesis by simp
qed

text \<open>C32: The number typed at the selector means what was shown: among the devices of \<open>ListDevices\<close>, two
  or more, the decimal number \<open>i\<close>, with white space around it, selects the device that was listed
  with \<open>[i]\<close>; a number that was not listed selects none.\<close>

theorem selector_takes_shown:
  assumes "ListDevices pf F opts v = (Inr devices, v')" "2 \<le> length devices" "length devices \<le> 2 ^ 63"
    and "\<forall>w. fst (cn_ReadLine C w) = Inr line" "trim_space line = dec i"
  shows "case fst (selector_Select C (selector_New C) devices w) of
    Inr d \<Rightarrow> d \<in> set devices \<and> di_Index d = int i \<and> i < length devices
  | Inl e \<Rightarrow> length devices \<le> i"
proof -
  obtain out where "devices = reindex out"
    using assms(1) by (auto simp: ListDevices_def Let_def split: sum.splits prod.splits if_splits)
  then have n: "di_Index (devices ! i) = int i" if "i < length devices"
    using that reindex_facts(1,2) [of out] by (metis length_map nth_map nth_map_upt minus_nat.diff_0 plus_nat.add_0)
  let ?w = "cn_Stderr C (''device index [0-'' @ show_int (int (length devices) - 1) @ '']: '')
      (fold (\<lambda>d. cn_Stderr C (device_line d)) devices w)"
  obtain w2 where l: "cn_ReadLine C ?w = (Inr line, w2)" using assms(4) by (metis prod.collapse)
  have m: "devices \<noteq> []" "length devices \<noteq> 1" using assms(2) by auto
  have s: "selector_Select C (selector_New C) devices w =
     (case Atoi (dec i) of None \<Rightarrow> (Inl (Errorf ''invalid device index %q''), w2)
      | Some idx \<Rightarrow> if idx < 0 \<or> int (length devices) \<le> idx
          then (Inl (Errorf ''invalid device index %q''), w2) else (Inr (devices ! nat idx), w2))"
    unfolding selector_Select_def Let_def using m l assms(5) by (simp add: selector_New_def)
  show ?thesis using n assms(3) by (auto simp: s Atoi_dec)
qed

theorem selector_takes_shown_witness:
  "\<exists>ds d. ListDevices WindowsLibfido2 sample_fido \<lparr>lo_ExcludeWindowsWebAuthn = False\<rparr> 0 = (Inr ds, 0) \<and>
     fst (selector_Select sample_console (selector_New sample_console) ds ()) = Inr d \<and>
     d \<in> set ds \<and> di_Index d = 1"
proof -
  obtain ds where l: "ListDevices WindowsLibfido2 sample_fido \<lparr>lo_ExcludeWindowsWebAuthn = False\<rparr> 0
      = (Inr ds, 0)" "map di_Path ds = [''windows://hello'', ''usb'']" using sample_list [of 0] by (elim exE conjE) (rule that)
  have n: "length ds = 2" using arg_cong [OF l(2), of length] by simp
  have t: "trim_space '' 1 '' = dec 1" by code_simp
  have r: "\<forall>w. fst (cn_ReadLine sample_console w) = Inr '' 1 ''" by (simp add: sample_console_def)
  have "2 \<le> length ds" "length ds \<le> 2 ^ 63" using n by simp_all
  note s = selector_takes_shown [OF l(1) this r t, of "()"]
  then obtain d where "fst (selector_Select sample_console (selector_New sample_console) ds ()) = Inr d"
    using n by (cases "fst (selector_Select sample_console (selector_New sample_console) ds ())") simp_all
  with s l(1) show ?thesis by (intro exI [of _ ds] exI [of _ d]) simp
qed

text \<open>The path that \<open>secrets\<close> takes by default is chosen before the name of the backend is trimmed, the
  backend after: with white space in the name, SQLite is opened at the path of Pebble.\<close>

lemma default_path_untrimmed:
  "default_path sep (secrets_defaults\<lparr>sf_backend := '' sqlite''\<rparr>) = ''data'' @ sep @ ''secrets.pebble''"
  "openStore P Q '' sqlite'' path = map_sum (\<lambda>e. e) Inr (sqlite_Open Q path)"
proof -
  have "ToLower '' sqlite'' = '' sqlite''" "ToLower (trim_space '' sqlite'') = ''sqlite''" by code_simp+
  then show "default_path sep (secrets_defaults\<lparr>sf_backend := '' sqlite''\<rparr>) = ''data'' @ sep @ ''secrets.pebble''"
    "openStore P Q '' sqlite'' path = map_sum (\<lambda>e. e) Inr (sqlite_Open Q path)"
    by (simp_all add: default_path_def secrets_defaults_def openStore_def)
qed

end
