(* ===== verification/Go_Json_Fuel.thy ===== *)
theory Go_Json_Fuel
  imports Go_Json_Doc
begin

text \<open>
  The fuel of \<open>json_parse\<close> is enough for every text, well formed or not: a value that can be read
  with any fuel can be read with one unit for each character that it takes. So \<open>json_parse\<close>
  accepts what the grammar accepts (\<open>json_parse_enough\<close>).
\<close>

lemma length_skip_ws: "length (skip_ws s) \<le> length s"
  by (simp add: skip_ws_def length_dropWhile_le)

lemma expect_shorter: "expect c s = Some t \<Longrightarrow> length s = Suc (length t)"
  by (cases s) (auto split: if_splits)

lemma prepend_Some: "prepend p x = Some (y, r) \<Longrightarrow> \<exists>z. x = Some (z, r)"
  by (auto simp: prepend_def)

lemma unquote_shorter: "unquote s = Some (x, r) \<Longrightarrow> length r < length s"
proof (induction "length s" arbitrary: s x rule: less_induct)
  case less
  show ?case
  proof (cases s)
    case Nil
    with less.prems show ?thesis by (simp add: unquote.simps)
  next
    case (Cons c t)
    have call: "length r < m"
      if "prepend p (unquote u) = Some (x, r)" "length u < length s" "length u < m" for p u m
      using prepend_Some [OF that(1)] less.hyps [OF that(2)] that(3) by fastforce
    show ?thesis
      using less.prems [unfolded unquote.simps [of s]] Cons
      by (auto split: if_splits list.splits option.splits elim!: call)
  qed
qed

text \<open>What a reader takes, and that the fuel for it is enough.\<close>

definition fuelled :: "(nat \<Rightarrow> string \<Rightarrow> ('x \<times> string) option) \<Rightarrow> string \<Rightarrow> 'x \<Rightarrow> string \<Rightarrow> bool" where
  "fuelled p s x r \<longleftrightarrow> length r < length s \<and> (\<forall>g. length s \<le> g + length r \<longrightarrow> p g s = Some (x, r))"

lemma digits1_shorter: "digits1 s = Some (d, r) \<Longrightarrow> length r < length s"
  by (cases s) (auto simp: digits1_def Let_def le_imp_less_Suc length_dropWhile_le split: if_splits)

lemma parse_number_shorter:
  assumes "parse_number s = Some (j, r)"
  shows "length r < length s"
proof -
  obtain sign t where t: "(case expect (CHR ''-'') s of Some t \<Rightarrow> (''-'', t) | None \<Rightarrow> ([], s)) = (sign, t)"
    by (metis prod.exhaust)
  obtain i u f v e where u: "int_part t = Some (i, u)" "frac_part u = Some (f, v)" "exp_part v = Some (e, r)"
    using assms t by (auto simp: parse_number_def split: option.splits)
  have "length t \<le> length s" using t by (auto split: option.splits dest: expect_shorter)
  moreover have "length u < length t"
    using u(1) by (auto simp: int_part_def split: option.splits dest: expect_shorter digits1_shorter)
  moreover have "length v \<le> length u"
    using u(2) by (auto simp: frac_part_def split: option.splits dest!: expect_shorter digits1_shorter)
  moreover have "length r \<le> length v"
    using u(3) by (fastforce simp: exp_part_def split: list.splits if_splits dest!: digits1_shorter)
  ultimately show ?thesis by linarith
qed

lemma parse_lit_shorter: "l \<noteq> [] \<Longrightarrow> parse_lit j l s = Some (k, r) \<Longrightarrow> length r < length s"
  by (auto simp: parse_lit_def)

lemma fuelledI:
  assumes "length r < length s" "\<And>g. length s \<le> Suc g + length r \<Longrightarrow> p (Suc g) s = Some (x, r)"
  shows "fuelled p s x r"
  unfolding fuelled_def
proof (intro conjI allI impI)
  fix g assume "length s \<le> g + length r"
  with assms show "p g s = Some (x, r)" by (cases g) auto
qed (rule assms(1))

lemma parse_fuelled:
  "parse_value f s = Some (j, r) \<Longrightarrow> fuelled parse_value s j r"
  "parse_elems f s = Some (js, r) \<Longrightarrow> fuelled parse_elems s js r"
  "parse_members f s = Some (ms, r) \<Longrightarrow> fuelled parse_members s ms r"
proof (induction f s and f s and f s arbitrary: j r and js r and ms r
    rule: parse_value_parse_elems_parse_members.induct)
  case (2 f s)
  obtain c t where s: "s = c # t" using "2.prems" by (cases s) auto
  note prems = "2.prems" [unfolded parse_value.simps s list.case]
  note w = length_skip_ws [of t]
  consider (str) "c = CHR 0x22" | (obj) "c = CHR ''{''" "expect (CHR ''}'') (skip_ws t) = None"
    | (arr) "c = CHR ''[''" "expect (CHR '']'') (skip_ws t) = None"
    | (flat) "c \<noteq> CHR 0x22" "c = CHR ''{'' \<longrightarrow> expect (CHR ''}'') (skip_ws t) \<noteq> None"
        "c = CHR ''['' \<longrightarrow> expect (CHR '']'') (skip_ws t) \<noteq> None" by blast
  then show ?case
  proof cases
    case str
    then show ?thesis using prems by (auto simp: s intro!: fuelledI dest: unquote_shorter)
  next
    case obj
    then obtain ms where m: "parse_members f (skip_ws t) = Some (ms, r)" "j = JObj ms"
      using prems by auto
    have "fuelled parse_members (skip_ws t) ms r" using "2.IH"(1) [OF s _ obj(1,2) m(1)] obj(1) by simp
    then show ?thesis using w obj m(2) by (intro fuelledI) (auto simp: s fuelled_def)
  next
    case arr
    then obtain js where m: "parse_elems f (skip_ws t) = Some (js, r)" "j = JArr js"
      using prems by auto
    have "fuelled parse_elems (skip_ws t) js r" using "2.IH"(2) [OF s _ _ arr(1,2) m(1)] arr(1) by simp
    then show ?thesis using w arr m(2) by (intro fuelledI) (auto simp: s fuelled_def)
  next
    case flat
    have "length r < length s"
      using prems flat w
      by (auto simp: s split: if_splits option.splits
          dest: expect_shorter parse_number_shorter parse_lit_shorter [rotated])
    then show ?thesis
      using prems flat by (intro fuelledI) (auto simp: s split: if_splits option.splits)
  qed
next
  case (4 f s)
  obtain k r0 where v: "parse_value f s = Some (k, r0)" using "4.prems" by (auto split: option.splits)
  from "4.IH"(1) [OF v] have f: "length r0 < length s"
    "\<And>g. length s \<le> g + length r0 \<Longrightarrow> parse_value g s = Some (k, r0)" by (auto simp: fuelled_def)
  note w = length_skip_ws [of r0]
  show ?case
  proof (cases "expect (CHR '']'') (skip_ws r0)")
    case (Some r1)
    with "4.prems" v have "js = [k]" "r1 = r" by auto
    with Some expect_shorter [OF Some] w f show ?thesis by (intro fuelledI) auto
  next
    case None
    with "4.prems" v obtain r1 ks where e: "expect (CHR '','') (skip_ws r0) = Some r1"
        "parse_elems f (skip_ws r1) = Some (ks, r)" "js = k # ks" by (auto split: option.splits)
    have "fuelled parse_elems (skip_ws r1) ks r" using "4.IH"(2) [OF v refl None e(1,2)] .
    then show ?thesis
      using None e expect_shorter [OF e(1)] w length_skip_ws [of r1] f
      by (intro fuelledI) (auto simp: fuelled_def)
  qed
next
  case (6 f s)
  obtain t k r0 u where k: "expect (CHR 0x22) s = Some t" "unquote t = Some (k, r0)"
      "expect (CHR '':'') (skip_ws r0) = Some u" using "6.prems" by (auto split: option.splits)
  obtain v w where v: "parse_value f (skip_ws u) = Some (v, w)" using "6.prems" k by (auto split: option.splits)
  from "6.IH"(1) [OF k(1,2) refl k(3) v] have f: "length w < length (skip_ws u)"
    "\<And>g. length (skip_ws u) \<le> g + length w \<Longrightarrow> parse_value g (skip_ws u) = Some (v, w)"
    by (auto simp: fuelled_def)
  note sh = expect_shorter [OF k(1)] unquote_shorter [OF k(2)] expect_shorter [OF k(3)]
    length_skip_ws [of r0] length_skip_ws [of u] length_skip_ws [of w]
  show ?case
  proof (cases "expect (CHR ''}'') (skip_ws w)")
    case (Some q)
    with "6.prems" k v have "ms = [(k, v)]" "q = r" by auto
    with Some expect_shorter [OF Some] k f sh show ?thesis by (intro fuelledI) auto
  next
    case None
    with "6.prems" k v obtain q ks where e: "expect (CHR '','') (skip_ws w) = Some q"
        "parse_members f (skip_ws q) = Some (ks, r)" "ms = (k, v) # ks" by (auto split: option.splits)
    have "fuelled parse_members (skip_ws q) ks r"
      using "6.IH"(2) [OF k(1,2) refl k(3) v refl None e(1,2)] .
    then show ?thesis
      using None k e expect_shorter [OF e(1)] sh length_skip_ws [of q] f
      by (intro fuelledI) (auto simp: fuelled_def)
  qed
qed simp_all

text \<open>More fuel than \<open>json_parse\<close> has reads nothing more.\<close>

theorem json_parse_enough:
  "json_parse s = Some j \<longleftrightarrow>
     (\<exists>f r. parse_value f (skip_ws s) = Some (j, r) \<and> skip_ws r = [])"
proof
  assume "json_parse s = Some j"
  then show "\<exists>f r. parse_value f (skip_ws s) = Some (j, r) \<and> skip_ws r = []"
    unfolding json_parse_def
    by (cases "parse_value (Suc (length s)) (skip_ws s)")
       (auto simp del: parse_value.simps split: if_splits prod.splits)
next
  assume "\<exists>f r. parse_value f (skip_ws s) = Some (j, r) \<and> skip_ws r = []"
  then obtain f r where r: "parse_value f (skip_ws s) = Some (j, r)" "skip_ws r = []" by blast
  then have "parse_value (Suc (length s)) (skip_ws s) = Some (j, r)"
    using parse_fuelled(1) [OF r(1)] length_skip_ws [of s] unfolding fuelled_def by (simp del: parse_value.simps)
  with r(2) show "json_parse s = Some j" by (simp add: json_parse_def del: parse_value.simps)
qed

end
