(* ===== verification/Pebble_Threads.thy ===== *)
theory Pebble_Threads
  imports Pebble_Plain
begin

text \<open>
  The Pebble backend under concurrent calls. Each method is a program of the calls that it makes of
  the database, one at a time, with its critical section under the mutex of the store; threads run
  such programs in any interleaving (\<open>thread_step\<close>). \<open>Pebble_Store\<close> has the same methods as one step
  each: run alone, the programs are these steps (\<open>run_method\<close>), and whatever the interleaving,
  the threads see a run of these steps (\<open>threads_linear\<close>). A single call of the database is
  atomic, as Pebble documents; an iterator reads the snapshot from when it was made.
\<close>

section \<open>Programs\<close>

datatype pebble_answer =
    PDone "go_error option"
  | PRecord "go_error + store_record"
  | PHas "go_error + bool"
  | PAliases "go_error + string list"
  | PHeader "go_error + encryption_header"
  | PBlob "go_error + encrypted_blob"

text \<open>A program returns, reads, writes and then returns, or takes the mutex, which its return
  releases.\<close>

datatype 'db program =
    Return pebble_answer
  | Ask "'db \<Rightarrow> 'db program"
  | Tell "'db \<Rightarrow> go_error option \<times> 'db" "go_error option \<Rightarrow> pebble_answer"
  | Locked "'db program"

primrec run_program :: "'db program \<Rightarrow> 'db \<Rightarrow> pebble_answer \<times> 'db" where
  "run_program (Return a) db = (a, db)"
| "run_program (Ask f) db = run_program (f db) db"
| "run_program (Tell f k) db = (case f db of (e, db') \<Rightarrow> (k e, db'))"
| "run_program (Locked p) db = run_program p db"

section \<open>The methods\<close>

text \<open>A failure of a call of the database that the code wraps.\<close>

definition wrapped :: "string \<Rightarrow> go_error option \<Rightarrow> pebble_answer" where
  "wrapped m e = PDone (map_option (errorf m) e)"

definition Put_program :: "'db pebble_api \<Rightarrow> go_context \<Rightarrow> store_record \<Rightarrow> 'db program" where
  "Put_program P ctx r =
     (case ctx_Err ctx of Some e \<Rightarrow> Return (PDone (Some e))
      | None \<Rightarrow>
     (let r = r\<lparr>rec_Alias := trim_space (rec_Alias r)\<rparr>;
          r = r\<lparr>rec_RPID := trim_space (rec_RPID r)\<rparr> in
      case ValidateRecord r of Some e \<Rightarrow> Return (PDone (Some e))
      | None \<Rightarrow>
      Locked
     (let key = bytes_of (rec_Alias r) in
      Ask (\<lambda>db. case pb_Get P db key of
        Inr _ \<Rightarrow> Return (PDone (Some (Sentinel StoreErrExists)))
      | Inl e \<Rightarrow>
          if e \<noteq> Sentinel PebbleErrNotFound then Return (PDone (Some (errorf ''pebble get: %w'' e)))
          else
         (let body = marshal_stored \<lparr>sr_CredentialID = rec_CredentialID r, sr_Salt = rec_Salt r,
                sr_RPID = rec_RPID r\<rparr> in
          Tell (\<lambda>db. pb_Set P db key body) (wrapped ''pebble set: %w''))))))"

definition Get_program :: "'db pebble_api \<Rightarrow> go_context \<Rightarrow> string \<Rightarrow> 'db program" where
  "Get_program P ctx alias =
     (case ctx_Err ctx of Some e \<Rightarrow> Return (PRecord (Inl e))
      | None \<Rightarrow>
     (let alias = trim_space alias in
      case ValidateAlias alias of Some e \<Rightarrow> Return (PRecord (Inl e))
      | None \<Rightarrow>
      Ask (\<lambda>db. Return (PRecord (case pb_Get P db (bytes_of alias) of
        Inl e \<Rightarrow>
          if e = Sentinel PebbleErrNotFound then Inl (Sentinel StoreErrNotFound)
          else Inl (errorf ''pebble get: %w'' e)
      | Inr val \<Rightarrow>
     (case unmarshal_stored val of Inl e \<Rightarrow> Inl (errorf ''pebble unmarshal: %w'' e)
      | Inr body \<Rightarrow>
     (let r = \<lparr>rec_Alias = alias, rec_CredentialID = [] @ sr_CredentialID body,
            rec_Salt = [] @ sr_Salt body, rec_RPID = sr_RPID body\<rparr> in
      case ValidateRecord r of Some e \<Rightarrow> Inl e | None \<Rightarrow> Inr r)))))))"

text \<open>\<open>Delete\<close> and \<open>DeleteEnvelope\<close>, by the key and the error texts.\<close>

definition Delete_program ::
  "'db pebble_api \<Rightarrow> (string \<Rightarrow> bytes) \<Rightarrow> string \<Rightarrow> string \<Rightarrow> go_context \<Rightarrow> string \<Rightarrow> 'db program" where
  "Delete_program P key get del ctx alias =
     (case ctx_Err ctx of Some e \<Rightarrow> Return (PDone (Some e))
      | None \<Rightarrow>
     (let alias = trim_space alias in
      case ValidateAlias alias of Some e \<Rightarrow> Return (PDone (Some e))
      | None \<Rightarrow>
      Locked
     (Ask (\<lambda>db. case pb_Get P db (key alias) of
        Inl e \<Rightarrow>
          if e = Sentinel PebbleErrNotFound then Return (PDone (Some (Sentinel StoreErrNotFound)))
          else Return (PDone (Some (errorf get e)))
      | Inr _ \<Rightarrow> Tell (\<lambda>db. pb_Delete P db (key alias)) (wrapped del)))))"

text \<open>\<open>Has\<close> and \<open>HasEnvelope\<close>.\<close>

definition Has_program ::
  "'db pebble_api \<Rightarrow> (string \<Rightarrow> bytes) \<Rightarrow> string \<Rightarrow> go_context \<Rightarrow> string \<Rightarrow> 'db program" where
  "Has_program P key get ctx alias =
     (case ctx_Err ctx of Some e \<Rightarrow> Return (PHas (Inl e))
      | None \<Rightarrow>
     (let alias = trim_space alias in
      case ValidateAlias alias of Some e \<Rightarrow> Return (PHas (Inl e))
      | None \<Rightarrow>
      Ask (\<lambda>db. Return (PHas (case pb_Get P db (key alias) of
        Inl e \<Rightarrow>
          if e = Sentinel PebbleErrNotFound then Inr False else Inl (errorf get e)
      | Inr _ \<Rightarrow> Inr True)))))"

definition List_program :: "'db pebble_api \<Rightarrow> go_context \<Rightarrow> 'db program" where
  "List_program P ctx =
     (case ctx_Err ctx of Some e \<Rightarrow> Return (PAliases (Inl e))
      | None \<Rightarrow>
      Ask (\<lambda>db. Return (PAliases (case pb_Iter P db [] None of
        Inl e \<Rightarrow> Inl (errorf ''pebble iter: %w'' e)
      | Inr (ks, err) \<Rightarrow>
          (let out = map str_of ks in
           case err of Some e \<Rightarrow> Inl (errorf ''pebble iter: %w'' e) | None \<Rightarrow> Inr out)))))"

definition CreateHeader_program :: "'db pebble_api \<Rightarrow> go_context \<Rightarrow> encryption_header \<Rightarrow> 'db program" where
  "CreateHeader_program P ctx header =
     (case ctx_Err ctx of Some e \<Rightarrow> Return (PDone (Some e))
      | None \<Rightarrow>
     (let body = marshal_header header in
      Locked
     (Ask (\<lambda>db. case pb_Get P db encryptionHeaderKey of
        Inr _ \<Rightarrow> Return (PDone (Some (Sentinel StoreErrExists)))
      | Inl e \<Rightarrow>
          if e \<noteq> Sentinel PebbleErrNotFound
          then Return (PDone (Some (errorf ''pebble get encryption header: %w'' e)))
          else Tell (\<lambda>db. pb_Set P db encryptionHeaderKey body)
            (wrapped ''pebble set encryption header: %w'')))))"

definition LoadHeader_program :: "'db pebble_api \<Rightarrow> go_context \<Rightarrow> 'db program" where
  "LoadHeader_program P ctx =
     (case ctx_Err ctx of Some e \<Rightarrow> Return (PHeader (Inl e))
      | None \<Rightarrow>
      Ask (\<lambda>db. Return (PHeader (case pb_Get P db encryptionHeaderKey of
        Inl e \<Rightarrow>
          if e = Sentinel PebbleErrNotFound then Inl (Sentinel ErrNotInitialized)
          else Inl (errorf ''pebble get encryption header: %w'' e)
      | Inr body \<Rightarrow>
     (case unmarshal_header body of
        Inl e \<Rightarrow> Inl (errorf ''pebble unmarshal encryption header: %w'' e)
      | Inr header \<Rightarrow> Inr header)))))"

definition CompareAndSwapHeader_program ::
  "'db pebble_api \<Rightarrow> go_context \<Rightarrow> 64 word \<Rightarrow> encryption_header \<Rightarrow> 'db program" where
  "CompareAndSwapHeader_program P ctx expectedRevision nxt =
     (case ctx_Err ctx of Some e \<Rightarrow> Return (PDone (Some e))
      | None \<Rightarrow>
     (let body = marshal_header nxt in
      Locked
     (Ask (\<lambda>db. case pb_Get P db encryptionHeaderKey of
        Inl e \<Rightarrow>
          if e = Sentinel PebbleErrNotFound then Return (PDone (Some (Sentinel ErrNotInitialized)))
          else Return (PDone (Some (errorf ''pebble get encryption header: %w'' e)))
      | Inr currentBody \<Rightarrow>
     (case unmarshal_header currentBody of
        Inl e \<Rightarrow> Return (PDone (Some (errorf ''pebble unmarshal encryption header: %w'' e)))
      | Inr current \<Rightarrow>
          if hdr_Revision current \<noteq> expectedRevision then Return (PDone (Some (Sentinel ErrConflict)))
          else Tell (\<lambda>db. pb_Set P db encryptionHeaderKey body)
            (wrapped ''pebble set encryption header: %w''))))))"

definition PutEnvelope_program ::
  "'db pebble_api \<Rightarrow> go_context \<Rightarrow> string \<Rightarrow> encrypted_blob \<Rightarrow> 'db program" where
  "PutEnvelope_program P ctx alias blob =
     (case ctx_Err ctx of Some e \<Rightarrow> Return (PDone (Some e))
      | None \<Rightarrow>
     (let alias = trim_space alias in
      case ValidateAlias alias of Some e \<Rightarrow> Return (PDone (Some e))
      | None \<Rightarrow>
     (let body = marshal_blob blob in
      Locked
     (let key = envelopeKey alias in
      Ask (\<lambda>db. case pb_Get P db key of
        Inr _ \<Rightarrow> Return (PDone (Some (Sentinel StoreErrExists)))
      | Inl e \<Rightarrow>
          if e \<noteq> Sentinel PebbleErrNotFound
          then Return (PDone (Some (errorf ''pebble get envelope: %w'' e)))
          else Tell (\<lambda>db. pb_Set P db key body) (wrapped ''pebble set envelope: %w''))))))"

definition GetEnvelope_program :: "'db pebble_api \<Rightarrow> go_context \<Rightarrow> string \<Rightarrow> 'db program" where
  "GetEnvelope_program P ctx alias =
     (case ctx_Err ctx of Some e \<Rightarrow> Return (PBlob (Inl e))
      | None \<Rightarrow>
     (let alias = trim_space alias in
      case ValidateAlias alias of Some e \<Rightarrow> Return (PBlob (Inl e))
      | None \<Rightarrow>
      Ask (\<lambda>db. Return (PBlob (case pb_Get P db (envelopeKey alias) of
        Inl e \<Rightarrow>
          if e = Sentinel PebbleErrNotFound then Inl (Sentinel StoreErrNotFound)
          else Inl (errorf ''pebble get envelope: %w'' e)
      | Inr body \<Rightarrow>
     (case unmarshal_blob body of
        Inl e \<Rightarrow> Inl (errorf ''pebble unmarshal envelope: %w'' e)
      | Inr blob \<Rightarrow> Inr blob))))))"

definition ListEnvelopes_program :: "'db pebble_api \<Rightarrow> go_context \<Rightarrow> 'db program" where
  "ListEnvelopes_program P ctx =
     (case ctx_Err ctx of Some e \<Rightarrow> Return (PAliases (Inl e))
      | None \<Rightarrow>
     (let upperBound = prefixUpperBound envelopePrefix in
      Ask (\<lambda>db. Return (PAliases (case pb_Iter P db envelopePrefix upperBound of
        Inl e \<Rightarrow> Inl (errorf ''pebble envelope iter: %w'' e)
      | Inr (ks, err) \<Rightarrow>
          (let aliases = envelope_aliases ks in
           case err of Some e \<Rightarrow> Inl (errorf ''pebble envelope iter: %w'' e)
           | None \<Rightarrow> Inr aliases))))))"

section \<open>Calls\<close>

datatype pebble_call =
    MPut go_context store_record
  | MGet go_context string
  | MDelete go_context string
  | MHas go_context string
  | MList go_context
  | MCreateHeader go_context encryption_header
  | MLoadHeader go_context
  | MCompareAndSwapHeader go_context "64 word" encryption_header
  | MPutEnvelope go_context string encrypted_blob
  | MGetEnvelope go_context string
  | MDeleteEnvelope go_context string
  | MHasEnvelope go_context string
  | MListEnvelopes go_context

primrec method_program :: "'db pebble_api \<Rightarrow> pebble_call \<Rightarrow> 'db program" where
  "method_program P (MPut c r) = Put_program P c r"
| "method_program P (MGet c a) = Get_program P c a"
| "method_program P (MDelete c a) =
     Delete_program P bytes_of ''pebble get: %w'' ''pebble delete: %w'' c a"
| "method_program P (MHas c a) = Has_program P bytes_of ''pebble get: %w'' c a"
| "method_program P (MList c) = List_program P c"
| "method_program P (MCreateHeader c h) = CreateHeader_program P c h"
| "method_program P (MLoadHeader c) = LoadHeader_program P c"
| "method_program P (MCompareAndSwapHeader c n h) = CompareAndSwapHeader_program P c n h"
| "method_program P (MPutEnvelope c a b) = PutEnvelope_program P c a b"
| "method_program P (MGetEnvelope c a) = GetEnvelope_program P c a"
| "method_program P (MDeleteEnvelope c a) =
     Delete_program P envelopeKey ''pebble get envelope: %w'' ''pebble delete envelope: %w'' c a"
| "method_program P (MHasEnvelope c a) = Has_program P envelopeKey ''pebble get envelope: %w'' c a"
| "method_program P (MListEnvelopes c) = ListEnvelopes_program P c"

text \<open>The same call as one step.\<close>

primrec method_step :: "'db pebble_api \<Rightarrow> pebble_call \<Rightarrow> 'db option \<Rightarrow> pebble_answer \<times> 'db option" where
  "method_step P (MPut c r) s = map_prod PDone id (pebble_Put P c r s)"
| "method_step P (MGet c a) s = (PRecord (pebble_Get P c a s), s)"
| "method_step P (MDelete c a) s = map_prod PDone id (pebble_Delete P c a s)"
| "method_step P (MHas c a) s = (PHas (pebble_Has P c a s), s)"
| "method_step P (MList c) s = (PAliases (pebble_List P c s), s)"
| "method_step P (MCreateHeader c h) s = map_prod PDone id (pebble_CreateHeader P c h s)"
| "method_step P (MLoadHeader c) s = (PHeader (pebble_LoadHeader P c s), s)"
| "method_step P (MCompareAndSwapHeader c n h) s =
     map_prod PDone id (pebble_CompareAndSwapHeader P c n h s)"
| "method_step P (MPutEnvelope c a b) s = map_prod PDone id (pebble_PutEnvelope P c a b s)"
| "method_step P (MGetEnvelope c a) s = (PBlob (pebble_GetEnvelope P c a s), s)"
| "method_step P (MDeleteEnvelope c a) s = map_prod PDone id (pebble_DeleteEnvelope P c a s)"
| "method_step P (MHasEnvelope c a) s = (PHas (pebble_HasEnvelope P c a s), s)"
| "method_step P (MListEnvelopes c) s = (PAliases (pebble_ListEnvelopes P c s), s)"

lemmas program_defs = Put_program_def Get_program_def Delete_program_def Has_program_def
  List_program_def CreateHeader_program_def LoadHeader_program_def CompareAndSwapHeader_program_def
  PutEnvelope_program_def GetEnvelope_program_def ListEnvelopes_program_def

lemma run_method:
  "method_step P c (Some db) = map_prod id Some (run_program (method_program P c) db)"
  by (cases c)
     (auto simp: program_defs pebble_rec_defs pebble_env_defs db_read_def db_write_def wrapped_def Let_def
       split: option.splits sum.splits prod.splits)

text \<open>The shape of the programs: a read needs no mutex, a write follows one read under it.\<close>

definition shaped :: "'db program \<Rightarrow> bool" where
  "shaped p \<longleftrightarrow> (\<exists>a. p = Return a) \<or> (\<exists>f. p = Ask (\<lambda>db. Return (f db))) \<or>
     (\<exists>f. p = Locked (Ask f) \<and> (\<forall>db. (\<exists>a. f db = Return a) \<or> (\<exists>g k. f db = Tell g k)))"

lemma method_shaped: "shaped (method_program P c)"
  by (cases c)
     (auto simp: program_defs shaped_def Let_def split: option.splits sum.splits prod.splits)

section \<open>Threads\<close>

text \<open>A thread is idle or runs the rest of a program for a call, with the mutex or without. The history
  records when a call is invoked, when it takes effect and when it responds: a call takes effect
  where its answer is known, at a read without a write after it or at the write.\<close>

datatype ('c, 'db) thread = Idle | Running bool 'c "'db program"

datatype 'c event = Invoke nat 'c | Effect nat 'c pebble_answer | Respond nat pebble_answer

type_synonym ('c, 'db) threads = "'db \<times> nat option \<times> (nat \<Rightarrow> ('c, 'db) thread) \<times> 'c event list"

definition decided :: "nat \<Rightarrow> 'c \<Rightarrow> 'db program \<Rightarrow> 'c event list" where
  "decided i c p = (case p of Return a \<Rightarrow> [Effect i c a] | _ \<Rightarrow> [])"

inductive thread_step ::
  "('c \<Rightarrow> 'db program) \<Rightarrow> ('c, 'db) threads \<Rightarrow> ('c, 'db) threads \<Rightarrow> bool" for prog where
  invoke: "th i = Idle \<Longrightarrow> thread_step prog (db, mu, th, h)
    (db, mu, th(i := Running False c (prog c)), h @ Invoke i c # decided i c (prog c))"
| ask: "th i = Running l c (Ask f) \<Longrightarrow> thread_step prog (db, mu, th, h)
    (db, mu, th(i := Running l c (f db)), h @ decided i c (f db))"
| tell: "th i = Running l c (Tell f k) \<Longrightarrow> f db = (e, db') \<Longrightarrow> thread_step prog (db, mu, th, h)
    (db', mu, th(i := Running l c (Return (k e))), h @ [Effect i c (k e)])"
| lock: "th i = Running False c (Locked p) \<Longrightarrow> thread_step prog (db, None, th, h)
    (db, Some i, th(i := Running True c p), h)"
| respond: "th i = Running l c (Return a) \<Longrightarrow> thread_step prog (db, mu, th, h)
    (db, if l then None else mu, th(i := Idle), h @ [Respond i a])"

text \<open>The calls with their answers in the order of their effects, and the calls one after another.\<close>

fun effects :: "'c event list \<Rightarrow> ('c \<times> pebble_answer) list" where
  "effects [] = []"
| "effects (Effect i c a # h) = (c, a) # effects h"
| "effects (_ # h) = effects h"

fun run_calls :: "('c \<Rightarrow> 'db program) \<Rightarrow> 'c list \<Rightarrow> 'db \<Rightarrow> pebble_answer list \<times> 'db" where
  "run_calls prog [] db = ([], db)"
| "run_calls prog (c # cs) db =
     (case run_program (prog c) db of (a, db) \<Rightarrow>
      case run_calls prog cs db of (as, db) \<Rightarrow> (a # as, db))"

text \<open>What a thread has been through: each call takes effect once, between its invocation and its
  response, with the answer that it responds.\<close>

datatype 'c phase = Free | Called 'c | Took pebble_answer | Wrong

fun move :: "nat \<Rightarrow> 'c event \<Rightarrow> 'c phase \<Rightarrow> 'c phase" where
  "move i (Invoke j c) p = (if i \<noteq> j then p else if p = Free then Called c else Wrong)"
| "move i (Effect j c a) p = (if i \<noteq> j then p else if p = Called c then Took a else Wrong)"
| "move i (Respond j a) p = (if i \<noteq> j then p else if p = Took a then Free else Wrong)"

definition phase :: "nat \<Rightarrow> 'c event list \<Rightarrow> 'c phase" where
  "phase i h = fold (move i) h Free"

lemma phase_simps [simp]:
  "phase i [] = Free" "phase i (h @ [e]) = move i e (phase i h)"
  "phase i (h @ [e, e']) = move i e' (move i e (phase i h))"
  by (simp_all add: phase_def)

lemma effects_append [simp]: "effects (h @ h') = effects h @ effects h'"
  by (induction h rule: effects.induct) simp_all

lemma run_calls_append:
  "run_calls prog (cs @ ds) db = (case run_calls prog cs db of (as, db) \<Rightarrow>
     case run_calls prog ds db of (bs, db) \<Rightarrow> (as @ bs, db))"
  by (induction cs arbitrary: db) (simp_all split: prod.splits)

lemma decided_simps [simp]:
  "decided i c (Return a) = [Effect i c a]" "decided i c (Ask f) = []" "decided i c (Tell g k) = []"
  "decided i c (Locked p) = []"
  by (simp_all add: decided_def)

definition replays :: "('c \<Rightarrow> 'db program) \<Rightarrow> 'db \<Rightarrow> 'c event list \<Rightarrow> 'db \<Rightarrow> bool" where
  "replays prog db0 h db \<longleftrightarrow> run_calls prog (map fst (effects h)) db0 = (map snd (effects h), db)"

lemma replays_effect:
  "replays prog db0 h db \<Longrightarrow> run_program (prog c) db = (a, db') \<Longrightarrow>
     replays prog db0 (h @ [Effect i c a]) db'"
  by (simp add: replays_def run_calls_append)

lemma replays_other [simp]:
  "replays prog db0 (h @ [Invoke i c]) db \<longleftrightarrow> replays prog db0 h db"
  "replays prog db0 (h @ [Respond i a]) db \<longleftrightarrow> replays prog db0 h db"
  by (simp_all add: replays_def)

text \<open>The state of a thread against the program of its call, the database and the holder of the mutex.\<close>

fun thread_ok :: "('c \<Rightarrow> 'db program) \<Rightarrow> 'db \<Rightarrow> 'c phase \<Rightarrow> bool \<Rightarrow> ('c, 'db) thread \<Rightarrow> bool" where
  "thread_ok prog db ph holds Idle \<longleftrightarrow> ph = Free \<and> \<not> holds"
| "thread_ok prog db ph holds (Running l c p) \<longleftrightarrow> l = holds \<and>
     (case p of Return a \<Rightarrow> ph = Took a
      | _ \<Rightarrow> ph = Called c \<and> (if l then \<exists>f. prog c = Locked (Ask f) \<and> (p = Ask f \<or> p = f db)
               else p = prog c))"

definition threads_ok :: "('c \<Rightarrow> 'db program) \<Rightarrow> 'db \<Rightarrow> ('c, 'db) threads \<Rightarrow> bool" where
  "threads_ok prog db0 t \<longleftrightarrow>
     (case t of (db, mu, th, h) \<Rightarrow> replays prog db0 h db \<and>
        (\<forall>i. thread_ok prog db (phase i h) (mu = Some i) (th i)))"

inductive_cases thread_stepE: "thread_step prog (db, mu, th, h) t"

locale mutex_programs =
  fixes prog :: "'c \<Rightarrow> 'db program"
  assumes shape: "shaped (prog c)"
begin

lemma prog_cases:
  obtains (pure) a where "prog c = Return a"
  | (reads) f where "prog c = Ask (\<lambda>db. Return (f db))"
  | (writes) f where "prog c = Locked (Ask f)"
      "\<And>db. (\<exists>a. f db = Return a) \<or> (\<exists>g k. f db = Tell g k)"
  using shape [of c] by (auto simp: shaped_def)

lemma others_ok:
  assumes "threads_ok prog db0 (db, mu, th, h)" "j \<noteq> i" "mu = Some i \<or> db' = db"
    "phase j h' = phase j h" "mu' = Some j \<longleftrightarrow> mu = Some j"
  shows "thread_ok prog db' (phase j h') (mu' = Some j) ((th(i := x)) j)"
proof -
  have o: "thread_ok prog db (phase j h) (mu = Some j) (th j)" using assms(1) by (simp add: threads_ok_def)
  show ?thesis
  proof (cases "mu = Some i")
    case True
    then have "mu \<noteq> Some j" using assms(2) by simp
    with o assms(2,4,5) show ?thesis by (cases "th j") (auto split: program.splits)
  next
    case False
    with o assms(2-5) show ?thesis by simp
  qed
qed

lemma updated_ok:
  assumes "threads_ok prog db0 (db, mu, th, h)" "mu = Some i \<or> db' = db"
    "\<And>j. j \<noteq> i \<Longrightarrow> phase j h' = phase j h" "\<And>j. j \<noteq> i \<Longrightarrow> mu' = Some j \<longleftrightarrow> mu = Some j"
    "replays prog db0 h' db'" "thread_ok prog db' (phase i h') (mu' = Some i) x"
  shows "threads_ok prog db0 (db', mu', th(i := x), h')"
  unfolding threads_ok_def prod.case
proof (intro conjI allI)
  fix j
  show "thread_ok prog db' (phase j h') (mu' = Some j) ((th(i := x)) j)"
    using others_ok [OF assms(1) _ assms(2), of j h' mu' x] assms(3,4,6) by (cases "j = i") auto
qed (rule assms(5))

lemma running_ok:
  assumes "threads_ok prog db0 (db, mu, th, h)" "th i = Running l c p"
  shows "replays prog db0 h db" "l \<longleftrightarrow> mu = Some i" "thread_ok prog db (phase i h) l (Running l c p)"
proof -
  have "thread_ok prog db (phase i h) (mu = Some i) (th i)" using assms(1) by (simp add: threads_ok_def)
  then have o: "thread_ok prog db (phase i h) (mu = Some i) (Running l c p)" by (simp only: assms(2))
  then show l: "l \<longleftrightarrow> mu = Some i" by simp
  show "thread_ok prog db (phase i h) l (Running l c p)" using o unfolding l .
  show "replays prog db0 h db" using assms(1) by (simp add: threads_ok_def)
qed

lemma step_ok:
  assumes "thread_step prog t t'" "threads_ok prog db0 t"
  shows "threads_ok prog db0 t'"
  using assms
proof (cases rule: thread_step.cases)
  case (invoke th i db mu h c)
  note ok = assms(2) [unfolded invoke(1)]
  have i: "phase i h = Free" "mu \<noteq> Some i" "replays prog db0 h db"
    using ok invoke(3) by (auto simp: threads_ok_def dest!: spec [of _ i])
  have "replays prog db0 (h @ Invoke i c # decided i c (prog c)) db"
  proof (cases rule: prog_cases [of c])
    case (pure a)
    then have "replays prog db0 ((h @ [Invoke i c]) @ [Effect i c a]) db"
      using i(3) by (intro replays_effect) simp_all
    with pure show ?thesis by simp
  qed (use i(3) in simp_all)
  moreover have "thread_ok prog db (phase i (h @ Invoke i c # decided i c (prog c))) (mu = Some i)
      (Running False c (prog c))"
    using i by (cases rule: prog_cases [of c]) simp_all
  moreover have "phase j (h @ Invoke i c # decided i c (prog c)) = phase j h" if "j \<noteq> i" for j
    using that by (cases rule: prog_cases [of c]) simp_all
  ultimately show ?thesis unfolding invoke(2) by (intro updated_ok [OF ok]) simp_all
next
  case (ask th i l c f db mu h)
  note ok = assms(2) [unfolded ask(1)]
  note r = running_ok [OF ok ask(3)]
  have f: "(\<exists>a. f db = Return a) \<or> l \<and> prog c = Locked (Ask f) \<and> (\<exists>g k. f db = Tell g k)"
  proof (cases rule: prog_cases [of c])
    case (writes g)
    have "l" "Ask f = g db \<or> f = g" using r(3) writes(1) by (auto split: if_splits)
    with writes(1) writes(2) [of db] show ?thesis by auto
  qed (use r(3) in \<open>auto split: if_splits\<close>)
  have p: "run_program (prog c) db = run_program (f db) db" "phase i h = Called c"
    using r(3) by (auto split: if_splits dest!: sym [of "Ask f"])
  have "replays prog db0 (h @ decided i c (f db)) db"
    using f r(1) p by (auto intro: replays_effect)
  moreover have "thread_ok prog db (phase i (h @ decided i c (f db))) (mu = Some i) (Running l c (f db))"
    using f r(2) p by auto
  moreover have "phase j (h @ decided i c (f db)) = phase j h" if "j \<noteq> i" for j
    using that f by auto
  ultimately show ?thesis unfolding ask(2)
    by (intro updated_ok [OF ok]) (simp_all del: thread_ok.simps)
next
  case (tell th i l c f k db e db' mu h)
  note ok = assms(2) [unfolded tell(1)]
  note r = running_ok [OF ok tell(3)]
  have p: "run_program (prog c) db = (k e, db')" "phase i h = Called c" "l"
  proof -
    obtain g where g: "l" "prog c = Locked (Ask g)" "g db = Tell f k" "phase i h = Called c"
      using r(3) by (cases rule: prog_cases [of c]) (auto split: if_splits dest: sym)
    then show "run_program (prog c) db = (k e, db')" "phase i h = Called c" "l"
      using tell(4) by simp_all
  qed
  show ?thesis unfolding tell(2)
    using r(1,2) p by (intro updated_ok [OF ok]) (simp_all add: replays_effect)
next
  case (lock th i c p db h)
  note ok = assms(2) [unfolded lock(1)]
  note r = running_ok [OF ok lock(3)]
  have "prog c = Locked p" "phase i h = Called c" using r(3) by auto
  then show ?thesis unfolding lock(2)
    using r(1) by (intro updated_ok [OF ok]; cases rule: prog_cases [of c]) auto
next
  case (respond th i l c a db mu h)
  note ok = assms(2) [unfolded respond(1)]
  note r = running_ok [OF ok respond(3)]
  show ?thesis unfolding respond(2)
    using r by (intro updated_ok [OF ok]) auto
qed

lemma steps_ok:
  assumes "(thread_step prog)\<^sup>*\<^sup>* (db0, None, \<lambda>_. Idle, []) t"
  shows "threads_ok prog db0 t"
  using assms
proof (induction rule: rtranclp_induct)
  case base
  show ?case by (simp add: threads_ok_def replays_def)
next
  case (step t t')
  then show ?case using step_ok by blast
qed

lemma linear:
  assumes "(thread_step prog)\<^sup>*\<^sup>* (db0, None, \<lambda>_. Idle, []) (db, mu, th, h)"
  shows "run_calls prog (map fst (effects h)) db0 = (map snd (effects h), db)" "phase i h \<noteq> Wrong"
    "mu = Some i \<Longrightarrow> \<exists>c p. th i = Running True c p \<and> (\<forall>q. p \<noteq> Locked q)"
proof -
  note ok = steps_ok [OF assms]
  then show "run_calls prog (map fst (effects h)) db0 = (map snd (effects h), db)"
    by (simp add: threads_ok_def replays_def)
  have t: "thread_ok prog db (phase i h) (mu = Some i) (th i)" using ok by (simp add: threads_ok_def)
  then show "phase i h \<noteq> Wrong" by (cases "th i") (auto split: program.splits)
  assume m: "mu = Some i"
  show "\<exists>c p. th i = Running True c p \<and> (\<forall>q. p \<noteq> Locked q)"
  proof (cases "th i")
    case Idle
    with t m show ?thesis by simp
  next
    case (Running l c p)
    have "p \<noteq> Locked q" for q
    proof
      assume p: "p = Locked q"
      then obtain f where "prog c = Locked (Ask f)" "f db = Locked q" using t m Running by auto
      with shape [of c] show False by (auto simp: shaped_def) (metis program.distinct)
    qed
    with Running t m show ?thesis by auto
  qed
qed

end

interpretation pt: mutex_programs "method_program P" for P
  by unfold_locales (rule method_shaped)

section \<open>Linearizability\<close>

fun method_steps ::
  "'db pebble_api \<Rightarrow> pebble_call list \<Rightarrow> 'db option \<Rightarrow> pebble_answer list \<times> 'db option" where
  "method_steps P [] s = ([], s)"
| "method_steps P (c # cs) s =
     (case method_step P c s of (a, s) \<Rightarrow> case method_steps P cs s of (as, s) \<Rightarrow> (a # as, s))"

lemma method_steps_run:
  "method_steps P cs (Some db) = map_prod id Some (run_calls (method_program P) cs db)"
  by (induction cs arbitrary: db) (simp_all add: run_method split: prod.splits)

text \<open>C15: The methods of the Pebble backend are atomic, whatever threads share the store. In every
  interleaving of the calls that they make of the database, the answers and the database are those
  of the methods run one after another, each at a moment between its invocation and its response,
  with the answer that it responds; and the thread that holds the mutex is never blocked.\<close>

theorem pebble_linearizable:
  assumes "(thread_step (method_program P))\<^sup>*\<^sup>* (db0, None, \<lambda>_. Idle, []) (db, mu, th, h)"
  shows "method_steps P (map fst (effects h)) (Some db0) = (map snd (effects h), Some db) \<and>
    (\<forall>i. phase i h \<noteq> Wrong) \<and>
    (\<forall>i. mu = Some i \<longrightarrow> (\<exists>c p. th i = Running True c p \<and> (\<forall>q. p \<noteq> Locked q)))"
  using pt.linear [OF assms] by (simp add: method_steps_run)

text \<open>A thread stores a record; another one looks for the alias between its read and its write.\<close>

definition noted_put :: pebble_call where
  "noted_put = MPut background \<lparr>rec_Alias = ''a'', rec_CredentialID = [7], rec_Salt = replicate 32 1,
     rec_RPID = ''r''\<rparr>"

definition noted_has :: pebble_call where
  "noted_has = MHas background ''a''"

lemma trim_letters [simp]: "trim_space ''a'' = ''a''" "trim_space ''r'' = ''r''"
  by code_simp+

lemma noted_programs:
  "\<exists>f g. method_program mem_pebble noted_put = Locked (Ask f) \<and>
     f [] = Tell g (wrapped ''pebble set: %w'') \<and> fst (g []) = None"
  "\<exists>f. method_program mem_pebble noted_has = Ask f \<and> f [] = Return (PHas (Inr False))"
  by (simp_all add: noted_put_def noted_has_def program_defs ctx_Err_def background_def ValidateRecord_def
      ValidateAlias_def SaltSize_def mem_pebble_def Let_def)

lemma interleaved:
  "\<exists>db th. (thread_step (method_program mem_pebble))\<^sup>*\<^sup>* ([], None, \<lambda>_. Idle, [])
     (db, Some 0, th, [Invoke 0 noted_put, Invoke 1 noted_has, Effect 1 noted_has (PHas (Inr False)),
        Effect 0 noted_put (PDone None)])"
proof -
  let ?step = "thread_step (method_program mem_pebble)"
  obtain f g db where p: "method_program mem_pebble noted_put = Locked (Ask f)"
      "f [] = Tell g (wrapped ''pebble set: %w'')" "g [] = (None, db)"
    using noted_programs(1) by (metis prod.collapse)
  obtain q where q: "method_program mem_pebble noted_has = Ask q" "q [] = Return (PHas (Inr False))"
    using noted_programs(2) by blast
  let ?t0 = "Running False noted_put (Locked (Ask f))" and ?t1 = "Running True noted_put (Ask f)"
    and ?t2 = "Running True noted_put (Tell g (wrapped ''pebble set: %w''))"
    and ?u0 = "Running False noted_has (Ask q)" and ?u1 = "Running False noted_has (Return (PHas (Inr False)))"
  let ?h1 = "[Invoke 0 noted_put]" and ?h2 = "[Invoke 0 noted_put, Invoke 1 noted_has]"
  let ?h3 = "?h2 @ [Effect 1 noted_has (PHas (Inr False))]"
  let ?th0 = "(\<lambda>_. Idle)(0 := ?t0)" let ?th1 = "?th0(0 := ?t1)" let ?th2 = "?th1(1 := ?u0)"
  let ?th3 = "?th2(0 := ?t2)" let ?th4 = "?th3(1 := ?u1)"
  have s1: "?step ([], None, \<lambda>_. Idle, []) ([], None, ?th0, ?h1)"
    using thread_step.invoke [of "\<lambda>_. Idle" 0 "method_program mem_pebble" "[]" None "[]" noted_put] p(1) by simp
  have s2: "?step ([], None, ?th0, ?h1) ([], Some 0, ?th1, ?h1)" by (rule thread_step.lock) simp
  have s3: "?step ([], Some 0, ?th1, ?h1) ([], Some 0, ?th2, ?h2)"
    using thread_step.invoke [of ?th1 1 "method_program mem_pebble" "[]" "Some 0" ?h1 noted_has] q(1) by simp
  have s4: "?step ([], Some 0, ?th2, ?h2) ([], Some 0, ?th3, ?h2)"
    using thread_step.ask [of ?th2 0 True noted_put f "method_program mem_pebble" "[]" "Some 0" ?h2] p(2) by simp
  have s5: "?step ([], Some 0, ?th3, ?h2) ([], Some 0, ?th4, ?h3)"
    using thread_step.ask [of ?th3 1 False noted_has q "method_program mem_pebble" "[]" "Some 0" ?h2] q(2) by simp
  have s6: "?step ([], Some 0, ?th4, ?h3) (db, Some 0, ?th4(0 := Running True noted_put (Return (PDone None))),
      ?h3 @ [Effect 0 noted_put (PDone None)])"
    using thread_step.tell [of ?th4 0 True noted_put g "wrapped ''pebble set: %w''" "[]" None db
      "method_program mem_pebble" "Some 0" ?h3] p(3) by (simp add: wrapped_def)
  from s1 s2 s3 s4 s5 s6 show ?thesis
    by (intro exI) (simp, (rule converse_rtranclp_into_rtranclp, assumption)+, rule rtranclp.rtrancl_refl)
qed

theorem pebble_linearizable_witness:
  "\<exists>db. method_steps mem_pebble [noted_has, noted_put] (Some []) =
     ([PHas (Inr False), PDone None], Some db)"
proof -
  obtain db th where s: "(thread_step (method_program mem_pebble))\<^sup>*\<^sup>* ([], None, \<lambda>_. Idle, [])
     (db, Some 0, th, [Invoke 0 noted_put, Invoke 1 noted_has, Effect 1 noted_has (PHas (Inr False)),
        Effect 0 noted_put (PDone None)])" using interleaved by blast
  from pebble_linearizable [OF s] show ?thesis by auto
qed

end
