(* ===== verification/Sqlite_Threads.thy ===== *)
theory Sqlite_Threads
  imports Sqlite_Properties
begin

text \<open>
  The SQLite backend under concurrent calls. There is no mutex: the database serves one statement
  at a time. Every method that writes is a single statement but \<open>CompareAndSwapHeader\<close>, which looks
  for the reason of a refusal in a second one; \<open>cas_update\<close> and \<open>cas_check\<close> are its two parts, and
  \<open>sql_step\<close> is what others can do in between.
\<close>

section \<open>The two statements of CompareAndSwapHeader\<close>

text \<open>\<open>None\<close> when no row was touched and the code goes on to the check.\<close>

definition cas_update ::
  "'db sqlite_api \<Rightarrow> go_context \<Rightarrow> 64 word \<Rightarrow> encryption_header \<Rightarrow> 'db option
     \<Rightarrow> go_error option option \<times> 'db option" where
  "cas_update Q ctx expectedRevision nxt s =
     (let body = marshal_header nxt in
      case sql_exec Q ctx (UpdateHeader (hdr_Revision nxt) body expectedRevision) s of
        (Inl e, s) \<Rightarrow> (Some (Some (errorf ''sqlite update encryption header: %w'' e)), s)
      | (Inr (Inl e), s) \<Rightarrow> (Some (Some (errorf ''sqlite encryption header rows affected: %w'' e)), s)
      | (Inr (Inr n), s) \<Rightarrow> (if n \<noteq> 0 then Some None else None, s))"

definition cas_check :: "'db sqlite_api \<Rightarrow> go_context \<Rightarrow> 'db option \<Rightarrow> go_error" where
  "cas_check Q ctx s =
     (case sql_query s (sq_CountHeader Q ctx) of
        Inl e \<Rightarrow> errorf ''sqlite check encryption header: %w'' e
      | Inr exists \<Rightarrow> if exists = 0 then Sentinel ErrNotInitialized else Sentinel ErrConflict)"

lemma CompareAndSwapHeader_parts:
  "sqlite_CompareAndSwapHeader Q ctx v h s =
     (case cas_update Q ctx v h s of (Some res, s) \<Rightarrow> (res, s) | (None, s) \<Rightarrow> (Some (cas_check Q ctx s), s))"
  by (auto simp: sqlite_CompareAndSwapHeader_def cas_update_def cas_check_def Let_def
      split: sum.splits prod.splits)

section \<open>What others can do in between\<close>

text \<open>The methods that write, with the first part of \<open>CompareAndSwapHeader\<close> in its place. As in
  \<open>RotateKEK\<close>, a swap raises the revision.\<close>

inductive sql_step :: "'db sqlite_api \<Rightarrow> 'db option \<Rightarrow> 'db option \<Rightarrow> bool" for Q where
  "sqlite_Put Q c r s = (e, s') \<Longrightarrow> sql_step Q s s'"
| "sqlite_Delete Q c a s = (e, s') \<Longrightarrow> sql_step Q s s'"
| "sqlite_CreateHeader Q c h s = (e, s') \<Longrightarrow> sql_step Q s s'"
| "sqlite_PutEnvelope Q c a b s = (e, s') \<Longrightarrow> sql_step Q s s'"
| "sqlite_DeleteEnvelope Q c a s = (e, s') \<Longrightarrow> sql_step Q s s'"
| "v < hdr_Revision h \<Longrightarrow> cas_update Q c v h s = (x, s') \<Longrightarrow> sql_step Q s s'"

definition header_row :: "('db \<Rightarrow> sql_tables) \<Rightarrow> 'db option \<Rightarrow> (64 word \<times> bytes) option" where
  "header_row tab s = Option.bind s (\<lambda>d. tb_header (tab d))"

text \<open>One statement at most, and none that removes or lowers the header.\<close>

fun raising :: "sql_stmt \<Rightarrow> bool" where
  "raising (UpdateHeader rv body old) \<longleftrightarrow> old < rv"
| "raising _ \<longleftrightarrow> True"

lemma sql_step_exec:
  assumes "sql_step Q s s'"
  shows "s' = s \<or> (\<exists>c st x. raising st \<and> sql_exec Q c st s = (x, s'))"
  using assms
proof cases
  case (1 c r e)
  then show ?thesis
    by (fastforce simp: sqlite_Put_def Let_def split: option.splits sum.splits prod.splits if_splits
        intro: raising.simps)
qed (fastforce simp: sqlite_Delete_def sqlite_CreateHeader_def sqlite_PutEnvelope_def
    sqlite_DeleteEnvelope_def cas_update_def Let_def
    split: option.splits sum.splits prod.splits if_splits intro: raising.simps)+

lemma apply_header:
  assumes "sql_apply st t = Some (t', n)" "raising st" "tb_header t = Some (v, b)"
  shows "\<exists>v' b'. tb_header t' = Some (v', b') \<and> v \<le> v'"
  using assms by (cases st) (auto split: if_splits)

lemma apply_update:
  assumes "sql_apply (UpdateHeader rv b old) t = Some (t', n)"
  shows "if map_option fst (tb_header t) = Some old then n = 1 \<and> tb_header t' = Some (rv, b) else n = 0 \<and> t' = t"
  using assms by (auto split: if_splits)

context sqlite_db
begin

lemma sql_step_header:
  assumes "sql_step Q s s'" "s \<noteq> None"
  shows "s' \<noteq> None" "header_row tab s = Some (v, b) \<Longrightarrow> \<exists>v' b'. header_row tab s' = Some (v', b') \<and> v \<le> v'"
proof -
  obtain d where d: "s = Some d" using assms(2) by blast
  from sql_step_exec [OF assms(1)] consider "s' = s" | c st x where "raising st" "sql_exec Q c st (Some d) = (x, s')"
    using d by blast
  then have "s' \<noteq> None \<and> (header_row tab s = Some (v, b) \<longrightarrow> (\<exists>v' b'. header_row tab s' = Some (v', b') \<and> v \<le> v'))"
  proof cases
    case (2 c st x)
    from 2(2) show ?thesis
      by (cases rule: exec_cases) (use apply_header [OF _ 2(1)] d in \<open>auto simp: header_row_def\<close>)
  qed (use assms(2) in auto)
  then show "s' \<noteq> None" "header_row tab s = Some (v, b) \<Longrightarrow> \<exists>v' b'. header_row tab s' = Some (v', b') \<and> v \<le> v'"
    by auto
qed

lemma sql_steps_header:
  assumes "(sql_step Q)\<^sup>*\<^sup>* s s'" "s \<noteq> None"
  shows "s' \<noteq> None \<and> (\<forall>v b. header_row tab s = Some (v, b) \<longrightarrow>
    (\<exists>v' b'. header_row tab s' = Some (v', b') \<and> v \<le> v'))"
  using assms(1)
proof (induction rule: rtranclp_induct)
  case base
  then show ?case using assms(2) by auto
next
  case (step t u)
  have t: "t \<noteq> None" using step(3) by blast
  have "\<exists>v' b'. header_row tab u = Some (v', b') \<and> v \<le> v'" if r: "header_row tab s = Some (v, b)" for v b
  proof -
    obtain v1 b1 where "header_row tab t = Some (v1, b1)" "v \<le> v1" using step(3) r by blast
    with sql_step_header(2) [OF step(2) t, of v1 b1] show ?thesis by (meson order.trans)
  qed
  with sql_step_header(1) [OF step(2) t] show ?case by blast
qed

lemma cas_update_cases:
  assumes "cas_update Q c v h s = (x, s')" "s \<noteq> None"
  shows "s' \<noteq> None"
    "x = Some None \<Longrightarrow> map_option fst (header_row tab s) = Some v \<and>
       header_row tab s' = Some (hdr_Revision h, marshal_header h)"
    "x = None \<Longrightarrow> tab (the s') = tab (the s) \<and> map_option fst (header_row tab s) \<noteq> Some v"
proof -
  obtain d where d: "s = Some d" using assms(2) by blast
  obtain y where y: "sql_exec Q c (UpdateHeader (hdr_Revision h) (marshal_header h) v) (Some d) = (y, s')"
    and x: "x = (case y of Inl e \<Rightarrow> Some (Some (errorf ''sqlite update encryption header: %w'' e))
      | Inr (Inl e) \<Rightarrow> Some (Some (errorf ''sqlite encryption header rows affected: %w'' e))
      | Inr (Inr n) \<Rightarrow> if n \<noteq> 0 then Some None else None)"
    using assms(1) d by (auto simp: cas_update_def Let_def split: sum.splits prod.splits if_splits)
  from y have "s' \<noteq> None \<and> (x = Some None \<longrightarrow> map_option fst (header_row tab s) = Some v \<and>
       header_row tab s' = Some (hdr_Revision h, marshal_header h)) \<and>
    (x = None \<longrightarrow> tab (the s') = tab (the s) \<and> map_option fst (header_row tab s) \<noteq> Some v)"
  proof (cases rule: exec_cases)
    case (applied n d')
    with apply_update [OF applied(3)] x d show ?thesis
      by (auto simp: header_row_def simp del: sql_apply.simps split: if_splits)
  qed (use x in auto)
  then show "s' \<noteq> None"
    "x = Some None \<Longrightarrow> map_option fst (header_row tab s) = Some v \<and>
       header_row tab s' = Some (hdr_Revision h, marshal_header h)"
    "x = None \<Longrightarrow> tab (the s') = tab (the s) \<and> map_option fst (header_row tab s) \<noteq> Some v"
    by auto
qed

lemma cas_check_cases:
  assumes "s \<noteq> None"
  shows "cas_check Q c s = Sentinel ErrNotInitialized \<Longrightarrow> header_row tab s = None"
    "cas_check Q c s = Sentinel ErrConflict \<Longrightarrow> header_row tab s \<noteq> None"
proof -
  obtain d where d: "s = Some d" using assms by blast
  have "(cas_check Q c s = Sentinel ErrNotInitialized \<longrightarrow> header_row tab s = None) \<and>
    (cas_check Q c s = Sentinel ErrConflict \<longrightarrow> header_row tab s \<noteq> None)"
  proof (cases "sq_CountHeader Q c d")
    case (Inl e)
    with header_count_err obtain m where "e = Foreign m" by blast
    with Inl d show ?thesis by (simp add: cas_check_def sql_query_def errorf_def)
  next
    case (Inr n)
    with header_count [OF Inr] d show ?thesis by (simp add: cas_check_def sql_query_def header_row_def)
  qed
  then show "cas_check Q c s = Sentinel ErrNotInitialized \<Longrightarrow> header_row tab s = None"
    "cas_check Q c s = Sentinel ErrConflict \<Longrightarrow> header_row tab s \<noteq> None" by blast+
qed

end

section \<open>Compare and swap among others\<close>

text \<open>C11: \<open>CompareAndSwapHeader\<close> on SQLite decides in its first statement, whatever others do before
  its second: it succeeds only where the header had the expected revision, and has replaced it;
  from then on no other call that expects that revision succeeds, as long as swaps raise the
  revision. Otherwise it has changed nothing and the revision was another one; \<open>ErrNotInitialized\<close>
  means that there was no header all the while, \<open>ErrConflict\<close> that there is one in the end.\<close>

theorem sqlite_cas_one_winner:
  assumes "sqlite_db Q tab" "s \<noteq> None" "cas_update Q c v h s = (x, s1)" "(sql_step Q)\<^sup>*\<^sup>* s1 s2"
  shows "(x = Some None \<longrightarrow> map_option fst (header_row tab s) = Some v \<and>
      header_row tab s1 = Some (hdr_Revision h, marshal_header h) \<and>
      (v < hdr_Revision h \<longrightarrow> (\<forall>c' h'. fst (cas_update Q c' v h' s2) \<noteq> Some None))) \<and>
    (x = None \<longrightarrow> tab (the s1) = tab (the s) \<and> map_option fst (header_row tab s) \<noteq> Some v \<and>
      (cas_check Q c s2 = Sentinel ErrNotInitialized \<longrightarrow>
         (\<forall>t. (sql_step Q)\<^sup>*\<^sup>* s1 t \<longrightarrow> (sql_step Q)\<^sup>*\<^sup>* t s2 \<longrightarrow> header_row tab t = None)) \<and>
      (cas_check Q c s2 = Sentinel ErrConflict \<longrightarrow> header_row tab s2 \<noteq> None))"
proof (intro conjI impI allI)
  note up = sqlite_db.cas_update_cases [OF assms(1,3,2)]
  note later = sqlite_db.sql_steps_header [OF assms(1)]
  show "map_option fst (header_row tab s) = Some v"
    "header_row tab s1 = Some (hdr_Revision h, marshal_header h)" if "x = Some None"
    using up(2) [OF that] by blast+
  show "fst (cas_update Q c' v h' s2) \<noteq> Some None" if won: "x = Some None" "v < hdr_Revision h" for c' h'
  proof
    assume n: "fst (cas_update Q c' v h' s2) = Some None"
    obtain v' b' where r: "header_row tab s2 = Some (v', b')" "hdr_Revision h \<le> v'"
      using later [OF assms(4) up(1)] up(2) [OF won(1)] by blast
    have "s2 \<noteq> None" using later [OF assms(4) up(1)] by blast
    then have "map_option fst (header_row tab s2) = Some v"
      using sqlite_db.cas_update_cases(2) [OF assms(1) _ _ n] by (metis prod.collapse)
    with r won(2) show False by simp
  qed
  show "tab (the s1) = tab (the s)" "map_option fst (header_row tab s) \<noteq> Some v" if "x = None"
    using up(3) [OF that] by blast+
  have s2: "s2 \<noteq> None" using later [OF assms(4) up(1)] by blast
  show "header_row tab t = None"
    if no: "cas_check Q c s2 = Sentinel ErrNotInitialized" "(sql_step Q)\<^sup>*\<^sup>* s1 t" "(sql_step Q)\<^sup>*\<^sup>* t s2" for t
  proof (rule ccontr)
    assume "header_row tab t \<noteq> None"
    then obtain r b where "header_row tab t = Some (r, b)" by auto
    then have "header_row tab s2 \<noteq> None"
      using later [OF no(3)] later [OF no(2) up(1)] by blast
    with sqlite_db.cas_check_cases(1) [OF assms(1) s2 no(1)] show False by blast
  qed
  show "header_row tab s2 \<noteq> None" if "cas_check Q c s2 = Sentinel ErrConflict"
    by (rule sqlite_db.cas_check_cases(2) [OF assms(1) s2 that])
qed

text \<open>A swap of revision 1 on a database that has no header yet finds nothing to update; another call
  creates the header, of revision 1; the check then reports a conflict. Run whole, the swap would
  report \<open>ErrNotInitialized\<close> before the other call and succeed after it.\<close>

definition raced_header :: "64 word \<Rightarrow> encryption_header" where
  "raced_header v = \<lparr>hdr_Version = 1, hdr_Revision = v, hdr_StoreID = [],
     hdr_KEK = \<lparr>ref_CredentialID = [], ref_Salt = [], ref_RPID = []\<rparr>, hdr_WrappedDEK = zero_blob\<rparr>"

abbreviation raced_row :: "64 word \<Rightarrow> sql_mem" where
  "raced_row v \<equiv> \<lparr>sm_credentials = [], sm_header = Some (v, marshal_header (raced_header v)), sm_envelopes = []\<rparr>"

lemma raced_revision [simp]: "hdr_Revision (raced_header v) = v"
  by (simp add: raced_header_def)

lemma raced_less: "(1 :: 64 word) < 2"
  by simp

lemma raced_statements:
  "sql_exec mem_sqlite c (InsertHeader 1 (marshal_header (raced_header 1))) (Some empty_sql) =
     (Inr (Inr 1), Some (raced_row 1))"
  "sql_exec mem_sqlite c (UpdateHeader 2 b 1) (Some empty_sql) = (Inr (Inr 0), Some empty_sql)"
  "sql_exec mem_sqlite c (UpdateHeader 2 (marshal_header (raced_header 2)) 1) (Some (raced_row 1)) =
     (Inr (Inr 1), Some (raced_row 2))"
  "sq_CountHeader mem_sqlite c empty_sql = Inr 0" "sq_CountHeader mem_sqlite c (raced_row v) = Inr 1"
  by (simp_all add: sql_exec_def mem_sqlite_def storable_def)

lemma raced_create: "sqlite_CreateHeader mem_sqlite c (raced_header 1) (Some empty_sql) = (None, Some (raced_row 1))"
  by (simp add: sqlite_CreateHeader_def raced_statements Let_def)

lemma raced_update:
  "cas_update mem_sqlite c 1 (raced_header 2) (Some empty_sql) = (None, Some empty_sql)"
  "cas_update mem_sqlite c 1 (raced_header 2) (Some (raced_row 1)) = (Some None, Some (raced_row 2))"
  by (simp_all add: cas_update_def raced_statements Let_def)

lemma cas_not_atomic:
  "cas_update mem_sqlite c 1 (raced_header 2) (Some empty_sql) = (None, Some empty_sql) \<and>
     sqlite_CreateHeader mem_sqlite c (raced_header 1) (Some empty_sql) = (None, Some (raced_row 1)) \<and>
     cas_check mem_sqlite c (Some (raced_row 1)) = Sentinel ErrConflict \<and>
     sqlite_CompareAndSwapHeader mem_sqlite c 1 (raced_header 2) (Some empty_sql) =
       (Some (Sentinel ErrNotInitialized), Some empty_sql) \<and>
     sqlite_CompareAndSwapHeader mem_sqlite c 1 (raced_header 2) (Some (raced_row 1)) =
       (None, Some (raced_row 2))"
  by (simp add: CompareAndSwapHeader_parts raced_update raced_create cas_check_def sql_query_def
      raced_statements)

theorem sqlite_cas_one_winner_witness:
  "\<exists>s s'. sqlite_CreateHeader mem_sqlite background (raced_header 1) (Some empty_sql) = (None, s) \<and>
     cas_update mem_sqlite background 1 (raced_header 2) s = (Some None, s') \<and>
     fst (cas_update mem_sqlite background 1 (raced_header 3) s') \<noteq> Some None"
  using sqlite_cas_one_winner [OF mem_sqlite_db _ raced_update(2) rtranclp.rtrancl_refl] raced_create raced_update(2)
  by (metis (no_types) option.distinct(1) raced_revision raced_less)

end
