(* ===== verification/Create_Race.thy ===== *)
theory Create_Race
  imports Secrets_Properties
begin

text \<open>
  Concurrent calls of \<open>Create\<close>. The mutex \<open>createMu\<close> orders the calls of one service; services that
  share a store (two processes on a SQLite file, or two \<open>Secrets\<close> over one store) are ordered by
  nothing. Here each service runs \<open>Create\<close> in the steps between which others can come: the check
  of the alias, the work on the device, \<open>Put\<close>, and the derivation (\<open>Create_phases\<close>). What the check
  promises is void when \<open>Put\<close> comes; that \<open>Put\<close> refuses an alias in use is enough.
\<close>

section \<open>The steps of Create\<close>

definition create_check ::
  "('s, 'a, 'w) secrets \<Rightarrow> rng \<Rightarrow> go_context \<Rightarrow> string \<Rightarrow> 's \<Rightarrow> go_error + bytes" where
  "create_check x g ctx alias s =
     (let alias = trim_space alias in
      case ValidateAlias alias of Some _ \<Rightarrow> Inl (Sentinel SecretsErrInvalidAlias)
      | None \<Rightarrow>
     (case st_Has (sx_store x) ctx alias s of
        Inl e \<Rightarrow> Inl (errorf ''secrets create has: %w'' e)
      | Inr exists \<Rightarrow>
     (if exists then Inl (Sentinel SecretsErrExists)
      else
     (case rand_Read g 0 SaltSize of
        Inl e \<Rightarrow> Inl (errorf ''secrets create salt: %w'' e)
      | Inr salt \<Rightarrow> Inr salt))))"

definition create_make ::
  "('s, 'a, 'w) secrets \<Rightarrow> ('a, 'w, 'e) authenticator \<Rightarrow> go_context \<Rightarrow> 'w
     \<Rightarrow> (go_error + 'a \<times> string \<times> credential) \<times> 'w" where
  "create_make x U ctx w =
     (case openSelected x (later ctx) OpCreate w of
        (Inl e, w) \<Rightarrow> (Inl e, w)
      | (Inr (auth, pin), w) \<Rightarrow>
     (case au_CreateCredential U auth (create_request x pin) w of
        (Inl e, w) \<Rightarrow> (Inl (errorf ''secrets create fido: %w'' e), w)
      | (Inr None, w) \<Rightarrow> (Inl nil_deref, w)
      | (Inr (Some cred), w) \<Rightarrow> (Inr (auth, pin, cred), w)))"

definition create_store ::
  "('s, 'a, 'w) secrets \<Rightarrow> go_context \<Rightarrow> store_record \<Rightarrow> 's \<Rightarrow> go_error option \<times> 's" where
  "create_store x ctx r s =
     (case st_Put (sx_store x) (later (later (later (later ctx)))) r s of
        (Some e, s) \<Rightarrow>
          (Some (if errors_is e StoreErrExists then Sentinel SecretsErrExists
                 else errorf ''secrets create store: %w'' e), s)
      | (None, s) \<Rightarrow> (None, s))"

definition create_finish ::
  "('a, 'w, 'e) authenticator \<Rightarrow> store_record \<Rightarrow> 'a \<Rightarrow> string \<Rightarrow> 'w \<Rightarrow> (go_error + 'e option) \<times> 'w" where
  "create_finish U r auth pin w =
     (case au_Derive U auth (derive_request r pin) w of
        (Inl e, w) \<Rightarrow> (Inl (errorf ''secrets create derive: %w'' e), w)
      | (Inr None, w) \<Rightarrow> (Inl nil_deref, w)
      | (Inr (Some sec), w) \<Rightarrow> (Inr (se_HMACSecret sec), w))"

text \<open>Without others in between they are \<open>Create\<close>.\<close>

lemma Create_phases:
  "secrets_Create x U g ctx alias (s, w) =
     (case create_check x g ctx alias s of Inl e \<Rightarrow> (Inl e, (s, w))
      | Inr salt \<Rightarrow>
     (case create_make x U ctx w of (Inl e, w) \<Rightarrow> (Inl e, (s, w))
      | (Inr (auth, pin, cred), w) \<Rightarrow>
     (case create_store x ctx (new_record x alias cred salt) s of (Some e, s) \<Rightarrow> (Inl e, (s, w))
      | (None, s) \<Rightarrow>
     (case create_finish U (new_record x alias cred salt) auth pin w of (res, w) \<Rightarrow> (res, (s, w))))))"
  by (auto simp: secrets_Create_def create_check_def create_make_def create_store_def create_finish_def
      create_request_def derive_request_def new_record_def Let_def
      split: option.splits sum.splits prod.splits)

section \<open>Services side by side\<close>

datatype ('a, 'e) create_phase =
    Ready
  | Checked go_context string bytes
  | Made go_context store_record 'a string
  | Stored store_record 'a string
  | Returned store_record "'e option"

inductive create_step ::
  "(nat \<Rightarrow> ('s, 'a, 'w) secrets) \<Rightarrow> ('a, 'w, 'e) authenticator
     \<Rightarrow> 's \<times> 'w \<times> (nat \<Rightarrow> ('a, 'e) create_phase) \<Rightarrow> 's \<times> 'w \<times> (nat \<Rightarrow> ('a, 'e) create_phase) \<Rightarrow> bool"
  for x U where
  check: "ph i = Ready \<Longrightarrow> create_check (x i) g c a s = Inr salt \<Longrightarrow>
    create_step x U (s, w, ph) (s, w, ph(i := Checked c a salt))"
| make: "ph i = Checked c a salt \<Longrightarrow> create_make (x i) U c w = (Inr (auth, pin, cred), w') \<Longrightarrow>
    create_step x U (s, w, ph) (s, w', ph(i := Made c (new_record (x i) a cred salt) auth pin))"
| make_fails: "ph i = Checked c a salt \<Longrightarrow> create_make (x i) U c w = (Inl e, w') \<Longrightarrow>
    create_step x U (s, w, ph) (s, w', ph(i := Ready))"
| store: "ph i = Made c r auth pin \<Longrightarrow> create_store (x i) c r s = (None, s') \<Longrightarrow>
    create_step x U (s, w, ph) (s', w, ph(i := Stored r auth pin))"
| store_fails: "ph i = Made c r auth pin \<Longrightarrow> create_store (x i) c r s = (Some e, s') \<Longrightarrow>
    create_step x U (s, w, ph) (s', w, ph(i := Ready))"
| finish: "ph i = Stored r auth pin \<Longrightarrow> create_finish U r auth pin w = (Inr v, w') \<Longrightarrow>
    create_step x U (s, w, ph) (s, w', ph(i := Returned r v))"
| finish_fails: "ph i = Stored r auth pin \<Longrightarrow> create_finish U r auth pin w = (Inl e, w') \<Longrightarrow>
    create_step x U (s, w, ph) (s, w', ph(i := Ready))"

text \<open>The record that a call has put, and what is known at each of its steps.\<close>

fun held :: "('a, 'e) create_phase \<Rightarrow> store_record option" where
  "held (Stored r auth pin) = Some r"
| "held (Returned r v) = Some r"
| "held _ = None"

definition clean_record :: "store_record \<Rightarrow> bool" where
  "clean_record r \<longleftrightarrow> norm_record r = r \<and> valid_utf8 (rec_RPID r)"

lemma clean_trim:
  assumes "clean_record r"
  shows "trim_space (rec_Alias r) = rec_Alias r" "trim_space (rec_RPID r) = rec_RPID r"
proof -
  have "rec_Alias (norm_record r) = trim_space (rec_Alias r)" "rec_RPID (norm_record r) = trim_space (rec_RPID r)"
    by (simp_all add: norm_record_def)
  moreover from assms have "norm_record r = r" by (simp add: clean_record_def)
  ultimately show "trim_space (rec_Alias r) = rec_Alias r" "trim_space (rec_RPID r) = rec_RPID r"
    by (simp_all only:)
qed

fun phase_ok ::
  "('e \<Rightarrow> bytes) \<Rightarrow> (bool \<Rightarrow> string \<Rightarrow> bytes \<Rightarrow> bytes \<Rightarrow> bytes) \<Rightarrow> ('a, 'e) create_phase \<Rightarrow> bool" where
  "phase_ok content hmac (Made c r auth pin) \<longleftrightarrow> clean_record r \<and> pin \<noteq> []"
| "phase_ok content hmac (Stored r auth pin) \<longleftrightarrow> clean_record r \<and> pin \<noteq> []"
| "phase_ok content hmac (Returned r v) \<longleftrightarrow> clean_record r \<and>
     map_option content v = Some (hmac True (rec_RPID r) (rec_CredentialID r) (rec_Salt r))"
| "phase_ok content hmac _ \<longleftrightarrow> True"

locale create_race = prf_authenticator U content hmac
  for U :: "('a, 'w, 'e) authenticator" and content hmac +
  fixes x :: "nat \<Rightarrow> ('s, 'a, 'w) secrets" and recs stored ok
  assumes services: "alias_api (x i) recs stored ok" and pins: "pin_given (x i)"
    and rpids: "valid_utf8 (sx_rpID (x i))"
begin

definition race_ok :: "('s \<times> 'w \<times> (nat \<Rightarrow> ('a, 'e) create_phase)) \<Rightarrow> bool" where
  "race_ok t \<longleftrightarrow> (case t of (s, w, ph) \<Rightarrow> ok s \<and> (\<forall>i. phase_ok content hmac (ph i)) \<and>
     (\<forall>i r. held (ph i) = Some r \<longrightarrow> recs s (rec_Alias r) = Some r) \<and>
     (\<forall>i j r q. held (ph i) = Some r \<longrightarrow> held (ph j) = Some q \<longrightarrow> i \<noteq> j \<longrightarrow> rec_Alias r \<noteq> rec_Alias q))"

lemma store_step:
  assumes "ok s" "create_store (x i) c r s = (e, s')"
  shows "ok s'" "recs s a = Some q \<Longrightarrow> recs s' a = Some q"
    "e = None \<Longrightarrow> clean_record r \<Longrightarrow> recs s (rec_Alias r) = None \<and> recs s' (rec_Alias r) = Some r"
proof -
  have st: "store_contract (sx_store (x i)) recs stored ok" using services by (simp add: alias_api_def)
  obtain e' where p: "st_Put (sx_store (x i)) (later (later (later (later c)))) r s = (e', s')"
      "e = None \<longleftrightarrow> e' = None"
    using assms(2) by (auto simp: create_store_def split: option.splits prod.splits)
  show "ok s'" by (rule store_contract.put_inv [OF st assms(1) p(1)])
  show "recs s a = Some q \<Longrightarrow> recs s' a = Some q" by (rule store_contract.put_keeps [OF st assms(1) p(1)])
  assume "e = None" and r: "clean_record r"
  then have "st_Put (sx_store (x i)) (later (later (later (later c)))) r s = (None, s')" using p by simp
  moreover have t: "trim_space (rec_Alias r) = rec_Alias r" "trim_space (rec_RPID r) = rec_RPID r"
    using clean_trim [OF r] by simp_all
  moreover have "stored r = r" using store_contract.stored_clean [OF st, of r] r t by (simp add: clean_record_def)
  ultimately show "recs s (rec_Alias r) = None \<and> recs s' (rec_Alias r) = Some r"
    using store_contract.put_ok [OF st assms(1)] by fastforce
qed

lemma make_step:
  assumes "create_make (x i) U c w = (Inr (auth, pin, cred), w')"
  shows "pin \<noteq> []" "clean_record (new_record (x i) a cred salt)"
proof -
  show "pin \<noteq> []"
    using assms openSelected_pin [OF _ pins] by (auto simp: create_make_def split: prod.splits sum.splits option.splits)
  show "clean_record (new_record (x i) a cred salt)"
    using alias_api.new_record_norm [OF services] rpids by (simp add: clean_record_def) (simp add: new_record_def)
qed

lemma finish_step:
  assumes "create_finish U r auth pin w = (Inr v, w')" "pin \<noteq> []"
  shows "map_option content v = Some (hmac True (rec_RPID r) (rec_CredentialID r) (rec_Salt r))"
  using assms derive_prf [of auth "derive_request r pin" w]
  by (auto simp: create_finish_def derive_request_def split: prod.splits sum.splits option.splits)

lemma step_ok:
  assumes "create_step x U t t'" "race_ok t"
  shows "race_ok t'"
  using assms
proof (cases rule: create_step.cases)
  case (check ph i g c a s salt w)
  then show ?thesis using assms(2) by (auto simp: race_ok_def)
next
  case (make ph i c a salt w auth pin cred w' s)
  then show ?thesis using assms(2) make_step [OF make(4)] by (auto simp: race_ok_def)
next
  case (make_fails ph i c a salt w e w' s)
  then show ?thesis using assms(2) by (auto simp: race_ok_def)
next
  case (store ph i c r auth pin s s' w)
  from assms(2) store(1,3) have r: "ok s" "clean_record r" "pin \<noteq> []"
    by (auto simp: race_ok_def dest!: spec [of _ i])
  note p = store_step [OF r(1) store(4)]
  have "rec_Alias q \<noteq> rec_Alias r" if h: "held (ph j) = Some q" for j q
  proof -
    have "recs s (rec_Alias q) = Some q" using assms(2) store(1) h by (simp add: race_ok_def)
    then show ?thesis using p(3) [OF refl r(2)] by (metis option.distinct(1))
  qed
  then show ?thesis using assms(2) store p(1,2) p(3) [OF refl r(2)] r(2,3) by (auto simp: race_ok_def)
next
  case (store_fails ph i c r auth pin s e s' w)
  from assms(2) store_fails(1) have "ok s" by (auto simp: race_ok_def)
  note p = store_step(1,2) [OF this store_fails(4)]
  show ?thesis using assms(2) store_fails p by (auto simp: race_ok_def)
next
  case (finish ph i r auth pin w v w' s)
  from assms(2) finish(1,3) have r: "clean_record r" "pin \<noteq> []" "held (ph i) = Some r"
    by (auto simp: race_ok_def dest!: spec [of _ i])
  from finish_step [OF finish(4) r(2)] r assms(2) finish(1,2) show ?thesis
    by (auto simp: race_ok_def)
next
  case (finish_fails ph i r auth pin w e w' s)
  then show ?thesis using assms(2) by (auto simp: race_ok_def)
qed

lemma steps_ok:
  assumes "(create_step x U)\<^sup>*\<^sup>* (s0, w0, \<lambda>_. Ready) t" "ok s0"
  shows "race_ok t"
  using assms(1)
proof (induction rule: rtranclp_induct)
  case base
  show ?case using assms(2) by (simp add: race_ok_def)
next
  case (step t t')
  then show ?case using step_ok by blast
qed

lemma steps_keep:
  assumes "(create_step x U)\<^sup>*\<^sup>* (s0, w0, \<lambda>_. Ready) t" "ok s0" "recs s0 a = Some r"
  shows "recs (fst t) a = Some r"
  using assms(1)
proof (induction rule: rtranclp_induct)
  case base
  show ?case using assms(3) by simp
next
  case (step t t')
  have "ok (fst t)" using steps_ok [OF step(1) assms(2)] by (auto simp: race_ok_def split: prod.splits)
  with step(2,3) show ?case by cases (auto dest: store_step(2))
qed

lemma returned_again:
  assumes "race_ok (s, w, ph)" "ph i = Returned r v"
    and "secrets_Derive (x j) U c (rec_Alias r) (s, w1) = (Inr v', (t, w2))"
  shows "map_option content v' = map_option content v"
proof -
  have r: "ok s" "recs s (rec_Alias r) = Some r" "clean_record r"
      "map_option content v = Some (hmac True (rec_RPID r) (rec_CredentialID r) (rec_Salt r))"
    using assms(1,2) by (auto simp: race_ok_def dest!: spec [of _ i])
  obtain auth pin w3 sec where d: "openSelected (x j) (later c) OpDerive w1 = (Inr (auth, pin), w3)"
      "au_Derive U auth (derive_request r pin) w3 = (Inr (Some sec), w2)" "v' = se_HMACSecret sec"
    using derive_course [OF services r(1) assms(3)] r(2) clean_trim [OF r(3)] by auto
  have "pin \<noteq> []" by (rule openSelected_pin [OF d(1) pins])
  then show ?thesis using derive_prf [OF d(2)] d(3) r(4) by (auto simp: derive_request_def)
qed

end

interpretation cr: create_race sample_authenticator "\<lambda>e. e" "\<lambda>_ _ i s. i @ s"
    "\<lambda>_. sample_service mem_store" "plain_recs map_of" plain_stored "plain_ok map_of"
  by unfold_locales simp_all

section \<open>Creates that overlap\<close>

text \<open>C16: However the \<open>Create\<close> calls of services with a common store overlap, no record that was
  there is lost, each call that has stored its record still finds it under its alias, no two of
  them got the same alias (even when both had checked that it was free), and what one returned is
  what each service's \<open>Derive\<close> of the alias returns.\<close>

theorem create_race_safe:
  assumes "\<And>i. alias_api (x i) recs stored ok" "prf_authenticator U content hmac"
    and "\<And>i. pin_given (x i)" "\<And>i. valid_utf8 (sx_rpID (x i))" "ok s0"
    and "(create_step x U)\<^sup>*\<^sup>* (s0, w0, \<lambda>_. Ready) (s, w, ph)"
  shows "(\<forall>a r. recs s0 a = Some r \<longrightarrow> recs s a = Some r) \<and>
    (\<forall>i r. held (ph i) = Some r \<longrightarrow> recs s (rec_Alias r) = Some r) \<and>
    (\<forall>i j r q. held (ph i) = Some r \<longrightarrow> held (ph j) = Some q \<longrightarrow> i \<noteq> j \<longrightarrow> rec_Alias r \<noteq> rec_Alias q) \<and>
    (\<forall>i r v j c v' t w1 w2. ph i = Returned r v \<longrightarrow>
      secrets_Derive (x j) U c (rec_Alias r) (s, w1) = (Inr v', (t, w2)) \<longrightarrow>
      map_option content v' = map_option content v)"
proof -
  have cr: "create_race U content hmac x recs stored ok"
    using assms(1-4) by (simp add: create_race_def create_race_axioms_def)
  note ok = create_race.steps_ok [OF cr assms(6,5)]
  then show ?thesis
    using create_race.steps_keep [OF cr assms(6,5)] create_race.returned_again [OF cr ok]
    by (simp add: create_race.race_ok_def [OF cr])
qed

text \<open>Two calls that both find \<open>mail\<close> free: the second \<open>Put\<close> is refused, and the secret that the
  first call returned is the one to be had from the second service.\<close>

lemma sample_check:
  "create_check (sample_service mem_store) zero_rng background ''mail'' (Some []) = Inr sample_salt"
  by (simp add: create_check_def sample_rand pebble_ops_def pebble_Has_def db_read_def mem_pebble_def)

lemma sample_make:
  "create_make (sample_service mem_store) sample_authenticator background w =
     (Inr ((), ''1234'', \<lparr>cr_ID = [of_nat w], cr_RPID = ''example.org'', cr_PubKey = []\<rparr>), Suc w)"
  by (simp add: create_make_def sample_authenticator_def create_request_def)

abbreviation race_record :: "byte \<Rightarrow> store_record" where
  "race_record b \<equiv> new_record (sample_service mem_store) ''mail''
     \<lparr>cr_ID = [b], cr_RPID = ''example.org'', cr_PubKey = []\<rparr> sample_salt"

lemma sample_race:
  "\<exists>s ph. (create_step (\<lambda>_. sample_service mem_store) sample_authenticator)\<^sup>*\<^sup>*
       (Some [], 7, \<lambda>_. Ready) (s, 9, ph) \<and> ph 0 = Returned (race_record 7) (Some (7 # sample_salt)) \<and>
     ph 1 = Ready \<and> s \<noteq> None"
proof -
  let ?S = "\<lambda>_ :: nat. sample_service mem_store" and ?U = sample_authenticator
  have ok: "valid_record (race_record b)" for b
    by (subst api.new_record_valid) (simp_all add: sample_salt_def SaltSize_def)
  then obtain s1 where s1: "st_Put mem_store background (race_record 7) (Some []) = (None, s1)" "s1 \<noteq> None"
    using live_store.put_live [OF mem_live_store, of "Some []" "race_record 7"] by auto
  have p1: "plain_ok map_of s1" "plain_recs map_of s1 = [''mail'' \<mapsto> plain_stored (race_record 7)]"
    using api.put_ok [OF empty_plain(1), of background "race_record 7" s1] s1(1) by simp_all
  obtain e s2 where s2: "st_Put mem_store background (race_record 8) s1 = (e, s2)"
    by (rule prod.exhaust)
  with p1 have e: "e \<noteq> None" "s2 \<noteq> None"
    using api.put_ok [OF p1(1), of background "race_record 8" s2]
      api.put_inv [OF p1(1), of background "race_record 8" e s2]
    by (auto simp: plain_ok_def split: option.splits)
  then obtain d where d: "create_store (sample_service mem_store) background (race_record 8) s1 = (Some d, s2)"
    using s2 by (auto simp: create_store_def)
  have st: "create_store (sample_service mem_store) background (race_record 7) (Some []) = (None, s1)"
    using s1 by (simp add: create_store_def)
  have fin: "create_finish ?U (race_record 7) () ''1234'' 9 = (Inr (Some (7 # sample_salt)), 9)"
    by (simp add: create_finish_def sample_authenticator_def derive_request_def new_record_def)
  let ?ck = "Checked background ''mail'' sample_salt"
    and ?md = "\<lambda>b. Made background (race_record b) () ''1234''"
  let ?p1 = "(\<lambda>_. Ready)(0 := ?ck)" let ?p2 = "?p1(1 := ?ck)" let ?p3 = "?p2(0 := ?md 7)"
  let ?p4 = "?p3(1 := ?md 8)" let ?p5 = "?p4(0 := Stored (race_record 7) () ''1234'')"
  let ?p6 = "?p5(1 := Ready)" let ?p7 = "?p6(0 := Returned (race_record 7) (Some (7 # sample_salt)))"
  let ?R = "create_step ?S ?U"
  have "?R (Some [], 7, \<lambda>_. Ready) (Some [], 7, ?p1)" by (rule create_step.check [OF _ sample_check]) simp
  moreover have "?R (Some [], 7, ?p1) (Some [], 7, ?p2)" by (rule create_step.check [OF _ sample_check]) simp
  moreover have "?R (Some [], 7, ?p2) (Some [], 8, ?p3)"
    using create_step.make [of ?p2 0 background "''mail''" sample_salt ?S ?U 7 _ _ _ 8] sample_make [of 7] by simp
  moreover have "?R (Some [], 8, ?p3) (Some [], 9, ?p4)"
    using create_step.make [of ?p3 1 background "''mail''" sample_salt ?S ?U 8 _ _ _ 9] sample_make [of 8] by simp
  moreover have "?R (Some [], 9, ?p4) (s1, 9, ?p5)"
    by (rule create_step.store [where x = ?S, OF _ st]) simp
  moreover have "?R (s1, 9, ?p5) (s2, 9, ?p6)"
    by (rule create_step.store_fails [where x = ?S, OF _ d]) simp
  moreover have "?R (s2, 9, ?p6) (s2, 9, ?p7)"
    by (rule create_step.finish [OF _ fin]) simp
  ultimately have "?R\<^sup>*\<^sup>* (Some [], 7, \<lambda>_. Ready) (s2, 9, ?p7)"
    by (meson converse_rtranclp_into_rtranclp rtranclp.rtrancl_refl)
  with e(2) show ?thesis by (intro exI [of _ s2] exI [of _ ?p7]) simp
qed

theorem create_race_safe_witness:
  "\<exists>s ph r v w. (create_step (\<lambda>_. sample_service mem_store) sample_authenticator)\<^sup>*\<^sup>*
       (Some [], 7, \<lambda>_. Ready) (s, 9, ph) \<and> ph 0 = Returned r (Some (7 # sample_salt)) \<and> ph 1 = Ready \<and>
     secrets_Derive (sample_service mem_store) sample_authenticator background ''mail'' (s, 20)
       = (Inr v, (s, w)) \<and> v = Some (7 # sample_salt)"
proof -
  obtain s ph where r: "(create_step (\<lambda>_. sample_service mem_store) sample_authenticator)\<^sup>*\<^sup>*
       (Some [], 7, \<lambda>_. Ready) (s, 9, ph)" "ph 0 = Returned (race_record 7) (Some (7 # sample_salt))"
      "ph 1 = Ready" "s \<noteq> None"
    using sample_race by blast
  note safe = create_race_safe [OF api.alias_api_axioms sa.prf_authenticator_axioms sample_pin _ empty_plain(1)
      r(1), simplified]
  have "plain_recs map_of s ''mail'' = Some (race_record 7)"
    using safe r(2) by (auto dest: spec [of _ 0])
  moreover have "plain_ok map_of s"
    using cr.steps_ok [OF r(1) empty_plain(1)] by (simp add: cr.race_ok_def)
  ultimately have "st_Get mem_store background ''mail'' s = Inr (race_record 7)"
    using live_store.get_live [OF mem_live_store, of s "''mail''"] r(4) by simp
  then obtain v w where d: "secrets_Derive (sample_service mem_store) sample_authenticator background
      ''mail'' (s, 20) = (Inr v, (s, w))"
    using derive_runs [of "''mail''" "sample_service mem_store" background s "race_record 7" 20 "()"
        "''1234''" 20 sample_authenticator]
    by (auto simp: sample_authenticator_def reported_def)
  then have "v = Some (7 # sample_salt)"
    using safe [THEN conjunct2, THEN conjunct2, rule_format, OF r(2), of background v] by auto
  with r d show ?thesis by blast
qed

end
