(* ===== verification/Vault_Handles.thy ===== *)
theory Vault_Handles
  imports Lifecycle_Properties
begin

text \<open>
  Several handles of encrypted stores over one backend, and what is true of a vault that they
  share: one DEK, a header that wraps it under the KEK of its own reference, and envelopes that were
  made with it. \<open>vault_opens\<close> says what this is good for. \<open>Vault_Threads\<close> shows that it stays true
  when calls on the handles overlap.
\<close>

section \<open>Handles\<close>

text \<open>What a handle keeps beside the backend, and the store it is over a backend.\<close>

type_synonym 'e handle = "encryption_header \<times> 'e option"

definition attach :: "'b \<Rightarrow> 'e handle \<Rightarrow> ('e, 'b) enc_store" where
  "attach b x = \<lparr>es_backend = Some b, es_header = fst x, es_dek = snd x\<rparr>"

definition detach :: "('e, 'b) enc_store \<Rightarrow> 'e handle" where
  "detach s = (es_header s, es_dek s)"

lemma attach_sel [simp]:
  "es_backend (attach b x) = Some b" "es_header (attach b x) = fst x" "es_dek (attach b x) = snd x"
  by (simp_all add: attach_def)

lemma detach_attach [simp]: "detach (attach b x) = x"
  by (simp add: detach_def)

lemma detach_backend [simp]: "detach (s\<lparr>es_backend := y\<rparr>) = detach s"
  by (simp add: detach_def)

lemma new_handle: "enc_New (Some b) = Inr s \<Longrightarrow> s = attach b (zero_header, None)"
  by (auto simp: enc_New_def attach_def)

section \<open>What is true of a vault\<close>

definition handle_ok :: "('e \<Rightarrow> bytes) \<Rightarrow> bytes \<Rightarrow> bytes \<Rightarrow> 'e handle \<Rightarrow> bool" where
  "handle_ok content K sid x \<longleftrightarrow>
     (\<forall>d. snd x = Some d \<longrightarrow> content d = K \<and> hdr_StoreID (fst x) = sid)"

text \<open>The header after at most \<open>n\<close> steps wraps \<open>K\<close> under the KEK of its reference.\<close>

definition header_ok ::
  "aead_ops \<Rightarrow> (kek_reference \<Rightarrow> bytes) \<Rightarrow> nat \<Rightarrow> encryption_header \<Rightarrow> bytes \<Rightarrow> bool" where
  "header_ok A kekof n h K \<longleftrightarrow>
     valid_header h \<and> unat (hdr_Revision h) \<le> n \<and> length (kekof (hdr_KEK h)) = KeySize \<and>
     length K = KeySize \<and> wraps A (kekof (hdr_KEK h)) K h"

definition envelopes_ok :: "aead_ops \<Rightarrow> bytes \<Rightarrow> bytes \<Rightarrow> (string \<Rightarrow> encrypted_blob option) \<Rightarrow> bool" where
  "envelopes_ok A K sid m \<longleftrightarrow> (\<forall>a e. m a = Some e \<longrightarrow> honest A K sid a e)"

lemma header_ok_mono: "header_ok A kekof n h K \<Longrightarrow> n \<le> m \<Longrightarrow> header_ok A kekof m h K"
  by (auto simp: header_ok_def)

lemma handle_ok_locked: "snd x = None \<Longrightarrow> handle_ok content K sid x"
  by (simp add: handle_ok_def)

lemma revision_up:
  assumes "unat (v :: 64 word) \<le> n" "Suc n < 2 ^ 64"
  shows "unat (v + 1) \<le> Suc n" "v + 1 \<noteq> 0"
proof -
  have "unat (v + 1) = Suc (unat v)"
    using assms by (simp add: unat_word_ariths)
  then show "unat (v + 1) \<le> Suc n" "v + 1 \<noteq> 0" using assms(1) by auto
qed

lemma envelopes_ok_update:
  "envelopes_ok A K sid m \<Longrightarrow> honest A K sid a e \<Longrightarrow> envelopes_ok A K sid (m(a \<mapsto> e))"
  "envelopes_ok A K sid m \<Longrightarrow> envelopes_ok A K sid (m(a := None))"
  by (simp_all add: envelopes_ok_def)

context sealing
begin

text \<open>One KEK opens a header to one DEK.\<close>

lemma wraps_unique:
  assumes "wraps A k K h" "wraps A k K' h" "valid_header h" "length k = KeySize"
  shows "K' = K"
proof -
  let ?n = "blob_Nonce (hdr_WrappedDEK h)"
  have n: "length ?n = NonceSizeX" using assms(3) by (simp add: valid_header_def valid_blob_def)
  have "ae_Seal A k ?n K (headerAAD h) = ae_Seal A k ?n K' (headerAAD h)"
    using assms(1,2) unfolding wraps_def sealed_def by (metis encrypted_blob.select_convs(4))
  then show ?thesis using open_seal [OF assms(4) n] by (metis option.inject)
qed

end

context enc_over
begin

lemma new_header_kept:
  assumes "valid_header h" "hdr_KEK h = trim_ref ref" "valid_utf8 (ref_RPID (trim_ref ref))"
  shows "kept h = h"
  using kept_clean clean_valid_header assms by metis

end

text \<open>A header and envelopes in order: unlocking with the KEK of the header opens all of them.\<close>

lemma vault_opens:
  assumes "enc_live B hdr envs kept kept_blob good M content A up"
    and g: "good b" "up b" "hdr b = Some h" and h: "header_ok A kekof n h K" "envelopes_ok A K (hdr_StoreID h) (envs b)"
    and "content k = kekof (hdr_KEK h)"
  shows "\<exists>s. enc_Unlock B M A background (Some k) (attach b x) = (None, s) \<and>
    (\<forall>a. envs b (trim_space a) \<noteq> None \<longrightarrow>
       (\<exists>r. enc_Get B M A background a s = Inr r \<and> rec_Alias r = trim_space a \<and> valid_record r))"
proof -
  have k: "length (content k) = KeySize" "length K = KeySize" "valid_header h" "wraps A (content k) K h"
    using h(1) assms(7) by (simp_all add: header_ok_def)
  obtain d where d: "enc_Unlock B M A background (Some k) (attach b x) =
      (None, (attach b x)\<lparr>es_header := h, es_dek := Some d\<rparr>)" "content d = K"
    using enc_live.unlock_live [OF assms(1) attach_sel(1) g k(3,4,1,2)] by blast
  have lv: "enc_vault_live B hdr envs kept kept_blob good M content A K zero_rng up"
    using assms(1) k(2)
    by (simp add: enc_vault_live_def enc_vault_def enc_vault_axioms_def enc_vault_live_axioms_def enc_live_def)
  let ?s = "(attach b x)\<lparr>es_header := h, es_dek := Some d\<rparr>"
  have ok: "vault_ok good envs content A K (hdr_StoreID h) (?s, 0)" "vault_up up (?s, 0)"
    using g h(2) d(2) by (auto simp: vault_ok_def vault_up_def envelopes_ok_def)
  have "\<exists>r. enc_Get B M A background a ?s = Inr r \<and> rec_Alias r = trim_space a \<and> valid_record r"
    if e: "envs b (trim_space a) = Some e" for a e
  proof -
    obtain nn r where r: "length nn = NonceSizeX" "valid_record r" "fits r" "rec_Alias r = trim_space a"
        "e = record_envelope A K (hdr_StoreID h) nn r"
      using h(2) [unfolded envelopes_ok_def honest_def, rule_format, OF e]
      by (elim exE conjE) (rule that)
    have "map_of_store envs A K (hdr_StoreID h) (?s, 0) (trim_space a) = Some r"
      using e r xchacha.record_at_envelope [OF _ k(2) r(1-4)] lv
      by (simp add: map_of_store_def vault_recs_def enc_vault_live_def enc_vault_def enc_over_def sealing_def)
    from enc_vault_live.get_up [OF lv ok this] r(2,4) show ?thesis by (simp add: enc_ops_def)
  qed
  with d(1) show ?thesis by blast
qed

section \<open>The backend in memory\<close>

lemma mem_backend: "envelope_backend mem_ops (pebble_hdr map_of) (pebble_envs map_of) kept_header_json
    kept_blob_json (pebble_good map_of)"
  by unfold_locales

lemma sample_ref_utf8: "valid_utf8 (ref_RPID sample_ref)"
  by (simp add: sample_ref_def)

end
