(* ===== verification/Vault_Threads.thy ===== *)
theory Vault_Threads
  imports Vault_Handles Pebble_Properties
begin

text \<open>
  Encrypted stores under concurrent calls: goroutines that share a handle, and handles that share a
  backend. Each method is cut where it reads or writes the handle under its mutex and where it
  calls the backend; the parts compose to the methods of \<open>Encrypted_Store\<close> (\<open>Put_parts\<close> and so on),
  and \<open>race_step\<close> runs the parts of all calls in any order that the mutex allows. \<open>RotateKEK\<close>
  holds the mutex from its look at the DEK to its end; the others only while they look or assign. A call of
  the backend is one step; on SQLite this is so for the swap of \<open>RotateKEK\<close> too, because the header
  is there by then (\<open>Sqlite_Threads\<close>). \<open>Unlock\<close> may be called with any KEK. The cipher does not commit
  to its key, so a KEK other than the header's could open the header to another DEK;
  \<open>forged_unlock\<close> is this event, and the theorems are about the runs without it.
\<close>

section \<open>The parts of the methods\<close>

definition put_seal ::
  "'e memguard \<Rightarrow> aead_ops \<Rightarrow> rng \<Rightarrow> go_context \<Rightarrow> store_record \<Rightarrow> ('e, 'b) enc_store
     \<Rightarrow> go_error + string \<times> encrypted_blob" where
  "put_seal M A g ctx r s =
     (case ctx_Err ctx of Some e \<Rightarrow> Inl e
      | None \<Rightarrow>
     (let r = r\<lparr>rec_Alias := trim_space (rec_Alias r)\<rparr>;
          r = r\<lparr>rec_RPID := trim_space (rec_RPID r)\<rparr> in
      case ValidateRecord r of Some e \<Rightarrow> Inl e
      | None \<Rightarrow>
     (case snapshot s of Inl e \<Rightarrow> Inl e
      | Inr (header, dek) \<Rightarrow>
     (case encodeRecord r of Inl e \<Rightarrow> Inl e
      | Inr plaintext \<Rightarrow>
     (case seal M A g 0 dek plaintext (recordAAD header (rec_Alias r)) of
        Inl e \<Rightarrow> Inl (errorf ''encrypted store: encrypt record: %w'' e)
      | Inr blob \<Rightarrow> Inr (rec_Alias r, blob))))))"

lemma Put_parts:
  "enc_Put B M A g ctx r s =
     (case put_seal M A g ctx r s of Inl e \<Rightarrow> (Some e, s)
      | Inr (alias, blob) \<Rightarrow> telling s (be_PutEnvelope B (later ctx) alias blob))"
  by (auto simp: enc_Put_def put_seal_def Let_def split: option.splits sum.splits prod.splits)

definition delete_ready :: "go_context \<Rightarrow> string \<Rightarrow> ('e, 'b) enc_store \<Rightarrow> go_error + string" where
  "delete_ready ctx alias s =
     (case ctx_Err ctx of Some e \<Rightarrow> Inl e
      | None \<Rightarrow>
     (let alias = trim_space alias in
      case ValidateAlias alias of Some e \<Rightarrow> Inl e
      | None \<Rightarrow>
     (case snapshot s of Inl e \<Rightarrow> Inl e | Inr _ \<Rightarrow> Inr alias)))"

lemma Delete_parts:
  "enc_Delete B ctx alias s =
     (case delete_ready ctx alias s of Inl e \<Rightarrow> (Some e, s)
      | Inr alias \<Rightarrow> telling s (be_DeleteEnvelope B (later ctx) alias))"
  by (auto simp: enc_Delete_def delete_ready_def Let_def split: option.splits sum.splits)

definition initialize_ready ::
  "'e memguard \<Rightarrow> go_context \<Rightarrow> kek_reference \<Rightarrow> 'e option \<Rightarrow> go_error + kek_reference" where
  "initialize_ready M ctx ref kek =
     (case ctx_Err ctx of Some e \<Rightarrow> Inl e
      | None \<Rightarrow>
     (let ref = cloneKEKReference ref; ref = ref\<lparr>ref_RPID := trim_space (ref_RPID ref)\<rparr> in
      case ValidateKEKReference ref of Some e \<Rightarrow> Inl e
      | None \<Rightarrow>
     (case validateKeyEnclave M kek ''KEK'' of Some e \<Rightarrow> Inl e | None \<Rightarrow> Inr ref)))"

definition initialize_header ::
  "'e memguard \<Rightarrow> aead_ops \<Rightarrow> rng \<Rightarrow> kek_reference \<Rightarrow> 'e option
     \<Rightarrow> go_error + encryption_header \<times> 'e option" where
  "initialize_header M A g ref kek =
     (case rand_Read g 0 storeIDSize of
        Inl e \<Rightarrow> Inl (errorf ''encrypted store: generate store id: %w'' e)
      | Inr storeID \<Rightarrow>
     (case randomEnclave M g 1 KeySize of
        Inl e \<Rightarrow> Inl (errorf ''encrypted store: generate DEK: %w'' e)
      | Inr dek \<Rightarrow>
     (let header = \<lparr>hdr_Version = FormatVersion, hdr_Revision = 1, hdr_StoreID = storeID,
            hdr_KEK = ref, hdr_WrappedDEK = zero_blob\<rparr> in
      case wrapEnclave M A g 2 kek dek (headerAAD header) of
        Inl e \<Rightarrow> Inl (errorf ''encrypted store: wrap DEK: %w'' e)
      | Inr wrapped \<Rightarrow> Inr (header\<lparr>hdr_WrappedDEK := wrapped\<rparr>, dek))))"

lemma Initialize_parts:
  "enc_Initialize B M A g ctx ref kek s =
     (case initialize_ready M ctx ref kek of Inl e \<Rightarrow> (Some e, s)
      | Inr ref \<Rightarrow>
     (case asking s (be_LoadHeader B (later ctx)) of
        Inr _ \<Rightarrow> (Some (Sentinel StoreErrExists), s)
      | Inl e \<Rightarrow>
     (if \<not> errors_is e ErrNotInitialized then (Some e, s)
      else
     (case asking s (be_ListEnvelopes B (later (later ctx))) of Inl e \<Rightarrow> (Some e, s)
      | Inr aliases \<Rightarrow>
     (if length aliases \<noteq> 0
      then (Some (errorf ''%w: encrypted records exist without a header''
             (Sentinel ErrConflict)), s)
      else
     (case initialize_header M A g ref kek of Inl e \<Rightarrow> (Some e, s)
      | Inr (header, dek) \<Rightarrow>
     (case telling s (be_CreateHeader B (later (later (later ctx))) header) of
        (Some e, s') \<Rightarrow> (Some (errorf ''encrypted store: create header: %w'' e), s')
      | (None, s') \<Rightarrow> (None, s'\<lparr>es_header := cloneHeader header, es_dek := dek\<rparr>))))))))"
  by (auto simp: enc_Initialize_def initialize_ready_def initialize_header_def Let_def
      split: option.splits sum.splits prod.splits)

definition unlock_ready :: "'e memguard \<Rightarrow> go_context \<Rightarrow> 'e option \<Rightarrow> go_error option" where
  "unlock_ready M ctx kek =
     (case ctx_Err ctx of Some e \<Rightarrow> Some e | None \<Rightarrow> validateKeyEnclave M kek ''KEK'')"

definition unlock_open ::
  "'e memguard \<Rightarrow> aead_ops \<Rightarrow> 'e option \<Rightarrow> encryption_header \<Rightarrow> go_error + 'e option" where
  "unlock_open M A kek header =
     (case validateHeader header of Some e \<Rightarrow> Inl e
      | None \<Rightarrow>
     (case unwrapEnclave M A kek (hdr_WrappedDEK header) (headerAAD header) of
        Inl e \<Rightarrow> Inl (errorf ''encrypted store: unwrap DEK: %w'' e)
      | Inr dek \<Rightarrow> Inr dek))"

lemma Unlock_parts:
  "enc_Unlock B M A ctx kek s =
     (case unlock_ready M ctx kek of Some e \<Rightarrow> (Some e, s)
      | None \<Rightarrow>
     (case asking s (be_LoadHeader B (later ctx)) of Inl e \<Rightarrow> (Some e, s)
      | Inr header \<Rightarrow>
     (case unlock_open M A kek header of Inl e \<Rightarrow> (Some e, s)
      | Inr dek \<Rightarrow> (None, s\<lparr>es_header := cloneHeader header, es_dek := dek\<rparr>))))"
  by (auto simp: enc_Unlock_def unlock_ready_def unlock_open_def split: option.splits sum.splits)

text \<open>\<open>RotateKEK\<close> checks its arguments as \<open>Initialize\<close> does.\<close>

definition rotate_header ::
  "'e memguard \<Rightarrow> aead_ops \<Rightarrow> rng \<Rightarrow> kek_reference \<Rightarrow> 'e option \<Rightarrow> ('e, 'b) enc_store
     \<Rightarrow> encryption_header \<Rightarrow> go_error + encryption_header" where
  "rotate_header M A g nxt nextKEK s current =
     (case validateHeader current of Some e \<Rightarrow> Inl e
      | None \<Rightarrow>
     (if hdr_Revision current \<noteq> hdr_Revision (es_header s)
      then Inl (Sentinel ErrConflict)
      else
     (let rotated = cloneHeader current;
          rotated = rotated\<lparr>hdr_Revision := hdr_Revision rotated + 1\<rparr>;
          rotated = rotated\<lparr>hdr_KEK := nxt\<rparr> in
      case wrapEnclave M A g 0 nextKEK (es_dek s) (headerAAD rotated) of
        Inl e \<Rightarrow> Inl (errorf ''encrypted store: rewrap DEK: %w'' e)
      | Inr wrapped \<Rightarrow> Inr (rotated\<lparr>hdr_WrappedDEK := wrapped\<rparr>))))"

lemma RotateKEK_parts:
  "enc_RotateKEK B M A g ctx nxt nextKEK s =
     (case initialize_ready M ctx nxt nextKEK of Inl e \<Rightarrow> (Some e, s)
      | Inr nxt \<Rightarrow>
     (if es_dek s = None then (Some (Sentinel ErrLocked), s)
      else
     (case asking s (be_LoadHeader B (later ctx)) of Inl e \<Rightarrow> (Some e, s)
      | Inr current \<Rightarrow>
     (case rotate_header M A g nxt nextKEK s current of Inl e \<Rightarrow> (Some e, s)
      | Inr rotated \<Rightarrow>
     (case telling s
        (be_CompareAndSwapHeader B (later (later ctx)) (hdr_Revision current) rotated) of
        (Some e, s') \<Rightarrow> (Some (errorf ''encrypted store: rotate header: %w'' e), s')
      | (None, s') \<Rightarrow> (None, s'\<lparr>es_header := cloneHeader rotated\<rparr>))))))"
  by (auto simp: enc_RotateKEK_def initialize_ready_def rotate_header_def Let_def
      split: option.splits sum.splits prod.splits)

section \<open>What the parts have done\<close>

lemma ready_Inr:
  assumes "initialize_ready M c ref kek = Inr ref'"
  shows "ref' = trim_ref ref" "ValidateKEKReference ref' = None" "validateKeyEnclave M kek ''KEK'' = None"
  using assms by (auto simp: initialize_ready_def trim_ref_def Let_def split: option.splits)

context sealing
begin

lemma put_seal_Inr:
  assumes "put_seal M A g c r s = Inr (a, e)"
  shows "\<exists>d. es_dek s = Some d \<and> trim_space a = a \<and> honest A (content d) (hdr_StoreID (es_header s)) a e"
proof -
  have n: "r\<lparr>rec_Alias := trim_space (rec_Alias r), rec_RPID := trim_space (rec_RPID r)\<rparr> = norm_record r"
    by (simp add: norm_record_def)
  have "valid_record (norm_record r)" "a = rec_Alias (norm_record r)" "fits (norm_record r)"
    and sl: "seal M A g 0 (es_dek s) (encoding (norm_record r)) (recordAAD (es_header s) a) = Inr e"
    using assms by (auto simp: put_seal_def Let_def n snapshot_Inr encodeRecord_Inr
        split: option.splits sum.splits)
  moreover from seal_Inr [OF sl] obtain d m where "es_dek s = Some d" "length m = NonceSizeX"
      "e = record_envelope A (content d) (hdr_StoreID (es_header s)) m (norm_record r)"
    using calculation(2) by (auto simp: record_envelope_def recordAAD_data)
  ultimately show ?thesis
    using honest_envelope [of m "norm_record r" A "content d" "hdr_StoreID (es_header s)"] by simp
qed

lemma initialize_header_Inr:
  assumes "initialize_header M A g ref kek = Inr (h, dk)" "ValidateKEKReference ref = None"
  obtains k d where "kek = Some k" "dk = Some d" "length (content k) = KeySize" "length (content d) = KeySize"
    "valid_header h" "hdr_KEK h = ref" "hdr_Revision h = 1" "wraps A (content k) (content d) h"
proof -
  obtain sid w where sid: "rand_Read g 0 storeIDSize = Inr sid" and dk: "randomEnclave M g 1 KeySize = Inr dk"
    and w: "wrapEnclave M A g 2 kek dk (headerAAD \<lparr>hdr_Version = FormatVersion, hdr_Revision = 1,
        hdr_StoreID = sid, hdr_KEK = ref, hdr_WrappedDEK = zero_blob\<rparr>) = Inr w"
    and h: "h = \<lparr>hdr_Version = FormatVersion, hdr_Revision = 1, hdr_StoreID = sid, hdr_KEK = ref,
        hdr_WrappedDEK = w\<rparr>"
    using assms(1) by (auto simp: initialize_header_def Let_def split: sum.splits)
  obtain k d n where k: "kek = Some k" "dk = Some d" "length (content k) = KeySize"
      "length (content d) = KeySize" "length n = NonceSizeX"
      "w = sealed A (content k) n (content d) (headerAAD \<lparr>hdr_Version = FormatVersion, hdr_Revision = 1,
        hdr_StoreID = sid, hdr_KEK = ref, hdr_WrappedDEK = zero_blob\<rparr>)"
    using wrap_Inr [OF w] by blast
  have "valid_header h"
    using assms(2) rand_Read_length [OF sid] valid_wrapped [OF k(5,4)] k(6) by (simp add: valid_header_def h)
  moreover have "wraps A (content k) (content d) h"
    using k(6) by (simp add: wraps_def headerAAD_eq h)
  ultimately show thesis using that k(1-4) by (simp add: h)
qed

lemma unlock_open_Inr:
  assumes "unlock_open M A kek h = Inr dk"
  obtains k d where "kek = Some k" "dk = Some d" "valid_header h" "length (content k) = KeySize"
    "length (content d) = KeySize" "wraps A (content k) (content d) h"
proof -
  have v: "valid_header h" and u: "unwrapEnclave M A kek (hdr_WrappedDEK h) (headerAAD h) = Inr dk"
    using assms by (auto simp: unlock_open_def split: option.splits sum.splits)
  from unwrap_Inr [OF u] that v show thesis by (auto simp: wraps_def)
qed

lemma rotate_header_Inr:
  assumes "rotate_header M A g ref kek s cur = Inr h" "ValidateKEKReference ref = None"
  obtains k d where "kek = Some k" "es_dek s = Some d" "valid_header cur" "length (content k) = KeySize"
    "length (content d) = KeySize" "hdr_Revision cur = hdr_Revision (es_header s)"
    "hdr_Revision h = hdr_Revision cur + 1" "hdr_StoreID h = hdr_StoreID cur" "hdr_KEK h = ref"
    "wraps A (content k) (content d) h" "hdr_Revision h \<noteq> 0 \<Longrightarrow> valid_header h"
proof -
  let ?z = "cur\<lparr>hdr_Revision := hdr_Revision cur + 1, hdr_KEK := ref\<rparr>"
  obtain w where v: "valid_header cur" "hdr_Revision cur = hdr_Revision (es_header s)"
    and w: "wrapEnclave M A g 0 kek (es_dek s) (headerAAD ?z) = Inr w"
    and h: "h = ?z\<lparr>hdr_WrappedDEK := w\<rparr>"
    using assms(1) by (auto simp: rotate_header_def Let_def split: option.splits sum.splits if_splits)
  obtain k d n where k: "kek = Some k" "es_dek s = Some d" "length (content k) = KeySize"
      "length (content d) = KeySize" "length n = NonceSizeX"
      "w = sealed A (content k) n (content d) (headerAAD ?z)"
    using wrap_Inr [OF w] by blast
  have "hdr_Revision h \<noteq> 0 \<Longrightarrow> valid_header h"
    using v(1) assms(2) k(5,6) valid_wrapped [OF k(5,4)] by (simp add: valid_header_def h)
  moreover have "wraps A (content k) (content d) h"
    using k(6) by (simp add: wraps_def h)
  ultimately show thesis using that k(1-4) v by (simp add: h)
qed

end

section \<open>All interleavings\<close>

text \<open>Where a call stands that is under way. \<open>Entering\<close> is before \<open>Initialize\<close> and \<open>Unlock\<close> assign
  header and DEK to their handle; \<open>Holding\<close> and \<open>Rotating\<close> have its mutex.\<close>

datatype 'e vault_phase =
    Resting
  | Putting nat go_context string encrypted_blob
  | Deleting nat go_context string
  | Headless nat rng go_context kek_reference "'e option"
  | Listed nat rng go_context kek_reference "'e option"
  | Entering nat encryption_header "'e option"
  | Holding nat rng go_context kek_reference "'e option"
  | Rotating nat go_context "64 word" encryption_header

type_synonym ('e, 'b) race = "'b \<times> (nat \<Rightarrow> 'e handle) \<times> nat set \<times> (nat \<Rightarrow> 'e vault_phase)"

text \<open>Backend, handles, the handles whose mutex is held, and what each thread is at. \<open>kekof\<close> records
  with which KEK the callers of \<open>Initialize\<close> and \<open>RotateKEK\<close> use a reference: one KEK for each, any
  number of KEKs in all. \<open>Unlock\<close> takes any KEK.\<close>

definition proper_kek :: "('e \<Rightarrow> bytes) \<Rightarrow> (kek_reference \<Rightarrow> bytes) \<Rightarrow> kek_reference \<Rightarrow> 'e option \<Rightarrow> bool" where
  "proper_kek content kekof ref kek \<longleftrightarrow>
     (\<forall>k. kek = Some k \<longrightarrow> content k = kekof ref \<and> valid_utf8 (ref_RPID ref))"

inductive race_step ::
  "'b envelope_ops \<Rightarrow> 'e memguard \<Rightarrow> aead_ops \<Rightarrow> ('e \<Rightarrow> bytes) \<Rightarrow> (kek_reference \<Rightarrow> bytes)
     \<Rightarrow> ('e, 'b) race \<Rightarrow> ('e, 'b) race \<Rightarrow> bool"
  for B M A content kekof
  where
    put_begin: "th t = Resting \<Longrightarrow> i \<notin> mu \<Longrightarrow> put_seal M A g c r (attach b (hs i)) = Inr (a, e) \<Longrightarrow>
      race_step B M A content kekof (b, hs, mu, th) (b, hs, mu, th(t := Putting i c a e))"
  | put_end: "th t = Putting i c a e \<Longrightarrow> be_PutEnvelope B (later c) a e b = (y, b') \<Longrightarrow>
      race_step B M A content kekof (b, hs, mu, th) (b', hs, mu, th(t := Resting))"
  | delete_begin: "th t = Resting \<Longrightarrow> i \<notin> mu \<Longrightarrow> delete_ready c a (attach b (hs i)) = Inr a' \<Longrightarrow>
      race_step B M A content kekof (b, hs, mu, th) (b, hs, mu, th(t := Deleting i c a'))"
  | delete_end: "th t = Deleting i c a \<Longrightarrow> be_DeleteEnvelope B (later c) a b = (y, b') \<Longrightarrow>
      race_step B M A content kekof (b, hs, mu, th) (b', hs, mu, th(t := Resting))"
  | init_load: "th t = Resting \<Longrightarrow> initialize_ready M c ref kek = Inr ref' \<Longrightarrow>
      proper_kek content kekof ref' kek \<Longrightarrow> be_LoadHeader B (later c) b = Inl y \<Longrightarrow>
      errors_is y ErrNotInitialized \<Longrightarrow>
      race_step B M A content kekof (b, hs, mu, th) (b, hs, mu, th(t := Headless i g c ref' kek))"
  | init_list: "th t = Headless i g c ref kek \<Longrightarrow> be_ListEnvelopes B (later (later c)) b = as \<Longrightarrow>
      race_step B M A content kekof (b, hs, mu, th)
        (b, hs, mu, th(t := if as = Inr [] then Listed i g c ref kek else Resting))"
  | init_fails: "th t = Listed i g c ref kek \<Longrightarrow> initialize_header M A g ref kek = Inl y \<Longrightarrow>
      race_step B M A content kekof (b, hs, mu, th) (b, hs, mu, th(t := Resting))"
  | init_create: "th t = Listed i g c ref kek \<Longrightarrow> initialize_header M A g ref kek = Inr (h, d) \<Longrightarrow>
      be_CreateHeader B (later (later (later c))) h b = (y, b') \<Longrightarrow>
      race_step B M A content kekof (b, hs, mu, th)
        (b', hs, mu, th(t := if y = None then Entering i h d else Resting))"
  | unlock_load: "th t = Resting \<Longrightarrow> unlock_ready M c kek = None \<Longrightarrow> be_LoadHeader B (later c) b = Inr h \<Longrightarrow>
      unlock_open M A kek h = Inr d \<Longrightarrow>
      race_step B M A content kekof (b, hs, mu, th) (b, hs, mu, th(t := Entering i h d))"
  | enter: "th t = Entering i h d \<Longrightarrow> i \<notin> mu \<Longrightarrow>
      race_step B M A content kekof (b, hs, mu, th) (b, hs(i := (h, d)), mu, th(t := Resting))"
  | lock: "i \<notin> mu \<Longrightarrow> race_step B M A content kekof (b, hs, mu, th)
      (b, hs(i := detach (enc_Lock (attach b (hs i)))), mu, th)"
  | rotate_begin: "th t = Resting \<Longrightarrow> i \<notin> mu \<Longrightarrow> initialize_ready M c ref kek = Inr ref' \<Longrightarrow>
      proper_kek content kekof ref' kek \<Longrightarrow> snd (hs i) \<noteq> None \<Longrightarrow>
      race_step B M A content kekof (b, hs, mu, th)
        (b, hs, insert i mu, th(t := Holding i g c ref' kek))"
  | rotate_load: "th t = Holding i g c ref kek \<Longrightarrow> be_LoadHeader B (later c) b = Inr cur \<Longrightarrow>
      rotate_header M A g ref kek (attach b (hs i)) cur = Inr h \<Longrightarrow>
      race_step B M A content kekof (b, hs, mu, th)
        (b, hs, mu, th(t := Rotating i c (hdr_Revision cur) h))"
  | rotate_stops: "th t = Holding i g c ref kek \<Longrightarrow> be_LoadHeader B (later c) b = ld \<Longrightarrow>
      (case ld of Inl y \<Rightarrow> True
       | Inr cur \<Rightarrow> \<exists>y. rotate_header M A g ref kek (attach b (hs i)) cur = Inl y) \<Longrightarrow>
      race_step B M A content kekof (b, hs, mu, th) (b, hs, mu - {i}, th(t := Resting))"
  | rotate_end: "th t = Rotating i c v h \<Longrightarrow> be_CompareAndSwapHeader B (later (later c)) v h b = (y, b') \<Longrightarrow>
      race_step B M A content kekof (b, hs, mu, th)
        (b', hs(i := if y = None then (h, snd (hs i)) else hs i), mu - {i}, th(t := Resting))"

inductive_cases race_stepE: "race_step B M A content kekof (b, hs, mu, th) t"

definition race_start :: "'b \<Rightarrow> ('e, 'b) race" where
  "race_start b = (b, \<lambda>_. (zero_header, None), {}, \<lambda>_. Resting)"

lemma race_start_new: "enc_New (Some b) = Inr s \<Longrightarrow> attach b (fst (snd (race_start b)) i) = s"
  by (auto simp: race_start_def dest: new_handle)

text \<open>An \<open>Unlock\<close> comes back with a DEK that the KEK of the header's own reference does not wrap: it
  was called with another KEK, and the header opened under that one as well.\<close>

definition forged_unlock ::
  "('e \<Rightarrow> bytes) \<Rightarrow> aead_ops \<Rightarrow> (kek_reference \<Rightarrow> bytes) \<Rightarrow> ('e, 'b) race \<Rightarrow> ('e, 'b) race \<Rightarrow> bool" where
  "forged_unlock content A kekof p q \<longleftrightarrow> (case (p, q) of ((_, _, _, th), (_, _, _, th')) \<Rightarrow>
     \<exists>t i h d. th t = Resting \<and> th' t = Entering i h (Some d) \<and> \<not> wraps A (kekof (hdr_KEK h)) (content d) h)"

abbreviation unforged_step where
  "unforged_step B M A content kekof \<equiv>
     \<lambda>p q. race_step B M A content kekof p q \<and> \<not> forged_unlock content A kekof p q"

lemma not_forged:
  assumes "th t \<noteq> Resting \<or> (\<forall>i h d. p = Entering i h (Some d) \<longrightarrow> wraps A (kekof (hdr_KEK h)) (content d) h)"
  shows "\<not> forged_unlock content A kekof (b, hs, mu, th) (b', hs', mu', th(t := p))"
  using assms by (auto simp: forged_unlock_def)

context sealing
begin

text \<open>With the KEK of the header, whatever \<open>Unlock\<close> gets is no forgery.\<close>

lemma own_kek_not_forged:
  assumes "unlock_open M A (Some k) h = Inr d" "content k = kekof (hdr_KEK h)"
  shows "\<not> forged_unlock content A kekof (b, hs, mu, th) (b', hs', mu', th(t := Entering i h d))"
proof -
  obtain k' e where "Some k = Some k'" "d = Some e" "wraps A (content k') (content e) h"
    using unlock_open_Inr [OF assms(1)] by metis
  then show ?thesis using assms(2) by (intro not_forged) simp
qed

end

section \<open>What is known at each point\<close>

definition proper_ref :: "('e \<Rightarrow> bytes) \<Rightarrow> (kek_reference \<Rightarrow> bytes) \<Rightarrow> kek_reference \<Rightarrow> 'e option \<Rightarrow> bool" where
  "proper_ref content kekof ref kek \<longleftrightarrow> 
     ValidateKEKReference ref = None \<and> proper_kek content kekof ref kek"

text \<open>A new header for a vault with DEK \<open>K\<close> and store ID \<open>sid\<close> over one of revision \<open>v\<close>.\<close>

definition next_header ::
  "aead_ops \<Rightarrow> (kek_reference \<Rightarrow> bytes) \<Rightarrow> bytes \<Rightarrow> bytes \<Rightarrow> 64 word \<Rightarrow> encryption_header \<Rightarrow> bool" where
  "next_header A kekof K sid v h \<longleftrightarrow> hdr_Revision h = v + 1 \<and> hdr_StoreID h = sid \<and>
     valid_utf8 (ref_RPID (hdr_KEK h)) \<and> length (kekof (hdr_KEK h)) = KeySize \<and>
     wraps A (kekof (hdr_KEK h)) K h \<and> (hdr_Revision h \<noteq> 0 \<longrightarrow> valid_header h)"

fun phase_fits ::
  "('e \<Rightarrow> bytes) \<Rightarrow> aead_ops \<Rightarrow> (kek_reference \<Rightarrow> bytes) \<Rightarrow> (bytes \<times> bytes) option \<Rightarrow> 'e vault_phase \<Rightarrow> bool" where
  "phase_fits content A kekof v Resting \<longleftrightarrow> True"
| "phase_fits content A kekof v (Headless i g c ref kek) \<longleftrightarrow> proper_ref content kekof ref kek"
| "phase_fits content A kekof v (Listed i g c ref kek) \<longleftrightarrow> proper_ref content kekof ref kek"
| "phase_fits content A kekof v (Holding i g c ref kek) \<longleftrightarrow> v \<noteq> None \<and> proper_ref content kekof ref kek"
| "phase_fits content A kekof v (Deleting i c a) \<longleftrightarrow> v \<noteq> None"
| "phase_fits content A kekof v (Putting i c a e) \<longleftrightarrow>
     (\<exists>K sid. v = Some (K, sid) \<and> trim_space a = a \<and> honest A K sid a e)"
| "phase_fits content A kekof v (Entering i h d) \<longleftrightarrow>
     (\<exists>K sid. v = Some (K, sid) \<and> handle_ok content K sid (h, d))"
| "phase_fits content A kekof v (Rotating i c r h) \<longleftrightarrow>
     (\<exists>K sid. v = Some (K, sid) \<and> next_header A kekof K sid r h)"

text \<open>The vault, once there is one: its DEK and its store ID.\<close>

definition race_fits ::
  "('b \<Rightarrow> encryption_header option) \<Rightarrow> ('b \<Rightarrow> string \<Rightarrow> encrypted_blob option)
     \<Rightarrow> ('e \<Rightarrow> bytes) \<Rightarrow> aead_ops \<Rightarrow> (kek_reference \<Rightarrow> bytes) \<Rightarrow> nat \<Rightarrow> (bytes \<times> bytes) option \<Rightarrow> ('e, 'b) race \<Rightarrow> bool" where
  "race_fits hdr envs content A kekof n v t \<longleftrightarrow>
     (case t of (b, hs, mu, th) \<Rightarrow> (\<forall>t. phase_fits content A kekof v (th t)) \<and>
       (case v of None \<Rightarrow> hdr b = None \<and> envs b = Map.empty \<and> (\<forall>i. snd (hs i) = None)
        | Some (K, sid) \<Rightarrow> (\<exists>h. hdr b = Some h \<and> hdr_StoreID h = sid \<and> header_ok A kekof n h K) \<and>
            envelopes_ok A K sid (envs b) \<and> (\<forall>i. handle_ok content K sid (hs i))))"

context enc_over
begin

abbreviation fits_at where
  "fits_at \<equiv> race_fits hdr envs content A"

lemma fits_phase:
  assumes "fits_at kekof n v (b, hs, mu, th)" "phase_fits content A kekof v p"
  shows "fits_at kekof (Suc n) v (b, hs, mu', th(t := p))"
proof -
  have "header_ok A kekof (Suc n) h K" if "header_ok A kekof n h K" for h K
    using header_ok_mono [OF that, of "Suc n"] by simp
  then show ?thesis using assms by (force simp: race_fits_def split: option.splits prod.splits)
qed

lemma fits_handle:
  assumes "fits_at kekof n v (b, hs, mu, th)"
    "case v of None \<Rightarrow> snd x = None | Some (K, sid) \<Rightarrow> handle_ok content K sid x"
  shows "fits_at kekof n v (b, hs(i := x), mu', th)"
  using assms by (auto simp: race_fits_def split: option.splits prod.splits)

lemma fits_backend:
  assumes "fits_at kekof n (Some (K, sid)) (b, hs, mu, th)" "hdr b' = Some h" "hdr_StoreID h = sid"
    "header_ok A kekof n h K" "envelopes_ok A K sid (envs b')"
  shows "fits_at kekof n (Some (K, sid)) (b', hs, mu, th)"
  using assms by (auto simp: race_fits_def)

lemma fits_thread: "fits_at kekof n v (b, hs, mu, th) \<Longrightarrow> phase_fits content A kekof v (th t)"
  by (simp add: race_fits_def)

lemma fits_vault:
  assumes "fits_at kekof n v (b, hs, mu, th)" "hdr b \<noteq> None \<or> snd (hs i) \<noteq> None \<or> v \<noteq> None"
  obtains K sid h where "v = Some (K, sid)" "hdr b = Some h" "hdr_StoreID h = sid" "header_ok A kekof n h K"
    "envelopes_ok A K sid (envs b)" "\<And>j. handle_ok content K sid (hs j)"
  using assms by (cases v) (auto simp: race_fits_def)

lemma fits_empty: "fits_at kekof n None (b, hs, mu, th) \<Longrightarrow> hdr b = None \<and> envs b = Map.empty"
  by (simp add: race_fits_def)

lemma proper_ready:
  assumes "initialize_ready M c ref kek = Inr ref'" "proper_kek content kekof ref' kek"
  shows "proper_ref content kekof ref' kek"
  using ready_Inr [OF assms(1)] assms(2) by (simp add: proper_ref_def)

lemma put_end_fits:
  assumes g: "good b" and f: "fits_at kekof n v (b, hs, mu, th)" and p: "th t = Putting i c a e"
    and s: "be_PutEnvelope B (later c) a e b = (y, b')"
  shows "good b' \<and> fits_at kekof (Suc n) v (b', hs, mu, th(t := Resting))"
proof -
  obtain K sid where v: "v = Some (K, sid)" "trim_space a = a" "honest A K sid a e"
    using fits_thread [OF f, of t] p by auto
  obtain h where h: "hdr b = Some h" "hdr_StoreID h = sid" "header_ok A kekof n h K"
      "envelopes_ok A K sid (envs b)"
    using fits_vault [OF f, of 0] v(1) by auto
  have "kept_blob e = e"
    using v(3) kept_blob_clean [OF clean_record_envelope] by (auto simp: honest_def)
  then have "good b' \<and> hdr b' = hdr b \<and> envelopes_ok A K sid (envs b')"
    using putenv_ok [OF g, of "later c" a e b'] putenv_err [OF g, of "later c" a e _ b'] s v(2,3) h(4)
      envelopes_ok_update(1) [OF h(4) v(3)] by (cases y) fastforce+
  then show ?thesis
    using fits_phase [of kekof n v b' hs mu th Resting mu t] fits_backend [OF f [unfolded v(1)]] h v(1) by simp
qed

lemma delete_end_fits:
  assumes g: "good b" and f: "fits_at kekof n v (b, hs, mu, th)" and p: "th t = Deleting i c a"
    and s: "be_DeleteEnvelope B (later c) a b = (y, b')"
  shows "good b' \<and> fits_at kekof (Suc n) v (b', hs, mu, th(t := Resting))"
proof -
  have "v \<noteq> None" using fits_thread [OF f, of t] p by simp
  from fits_vault [OF f disjI2 [OF disjI2 [OF this]]] obtain K sid h where v: "v = Some (K, sid)"
    and h: "hdr b = Some h" "hdr_StoreID h = sid" "header_ok A kekof n h K" "envelopes_ok A K sid (envs b)"
    by blast
  have "good b' \<and> hdr b' = hdr b \<and> envelopes_ok A K sid (envs b')"
    using delenv_ok [OF g, of "later c" a b'] delenv_err [OF g, of "later c" a _ b'] s h(4)
      envelopes_ok_update(2) [OF h(4)] by (cases y) fastforce+
  then show ?thesis
    using fits_phase [of kekof n v b' hs mu th Resting mu t] fits_backend [OF f [unfolded v]] h v by simp
qed

lemma create_fits:
  assumes g: "good b" and f: "fits_at kekof n v (b, hs, mu, th)" and p: "th t = Listed i g' c ref kek"
    and m: "initialize_header M A g' ref kek = Inr (h, dk)"
    and s: "be_CreateHeader B (later (later (later c))) h b = (y, b')"
  shows "good b' \<and> (\<exists>v'. fits_at kekof (Suc n) v' (b', hs, mu, th(t := if y = None then Entering i h dk else Resting)))"
proof -
  let ?p = "if y = None then Entering i h dk else Resting"
  have r: "proper_ref content kekof ref kek" using fits_thread [OF f, of t] p by simp
  obtain k d where k: "kek = Some k" "dk = Some d" "length (content k) = KeySize" "length (content d) = KeySize"
      "valid_header h" "hdr_KEK h = ref" "hdr_Revision h = 1" "wraps A (content k) (content d) h"
    using initialize_header_Inr [OF m] r by (auto simp: proper_ref_def proper_kek_def)
  then have h: "kept h = h" "header_ok A kekof (Suc n) h (content d)"
    using r kept_clean [OF clean_valid_header] by (auto simp: proper_ref_def proper_kek_def header_ok_def)
  have c: "good b' \<and> envs b' = envs b \<and> (hdr b' = Some h \<and> hdr b = None \<or> y \<noteq> None \<and> hdr b' = hdr b)"
    using create_ok [OF g, of "later (later (later c))" h b']
      create_err [OF g, of "later (later (later c))" h _ b'] s h(1) by (cases y) fastforce+
  show ?thesis
  proof (cases v)
    case None
    have e: "hdr b = None" "envs b = Map.empty" "\<And>j. snd (hs j) = None"
      and ph: "\<And>t. phase_fits content A kekof None (th t)"
      using f None by (auto simp: race_fits_def)
    show ?thesis
    proof (cases "hdr b' = None")
      case True
      then have "y \<noteq> None" using c by auto
      then have "fits_at kekof (Suc n) None (b', hs, mu, th(t := ?p))"
        using True c e ph by (simp add: race_fits_def)
      then show ?thesis using c by blast
    next
      case False
      then have h': "hdr b' = Some h" using c e(1) by auto
      have "phase_fits content A kekof (Some (content d, hdr_StoreID h)) (th t)" for t
        using ph [of t] by (cases "th t") auto
      then have "fits_at kekof (Suc n) (Some (content d, hdr_StoreID h)) (b', hs, mu, th(t := ?p))"
        using h' h(2) c e k(2) by (auto simp: race_fits_def envelopes_ok_def handle_ok_def)
      then show ?thesis using c by blast
    qed
  next
    case (Some w)
    then have "v \<noteq> None" by simp
    from fits_vault [OF f disjI2 [OF disjI2 [OF this]]] obtain K sid h0 where v: "v = Some (K, sid)"
      and h0: "hdr b = Some h0" "hdr_StoreID h0 = sid" "header_ok A kekof n h0 K"
        "envelopes_ok A K sid (envs b)" by blast
    have "y \<noteq> None" "hdr b' = Some h0" "envs b' = envs b" using c h0(1) by auto
    then have "fits_at kekof (Suc n) v (b', hs, mu, th(t := ?p))"
      using fits_phase [of kekof n v b' hs mu th Resting mu t] fits_backend [OF f [unfolded v], of b' h0] h0 v by auto
    then show ?thesis using c by blast
  qed
qed

lemma rotate_end_fits:
  assumes g: "good b" and f: "fits_at kekof n v (b, hs, mu, th)" and p: "th t = Rotating i c r h"
    and s: "be_CompareAndSwapHeader B (later (later c)) r h b = (y, b')" and n: "Suc n < 2 ^ 64"
  shows "good b' \<and> fits_at kekof (Suc n) v
    (b', hs(i := if y = None then (h, snd (hs i)) else hs i), mu - {i}, th(t := Resting))"
proof -
  obtain K sid where v: "v = Some (K, sid)" "next_header A kekof K sid r h"
    using fits_thread [OF f, of t] p by auto
  obtain h0 where h0: "hdr b = Some h0" "hdr_StoreID h0 = sid" "header_ok A kekof n h0 K"
      "envelopes_ok A K sid (envs b)" and hk: "\<And>j. handle_ok content K sid (hs j)"
    using fits_vault [OF f, of 0] v(1) by auto
  have rv: "unat (hdr_Revision h) \<le> Suc n \<and> hdr_Revision h \<noteq> 0" if "r = hdr_Revision h0"
    using revision_up [of "hdr_Revision h0" n] that h0(3) v(2) n by (simp add: header_ok_def next_header_def)
  have nh: "header_ok A kekof (Suc n) h K \<and> kept h = h" if "r = hdr_Revision h0"
    using rv [OF that] v(2) h0(3) kept_clean [OF clean_valid_header]
    by (simp add: header_ok_def next_header_def)
  have "good b' \<and> envs b' = envs b \<and> (hdr b' = Some h0 \<or> r = hdr_Revision h0 \<and> hdr b' = Some h)"
    using cas_ok [OF g] cas_err [OF g] s h0(1) nh by (cases y) fastforce+
  then obtain h' where b': "good b'" "envs b' = envs b" "hdr b' = Some h'" "hdr_StoreID h' = sid"
      "header_ok A kekof (Suc n) h' K"
    using h0(2,3) header_ok_mono [of A kekof n h0 K "Suc n"] nh v(2) by (auto simp: next_header_def)
  have "fits_at kekof (Suc n) v (b, hs, mu - {i}, th(t := Resting))"
    by (rule fits_phase [OF f]) simp
  then have "fits_at kekof (Suc n) v (b', hs, mu - {i}, th(t := Resting))"
    using fits_backend [of kekof "Suc n" K sid b hs "mu - {i}" "th(t := Resting)" b' h'] b' h0(4) v(1) by simp
  from fits_handle [OF this, of "if y = None then (h, snd (hs i)) else hs i"]
  show ?thesis using b'(1) hk [of i] v by (auto simp: handle_ok_def next_header_def)
qed

lemma race_step_fits:
  assumes g: "good b" and f: "fits_at kekof n v (b, hs, mu, th)" and n: "Suc n < 2 ^ 64"
    and s: "race_step B M A content kekof (b, hs, mu, th) (b', hs', mu', th')"
    and nf: "\<not> forged_unlock content A kekof (b, hs, mu, th) (b', hs', mu', th')"
  shows "good b' \<and> (\<exists>v'. fits_at kekof (Suc n) v' (b', hs', mu', th'))"
proof -
  have ph: "phase_fits content A kekof v (th t)" for t by (rule fits_thread [OF f])
  have quiet: ?thesis if "b' = b" "hs' = hs" "th' = th(t := p)" "phase_fits content A kekof v p" for t p
    using fits_phase [OF f that(4), of mu' t] that g by auto
  have dek: "\<exists>K sid. v = Some (K, sid) \<and> handle_ok content K sid (hs i)" if "snd (hs i) \<noteq> None" for i
    using fits_vault [OF f disjI2 [OF disjI1 [OF that]]] by metis
  from s show ?thesis
  proof (cases rule: race_step.cases)
    case (put_begin t i g c r a e)
    obtain d where d: "snd (hs i) = Some d" "trim_space a = a" "honest A (content d) (hdr_StoreID (fst (hs i))) a e"
      using put_seal_Inr [OF put_begin(7)] by auto
    show ?thesis by (rule quiet [OF put_begin(1,2,4)]) (use d dek [of i] in \<open>auto simp: handle_ok_def\<close>)
  next
    case (put_end t i c a e y)
    then show ?thesis using put_end_fits [OF g f put_end(4,5)] by auto
  next
    case (delete_begin t i c a a')
    have "snd (hs i) \<noteq> None"
      using delete_begin(7) by (auto simp: delete_ready_def snapshot_def Let_def split: option.splits if_splits)
    then show ?thesis by (intro quiet [OF delete_begin(1,2,4)]) (use dek [of i] in auto)
  next
    case (delete_end t i c a y)
    then show ?thesis using delete_end_fits [OF g f delete_end(4,5)] by auto
  next
    case (init_load t c ref kek ref' y i g)
    show ?thesis by (rule quiet [OF init_load(1,2,4)]) (use proper_ready [OF init_load(6,7)] in simp)
  next
    case (init_list t i g c ref kek as)
    then show ?thesis using ph [of t] by (intro quiet [OF init_list(1,2,4)]) auto
  next
    case (init_fails t i g c ref kek y)
    then show ?thesis by (intro quiet [OF init_fails(1,2,4)]) auto
  next
    case (init_create t i g' c ref kek h d y)
    then show ?thesis using create_fits [OF g f init_create(4-6)] by auto
  next
    case (unlock_load t c kek h d i)
    obtain e where e: "d = Some e" "valid_header h"
      using unlock_open_Inr [OF unlock_load(8)] by metis
    have "hdr b = Some h" using load_ok [OF g unlock_load(7)] .
    then obtain K sid where K: "v = Some (K, sid)" "hdr_StoreID h = sid" "header_ok A kekof n h K"
      using fits_vault [OF f] by (metis option.distinct(1) option.inject)
    have "wraps A (kekof (hdr_KEK h)) (content e) h"
      using nf unlock_load(4,5) e(1) by (force simp: forged_unlock_def)
    then have "content e = K"
      using wraps_unique [of "kekof (hdr_KEK h)" K h "content e"] K(3) by (simp add: header_ok_def)
    then show ?thesis using K e(1) by (intro quiet [OF unlock_load(1,2,4)]) (auto simp: handle_ok_def)
  next
    case (enter t i h d)
    have "fits_at kekof (Suc n) v (b, hs, mu, th(t := Resting))" by (rule fits_phase [OF f]) simp
    then show ?thesis
      using fits_handle [of kekof "Suc n" v b hs mu "th(t := Resting)" "(h, d)" i mu] ph [of t] enter g by auto
  next
    case (lock i)
    have "fits_at kekof (Suc n) v (b, hs, mu, th(0 := th 0))" by (rule fits_phase [OF f ph])
    then have "fits_at kekof (Suc n) v (b', hs', mu', th')"
      using lock fits_handle [of kekof "Suc n" v b hs mu th "detach (enc_Lock (attach b (hs i)))" i mu]
      by (auto simp: enc_Lock_def detach_def handle_ok_def split: option.splits)
    then show ?thesis using lock(1) g by blast
  next
    case (rotate_begin t i c ref kek ref' g)
    have "proper_ref content kekof ref' kek"
      using proper_ready [OF rotate_begin(7,8)] .
    then show ?thesis using dek [OF rotate_begin(9)] by (intro quiet [OF rotate_begin(1,2,4)]) auto
  next
    case (rotate_load t i g' c ref kek cur h)
    have r: "v \<noteq> None" "proper_ref content kekof ref kek" using ph [of t] rotate_load(5) by auto
    have cur: "hdr b = Some cur" using load_ok [OF g rotate_load(6)] .
    then obtain K sid where K: "v = Some (K, sid)" "hdr_StoreID cur = sid" "handle_ok content K sid (hs i)"
      using fits_vault [OF f] by (metis option.distinct(1) option.inject)
    have "next_header A kekof K sid (hdr_Revision cur) h"
      using rotate_header_Inr [OF rotate_load(7)] r(2) K(2,3)
      by (metis (no_types) attach_sel(3) handle_ok_def next_header_def proper_ref_def proper_kek_def)
    then show ?thesis using K(1) by (intro quiet [OF rotate_load(1,2,4)]) simp
  next
    case (rotate_stops t i g c ref kek ld)
    then show ?thesis by (intro quiet [OF rotate_stops(1,2,4)]) auto
  next
    case (rotate_end t i c r h y)
    then show ?thesis using rotate_end_fits [OF g f rotate_end(4,5) n] by auto
  qed
qed

lemma race_fits_reach:
  assumes "good b" "hdr b = None" "envs b = Map.empty" "n < 2 ^ 64"
    and "(unforged_step B M A content kekof ^^ n) (race_start b) t"
  shows "good (fst t) \<and> (\<exists>v. fits_at kekof n v t)"
  using assms(4,5)
proof (induction n arbitrary: t)
  case 0
  then have t: "t = race_start b" by simp
  have "fits_at kekof 0 None t" using assms(2,3) by (simp add: t race_fits_def race_start_def)
  then show ?case using assms(1) by (auto simp: t race_start_def)
next
  case (Suc n)
  from Suc.prems(2) obtain u where u: "(unforged_step B M A content kekof ^^ n) (race_start b) u"
      "race_step B M A content kekof u t" "\<not> forged_unlock content A kekof u t" by (auto elim: relpowp_Suc_E)
  obtain b1 hs1 mu1 th1 where u': "u = (b1, hs1, mu1, th1)" by (rule prod_cases4)
  obtain b2 hs2 mu2 th2 where t': "t = (b2, hs2, mu2, th2)" by (rule prod_cases4)
  obtain v where "good b1" "fits_at kekof n v u" using Suc.IH [OF _ u(1)] Suc.prems(1) u' by auto
  from race_step_fits [OF this [unfolded u'] Suc.prems(1) u(2,3) [unfolded u' t']] show ?case by (simp add: t')
qed

text \<open>An \<open>Unlock\<close> that loaded the header before a \<open>RotateKEK\<close> of the same handle enters it after:
  the handle goes back to the old header, and rotating through it is a conflict from then on.\<close>

lemma late_unlock_conflict:
  assumes g: "good b" and f: "fits_at kekof n v (b, hs, mu, th)" "Suc n < 2 ^ 64"
    and h: "hdr b = Some h" "th t = Entering i h d" "th u = Rotating i c (hdr_Revision h) h'"
      "mu = {i}"
    and s: "be_CompareAndSwapHeader B (later (later c)) (hdr_Revision h) h' b = (None, b')"
  shows "\<exists>hs' th'. (race_step B M A content kekof)\<^sup>*\<^sup>* (b, hs, mu, th) (b', hs', {}, th') \<and> hs' i = (h, d) \<and>
    (\<exists>cur. hdr b' = Some cur \<and>
       (\<forall>g ref kek. rotate_header M A g ref kek (attach b' (hs' i)) cur = Inl (Sentinel ErrConflict)))"
proof -
  let ?hs = "hs(i := (h', snd (hs i)))" and ?th = "th(u := Resting)"
  have "t \<noteq> u" using h(2,3) by auto
  have "race_step B M A content kekof (b, hs, mu, th) (b', ?hs, {}, ?th)"
    using race_step.rotate_end [of th u i c "hdr_Revision h" h' B b None b' M A content kekof hs mu] h s by simp
  moreover have "race_step B M A content kekof (b', ?hs, {}, ?th) (b', ?hs(i := (h, d)), {}, ?th(t := Resting))"
    by (rule race_step.enter) (use h(2) \<open>t \<noteq> u\<close> in auto)
  ultimately have r: "(race_step B M A content kekof)\<^sup>*\<^sup>* (b, hs, mu, th)
      (b', ?hs(i := (h, d)), {}, ?th(t := Resting))" by auto
  obtain K sid where v: "v = Some (K, sid)" "next_header A kekof K sid (hdr_Revision h) h'"
    using fits_thread [OF f(1), of u] h(3) by auto
  have "unat (hdr_Revision h) \<le> n"
    using f(1) h(1) v(1) by (auto simp: race_fits_def header_ok_def)
  then have "hdr_Revision h' \<noteq> 0" using revision_up(2) [of "hdr_Revision h" n] f(2) v(2) by (simp add: next_header_def)
  then have "valid_header h'" "kept h' = h'" "hdr_Revision h' = hdr_Revision h + 1"
    using v(2) kept_clean [OF clean_valid_header] by (auto simp: next_header_def)
  then obtain cur where cur: "hdr b' = Some cur" "hdr_Revision cur = hdr_Revision h + 1" "valid_header cur"
    using cas_ok [OF g s] by auto
  have "rotate_header M A g ref kek (attach b' (h, d)) cur = Inl (Sentinel ErrConflict)" for g ref kek
    using cur by (simp add: rotate_header_def)
  with r cur show ?thesis by (intro exI [of _ "?hs(i := (h, d))"] exI [of _ "?th(t := Resting)"]) auto
qed

end

section \<open>What holds in every interleaving\<close>

text \<open>C8: However calls on any number of handles of one backend overlap - each cut at every look at
  its handle and every call of the backend, with failures anywhere - the vault keeps its invariant:
  without a header there are no envelopes and no handle is unlocked; with one there is a single DEK,
  which the header wraps under the KEK of its own reference, every unlocked handle holds that DEK
  with the vault's store ID, and every envelope is one that \<open>Put\<close> made with it. So two calls of
  \<open>Initialize\<close> never make two vaults, and no \<open>Put\<close> is sealed for a vault that is not there. KEKs may
  differ between references and \<open>Unlock\<close> may be called with any; the runs are those in which no
  \<open>Unlock\<close> opens a header under a KEK not its own to a DEK not its own (\<open>forged_unlock\<close>), which the
  cipher makes hard to reach but does not exclude. They have less than \<open>2^64\<close> steps, because the
  revision wraps, and the RP IDs of references are UTF-8 (\<open>proper_kek\<close>).\<close>

theorem vault_race_invariant:
  assumes "enc_over B hdr envs kept kept_blob good M content A"
    and "good b" "hdr b = None" "envs b = Map.empty" "n < 2 ^ 64"
    and "(unforged_step B M A content kekof ^^ n) (race_start b) (b', hs, mu, th)"
  shows "good b' \<and>
    (case hdr b' of
       None \<Rightarrow> envs b' = Map.empty \<and> (\<forall>i. snd (hs i) = None)
     | Some h \<Rightarrow> valid_header h \<and> unat (hdr_Revision h) \<le> n \<and>
         (\<exists>K. length K = KeySize \<and> wraps A (kekof (hdr_KEK h)) K h \<and>
           (\<forall>i d. snd (hs i) = Some d \<longrightarrow> content d = K \<and> hdr_StoreID (fst (hs i)) = hdr_StoreID h) \<and>
           (\<forall>a e. envs b' a = Some e \<longrightarrow> honest A K (hdr_StoreID h) a e)))"
  using enc_over.race_fits_reach [OF assms]
  by (auto simp: race_fits_def header_ok_def handle_ok_def envelopes_ok_def split: option.splits)

text \<open>C2: No overlap of calls loses the vault: whatever is under way, the KEK of the reference in
  the persisted header unlocks the store on any handle, and then every envelope of the backend
  opens, to a valid record of its alias. This too is about the runs without \<open>forged_unlock\<close>: a handle
  that was opened to another DEK would put envelopes that the KEK of the header does not open.\<close>

theorem vault_race_never_lost:
  assumes "enc_over B hdr envs kept kept_blob good M content A"
    and "enc_live B hdr envs kept kept_blob good M content A up"
    and "good b" "hdr b = None" "envs b = Map.empty" "n < 2 ^ 64"
    and "(unforged_step B M A content kekof ^^ n) (race_start b) (b', hs, mu, th)"
    and "up b'" "hdr b' = Some h" "content k = kekof (hdr_KEK h)"
  shows "\<exists>s. enc_Unlock B M A background (Some k) (attach b' x) = (None, s) \<and>
    (\<forall>a. envs b' (trim_space a) \<noteq> None \<longrightarrow>
       (\<exists>r. enc_Get B M A background a s = Inr r \<and> rec_Alias r = trim_space a \<and> valid_record r))"
proof -
  obtain K where "good b'" "header_ok A kekof n h K" "envelopes_ok A K (hdr_StoreID h) (envs b')"
    using enc_over.race_fits_reach [OF assms(1,3-7)] assms(9)
    by (auto simp: race_fits_def split: option.splits)
  from vault_opens [OF assms(2) this(1) assms(8,9) this(2,3) assms(10)] show ?thesis .
qed

section \<open>A run with two keys\<close>

text \<open>The parts succeed when their data is in order and memory and random source answer.\<close>

context sealing_live
begin

lemma put_seal_live:
  assumes "valid_record (norm_record r)" "fits (norm_record r)" "es_dek s = Some d"
    "length (content d) = KeySize" "\<And>i. rng_err g i = None"
  shows "\<exists>e. put_seal M A g background r s = Inr (trim_space (rec_Alias r), e)"
proof -
  obtain n where n: "rand_Read g 0 NonceSizeX = Inr n" using rand_Read_live assms(5) by blast
  have "r\<lparr>rec_Alias := trim_space (rec_Alias r), rec_RPID := trim_space (rec_RPID r)\<rparr> = norm_record r"
    by (simp add: norm_record_def)
  note norm = this and seal_live [OF assms(4) n, simp]
  show ?thesis using assms(1-3) by (simp add: put_seal_def Let_def norm snapshot_def encodeRecord_eq)
qed

lemma rotate_header_live:
  assumes "valid_header cur" "hdr_Revision cur = hdr_Revision (es_header s)" "es_dek s = Some d"
    "length (content d) = KeySize" "length (content k) = KeySize" "\<And>i. rng_err g i = None"
  shows "\<exists>h. rotate_header M A g ref (Some k) s cur = Inr h"
proof -
  obtain n where n: "rand_Read g 0 NonceSizeX = Inr n" using rand_Read_live assms(6) by blast
  show ?thesis using assms(1-3) wrap_live [OF assms(5,4) n] by (simp add: rotate_header_def Let_def)
qed

lemma unlock_open_live:
  assumes "valid_header h" "wraps A (content k) K h" "length (content k) = KeySize" "length K = KeySize"
  shows "\<exists>d. unlock_open M A (Some k) h = Inr (Some d) \<and> content d = K"
proof -
  obtain e where e: "mg_Seal M K = Some e" "content e = K" using seal_long [OF assms(4)] by blast
  have n: "length (blob_Nonce (hdr_WrappedDEK h)) = NonceSizeX"
    using assms(1) by (simp add: valid_header_def valid_blob_def)
  obtain d where "unwrapEnclave M A (Some k) (hdr_WrappedDEK h) (headerAAD h) = Inr (Some d)" "content d = K"
    using unwrap_sealed [OF assms(3) _ n, of e "headerAAD h"] e assms(2,4) [unfolded wraps_def] by metis
  then show ?thesis using assms(1) by (simp add: unlock_open_def)
qed

end

text \<open>Two references with different KEKs.\<close>

definition other_ref :: kek_reference where
  "other_ref = sample_ref\<lparr>ref_CredentialID := [2]\<rparr>"

definition other_key :: bytes where
  "other_key = replicate 32 1"

definition sample_kek :: "kek_reference \<Rightarrow> bytes" where
  "sample_kek ref = (if ref = sample_ref then sample_key else other_key)"

lemma other_key_size [simp]: "length other_key = KeySize"
  by (simp add: other_key_def KeySize_def)

lemma sample_keks [simp]: "sample_kek sample_ref = sample_key" "sample_kek other_ref = other_key"
    "sample_key \<noteq> other_key"
  by (simp_all add: sample_kek_def other_ref_def sample_key_def other_key_def sample_ref_def)

abbreviation mem_race where
  "mem_race \<equiv> race_step mem_ops plain_guard xchacha20poly1305 (\<lambda>e. e) sample_kek"

abbreviation mem_unforged where
  "mem_unforged \<equiv> unforged_step mem_ops plain_guard xchacha20poly1305 (\<lambda>e. e) sample_kek"

lemma sample_refs [simp]:
  "ValidateKEKReference sample_ref = None" "ValidateKEKReference other_ref = None"
  "trim_ref sample_ref = sample_ref" "trim_ref other_ref = other_ref"
  "validateKeyEnclave plain_guard (Some sample_key) n = None"
  "validateKeyEnclave plain_guard (Some other_key) n = None"
  by (simp_all add: ValidateKEKReference_None SaltSize_def sample_ref_def other_ref_def trim_ref_def
      validateKeyEnclave_def plain_guard_def)

lemma sample_ready:
  "initialize_ready plain_guard background sample_ref (Some sample_key) = Inr sample_ref"
  "initialize_ready plain_guard background other_ref (Some other_key) = Inr other_ref"
  "unlock_ready plain_guard background (Some other_key) = None"
  "proper_kek (\<lambda>e. e) sample_kek sample_ref (Some sample_key)"
  "proper_kek (\<lambda>e. e) sample_kek other_ref (Some other_key)"
  by (simp_all add: initialize_ready_def Let_def trim_ref_def [symmetric] unlock_ready_def proper_kek_def)
    (simp_all add: sample_ref_def other_ref_def)

lemma sample_parts:
  obtains y h d b where
    "be_LoadHeader mem_ops background (Some []) = Inl y" "errors_is y ErrNotInitialized"
    "be_ListEnvelopes mem_ops background (Some []) = Inr []"
    "initialize_header plain_guard xchacha20poly1305 zero_rng sample_ref (Some sample_key) = Inr (h, Some d)"
    "be_CreateHeader mem_ops background h (Some []) = (None, b)" "b \<noteq> None" "pebble_good map_of b"
    "pebble_hdr map_of b = Some h" "pebble_envs map_of b = Map.empty" "valid_header h"
    "hdr_Revision h = 1" "length d = KeySize"
proof -
  obtain s b where i: "enc_Initialize mem_ops plain_guard xchacha20poly1305 zero_rng background sample_ref
      (Some sample_key) fresh_store = (None, s)" "es_backend s = Some b" "b \<noteq> None"
    using sample_initialize by blast
  obtain h d where k: "pebble_good map_of b" "pebble_hdr map_of b = Some (kept_header_json h)"
      "pebble_envs map_of b = Map.empty" "es_header s = h" "es_dek s = Some d" "valid_header h"
      "hdr_KEK h = trim_ref sample_ref" "hdr_Revision h = 1" "length d = KeySize"
    using me.initialize_ok [OF i(1), of "Some []"] i(2) by (auto simp: fresh_store_def)
  have "valid_utf8 (ref_RPID (hdr_KEK h))" using k(7) sample_ref_utf8 by simp
  then have h: "kept_header_json h = h"
    using envelope_backend.kept_clean [OF mem_backend] clean_valid_header [OF k(6)] by simp
  have "asking (fresh_store :: (bytes, mem_db option) enc_store) f = f (Some [])"
    "telling (fresh_store :: (bytes, mem_db option) enc_store) w =
      (case w (Some []) of (e, b) \<Rightarrow> (e, fresh_store\<lparr>es_backend := Some b\<rparr>))" for f w
    by (simp_all add: asking_def telling_def fresh_store_def)
  from i(1) [unfolded Initialize_parts this sample_ready] i(2) obtain y h' d' where
      q: "be_LoadHeader mem_ops background (Some []) = Inl y" "errors_is y ErrNotInitialized"
        "be_ListEnvelopes mem_ops background (Some []) = Inr []"
        "initialize_header plain_guard xchacha20poly1305 zero_rng sample_ref (Some sample_key) = Inr (h', d')"
        "be_CreateHeader mem_ops background h' (Some []) = (None, b)"
      and s: "s = fresh_store\<lparr>es_backend := Some b, es_header := h', es_dek := d'\<rparr>"
    by (auto split: sum.splits if_splits prod.splits option.splits)
  have "h' = h" "d' = Some d" using k(4,5) s by simp_all
  with q that [of y h d b] i(3) k h show thesis by simp
qed

text \<open>First, two goroutines initialise an empty backend at the same time: both see no header and no
  envelopes, and the second \<open>CreateHeader\<close> is refused.\<close>

lemma sample_initialize_race:
  "\<exists>b h d. (mem_unforged ^^ 7) (race_start (Some []))
       (b, (\<lambda>_. (zero_header, None))(0 := (h, Some d)), {}, \<lambda>_. Resting) \<and>
     b \<noteq> None \<and> pebble_good map_of b \<and> pebble_hdr map_of b = Some h \<and> pebble_envs map_of b = Map.empty \<and>
     valid_header h \<and> hdr_Revision h = 1 \<and> length d = KeySize"
proof -
  obtain y h d b where p: "be_LoadHeader mem_ops background (Some []) = Inl y" "errors_is y ErrNotInitialized"
    "be_ListEnvelopes mem_ops background (Some []) = Inr []"
    "initialize_header plain_guard xchacha20poly1305 zero_rng sample_ref (Some sample_key) = Inr (h, Some d)"
    "be_CreateHeader mem_ops background h (Some []) = (None, b)" "b \<noteq> None" "pebble_good map_of b"
    "pebble_hdr map_of b = Some h" "pebble_envs map_of b = Map.empty" "valid_header h"
    "hdr_Revision h = 1" "length d = KeySize" by (rule sample_parts)
  obtain z c where c: "be_CreateHeader mem_ops background h b = (z, c)" by (rule prod.exhaust)
  have z: "z \<noteq> None" "pebble_hdr map_of c = Some h" "pebble_good map_of c" "pebble_envs map_of c = Map.empty" "c \<noteq> None"
    using envelope_backend.create_ok [OF mem_backend p(7), of background h c]
      envelope_backend.create_err [OF mem_backend p(7), of background h _ c] c p(8,9)
    by (cases z; auto simp: pebble_good_def split: option.splits)+
  let ?H = "\<lambda>i. Headless i zero_rng background sample_ref (Some sample_key)"
    and ?L = "\<lambda>i. Listed i zero_rng background sample_ref (Some sample_key)" and ?x = "(zero_header, None)"
  let ?t0 = "\<lambda>_ :: nat. Resting"
  let ?t1 = "?t0(0 := ?H 0)" let ?t2 = "?t1(1 := ?H 1)" let ?t3 = "?t2(0 := ?L 0)"
  let ?t4 = "?t3(1 := ?L 1)" let ?t5 = "?t4(0 := Entering 0 h (Some d))" let ?t6 = "?t5(1 := Resting)"
  let ?t7 = "?t6(0 := Resting)" let ?hs = "\<lambda>_ :: nat. ?x" let ?e = "Some [] :: mem_db option"
  note quiet = not_forged [where content = "\<lambda>e. e"]
  have s1: "mem_unforged (race_start ?e) (?e, ?hs, {}, ?t1)" unfolding race_start_def
    by (rule conjI [OF race_step.init_load [OF _ sample_ready(1,4), of ?t0 0] quiet]) (use p(1,2) in auto)
  have s2: "mem_unforged (?e, ?hs, {}, ?t1) (?e, ?hs, {}, ?t2)"
    by (rule conjI [OF race_step.init_load [OF _ sample_ready(1,4), of ?t1 1] quiet]) (use p(1,2) in auto)
  have s3: "mem_unforged (?e, ?hs, {}, ?t2) (?e, ?hs, {}, ?t3)"
    using race_step.init_list [of ?t2 0 0 zero_rng background sample_ref "Some sample_key" mem_ops ?e "Inr []"] p(3)
      quiet [of ?t2 0] by simp
  have s4: "mem_unforged (?e, ?hs, {}, ?t3) (?e, ?hs, {}, ?t4)"
    using race_step.init_list [of ?t3 1 1 zero_rng background sample_ref "Some sample_key" mem_ops ?e "Inr []"] p(3)
      quiet [of ?t3 1] by simp
  have s5: "mem_unforged (?e, ?hs, {}, ?t4) (b, ?hs, {}, ?t5)"
    using race_step.init_create [OF _ p(4), of ?t4 0 0 background mem_ops ?e None b] p(5) quiet [of ?t4 0] by simp
  have s6: "mem_unforged (b, ?hs, {}, ?t5) (c, ?hs, {}, ?t6)"
    using race_step.init_create [OF _ p(4), of ?t5 1 1 background mem_ops b z c] c z(1) quiet [of ?t5 1] by simp
  have s7: "mem_unforged (c, ?hs, {}, ?t6) (c, ?hs(0 := (h, Some d)), {}, ?t7)"
    by (rule conjI [OF race_step.enter quiet]) simp_all
  have "?t7 = ?t0" by auto
  then have "(mem_unforged ^^ 7) (race_start ?e) (c, ?hs(0 := (h, Some d)), {}, ?t0)"
    using s1 s2 s3 s4 s5 s6 s7 by (auto simp: numeral_eq_Suc intro!: relcomppI simp del: fun_upd_apply)
  with z p(10-12) show ?thesis by blast
qed

text \<open>Then a record is put by one goroutine while another rotates the KEK of the same handle to the
  second reference, and a third unlocks another handle with the new KEK.\<close>

lemma sample_two_keys:
  "\<exists>b hs h d. (mem_unforged ^^ 14) (race_start (Some [])) (b, hs, {}, \<lambda>_. Resting) \<and>
     b \<noteq> None \<and> pebble_hdr map_of b = Some h \<and> hdr_Revision h = 2 \<and> hdr_KEK h = other_ref \<and>
     pebble_envs map_of b ''mail'' \<noteq> None \<and> snd (hs 0) = Some d \<and> snd (hs 1) = Some d"
proof -
  obtain b h d where r: "(mem_unforged ^^ 7) (race_start (Some []))
      (b, (\<lambda>_. (zero_header, None))(0 := (h, Some d)), {}, \<lambda>_. Resting)"
    and b: "pebble_good map_of b" "b \<noteq> None" "pebble_hdr map_of b = Some h" "pebble_envs map_of b = Map.empty"
    and h: "valid_header h" "hdr_Revision h = 1" "length d = KeySize"
    using sample_initialize_race by blast
  let ?hs = "(\<lambda>_ :: nat. (zero_header, None))(0 := (h, Some d))" let ?s = "attach b (?hs 0)"
  obtain e where e: "put_seal plain_guard xchacha20poly1305 zero_rng background sample_record ?s = Inr (''mail'', e)"
    using pg.put_seal_live [of sample_record ?s d zero_rng] h(3) by auto
  obtain h2 where h2: "rotate_header plain_guard xchacha20poly1305 zero_rng other_ref (Some other_key) ?s h = Inr h2"
    using pg.rotate_header_live [of h ?s d other_key zero_rng other_ref] h by auto
  obtain K where K: "valid_header h2" "hdr_Revision h2 = 2" "hdr_KEK h2 = other_ref" "wraps xchacha20poly1305 other_key d h2"
    using pg.rotate_header_Inr [OF h2] h(2) by auto
  obtain c where c: "be_PutEnvelope mem_ops background ''mail'' e b = (None, c)" "c \<noteq> None"
    using live_backend.putenv_live [OF mem_live_backend b(1,2), of "''mail''" e] b(4) by auto
  have c': "pebble_good map_of c" "pebble_hdr map_of c = Some h" "pebble_envs map_of c ''mail'' \<noteq> None"
    using envelope_backend.putenv_ok [OF mem_backend b(1) c(1)] b(3) by auto
  obtain f where f: "be_CompareAndSwapHeader mem_ops background (hdr_Revision h) h2 c = (None, f)" "f \<noteq> None"
    using live_backend.cas_live [OF mem_live_backend c'(1) c(2), of "hdr_Revision h" h2] c'(2) by auto
  have "kept_header_json h2 = h2"
    using envelope_backend.kept_clean [OF mem_backend] clean_valid_header [OF K(1)] K(3)
    by (simp add: other_ref_def sample_ref_def)
  then have f': "pebble_good map_of f" "pebble_hdr map_of f = Some h2" "pebble_envs map_of f ''mail'' \<noteq> None"
    using envelope_backend.cas_ok [OF mem_backend c'(1) f(1)] c'(3) K(1) by auto
  have lf: "be_LoadHeader mem_ops background f = Inr h2" and lb: "be_LoadHeader mem_ops background b = Inr h"
    using live_backend.load_live [OF mem_live_backend f'(1) f(2) f'(2)] live_backend.load_live [OF mem_live_backend b(1-3)] by auto
  obtain d2 where u: "unlock_open plain_guard xchacha20poly1305 (Some other_key) h2 = Inr (Some d2)" "d2 = d"
    using pg.unlock_open_live [OF K(1,4)] h(3) by auto
  let ?t0 = "\<lambda>_ :: nat. Resting" let ?t1 = "?t0(1 := Putting 0 background ''mail'' e)"
  let ?t2 = "?t1(0 := Holding 0 zero_rng background other_ref (Some other_key))"
  let ?t3 = "?t2(0 := Rotating 0 background (hdr_Revision h) h2)" let ?t4 = "?t3(1 := Resting)"
  let ?t5 = "?t4(0 := Resting)" let ?t6 = "?t5(1 := Entering 1 h2 (Some d))" let ?t7 = "?t6(1 := Resting)"
  let ?hs5 = "?hs(0 := (h2, Some d))" let ?hs7 = "?hs5(1 := (h2, Some d))"
  note quiet = not_forged [where content = "\<lambda>e. e"]
  have s1: "mem_unforged (b, ?hs, {}, ?t0) (b, ?hs, {}, ?t1)"
    by (rule conjI [OF race_step.put_begin [where i = 0 and g = zero_rng and r = sample_record] quiet])
      (use e in simp_all)
  have s2: "mem_unforged (b, ?hs, {}, ?t1) (b, ?hs, {0}, ?t2)"
    by (rule conjI [OF race_step.rotate_begin [OF _ _ sample_ready(2,5)] quiet]) simp_all
  have s3: "mem_unforged (b, ?hs, {0}, ?t2) (b, ?hs, {0}, ?t3)"
    by (rule conjI [OF race_step.rotate_load [where g = zero_rng and ref = other_ref and kek = "Some other_key"] quiet])
      (use lb h2 in simp_all)
  have s4: "mem_unforged (b, ?hs, {0}, ?t3) (c, ?hs, {0}, ?t4)"
    by (rule conjI [OF race_step.put_end [where a = "''mail''" and i = 0 and c = background and e = e and y = None] quiet])
      (use c(1) in simp_all)
  have s5: "mem_unforged (c, ?hs, {0}, ?t4) (f, ?hs5, {}, ?t5)"
    using race_step.rotate_end [of ?t4 0 0 background "hdr_Revision h" h2 mem_ops c None f plain_guard
        xchacha20poly1305 "\<lambda>e. e" sample_kek ?hs "{0}"] f(1) quiet [of ?t4 0] by simp
  have s6: "mem_unforged (f, ?hs5, {}, ?t5) (f, ?hs5, {}, ?t6)"
    by (rule conjI [OF race_step.unlock_load [OF _ sample_ready(3), of ?t5 1] quiet]) (use lf u K(3,4) in auto)
  have s7: "mem_unforged (f, ?hs5, {}, ?t6) (f, ?hs7, {}, ?t7)"
    by (rule conjI [OF race_step.enter quiet]) simp_all
  have "?t7 = ?t0" by auto
  then have "(mem_unforged ^^ 7) (b, ?hs, {}, ?t0) (f, ?hs7, {}, ?t0)"
    using s1 s2 s3 s4 s5 s6 s7 by (auto simp: numeral_eq_Suc intro!: relcomppI simp del: fun_upd_apply)
  with r have "(mem_unforged ^^ (7 + 7)) (race_start (Some [])) (f, ?hs7, {}, ?t0)"
    unfolding relpowp_add by blast
  then show ?thesis
    using f(2) f'(2,3) K(2,3) by (intro exI [of _ f] exI [of _ ?hs7] exI [of _ h2] exI [of _ d]) simp
qed

theorem vault_race_invariant_witness:
  "\<exists>b hs h d. (mem_unforged ^^ 14) (race_start (Some [])) (b, hs, {}, \<lambda>_. Resting) \<and>
     pebble_hdr map_of b = Some h \<and> hdr_KEK h = other_ref \<and> hdr_Revision h = 2 \<and>
     wraps xchacha20poly1305 other_key d h \<and> snd (hs 0) = Some d \<and> snd (hs 1) = Some d \<and>
     (\<exists>e. pebble_envs map_of b ''mail'' = Some e \<and> honest xchacha20poly1305 d (hdr_StoreID h) ''mail'' e)"
proof -
  obtain b hs h d where r: "(mem_unforged ^^ 14) (race_start (Some [])) (b, hs, {}, \<lambda>_. Resting)"
      "pebble_hdr map_of b = Some h" "hdr_Revision h = 2" "hdr_KEK h = other_ref"
      "pebble_envs map_of b ''mail'' \<noteq> None" "snd (hs 0) = Some d" "snd (hs 1) = Some d"
    using sample_two_keys by blast
  from vault_race_invariant [OF me.enc_over_axioms _ _ _ _ r(1)] r(2)
  obtain K where K: "wraps xchacha20poly1305 (sample_kek (hdr_KEK h)) K h"
      "\<And>i d. snd (hs i) = Some d \<Longrightarrow> d = K"
      "\<And>a e. pebble_envs map_of b a = Some e \<Longrightarrow> honest xchacha20poly1305 K (hdr_StoreID h) a e"
    by auto
  with r show ?thesis by fastforce
qed

theorem vault_race_never_lost_witness:
  "\<exists>b hs h s r. (mem_unforged ^^ 14) (race_start (Some [])) (b, hs, {}, \<lambda>_. Resting) \<and>
     pebble_hdr map_of b = Some h \<and> hdr_KEK h = other_ref \<and>
     enc_Unlock mem_ops plain_guard xchacha20poly1305 background (Some other_key)
       (attach b (zero_header, None)) = (None, s) \<and>
     enc_Get mem_ops plain_guard xchacha20poly1305 background ''mail'' s = Inr r"
proof -
  obtain b hs h where r: "(mem_unforged ^^ 14) (race_start (Some [])) (b, hs, {}, \<lambda>_. Resting)" "b \<noteq> None"
      "pebble_hdr map_of b = Some h" "hdr_KEK h = other_ref" "pebble_envs map_of b ''mail'' \<noteq> None"
    using sample_two_keys by blast
  from vault_race_never_lost [OF me.enc_over_axioms me.enc_live_axioms _ _ _ _ r(1-3), of other_key
      "(zero_header, None)"] r(4,5)
  obtain s where "enc_Unlock mem_ops plain_guard xchacha20poly1305 background (Some other_key)
      (attach b (zero_header, None)) = (None, s)"
    "\<And>a. pebble_envs map_of b (trim_space a) \<noteq> None \<Longrightarrow>
       \<exists>r. enc_Get mem_ops plain_guard xchacha20poly1305 background a s = Inr r" by force
  moreover from this(2) [of "''mail''"] r(5)
  obtain x where "enc_Get mem_ops plain_guard xchacha20poly1305 background ''mail'' s = Inr x" by auto
  ultimately show ?thesis using r(1,3,4) by blast
qed

end
