(* ===== verification/Spec2Isabelle.thy ===== *)
theory Spec2Isabelle
  imports Sqlite_Properties Windows_Properties Command_Properties Go_Json_Fuel
    Pebble_Threads Sqlite_Threads Create_Race Vault_Threads
begin

text \<open>
  Derived secrets from FIDO2 authenticators: a verification development for the Go program
  \<open>hmacsecret\<close>. The names of files are those of the repository, the names of definitions those of
  the code where Isabelle allows them, with a prefix where packages share a name (\<open>enc_Put\<close>,
  \<open>pebble_Put\<close>, \<open>sqlite_Put\<close>, \<open>secrets_Create\<close>, \<open>win_Derive\<close>).

  \<^bold>\<open>The program.\<close> An authenticator derives a secret of 32 bytes from a credential and a salt
  (\<open>lib/hmacsecret\<close>: \<open>CreateCredential\<close> and \<open>Derive\<close>, through libfido2 or through \<open>webauthn.dll\<close>,
  whose binding is \<open>internal/webauthn\<close>). The alias API (\<open>pkg/secrets\<close>) names such secrets: it
  keeps credential ID, salt and RP ID under an alias in a store and asks for a device and a PIN
  when it needs the authenticator. A store (the interface of \<open>lib/store\<close>) is a Pebble or a SQLite
  database of plain records (\<open>pkg/store/pebble\<close>, \<open>pkg/store/sqlite\<close>) or the encrypted store
  (\<open>pkg/store/encrypted\<close>), which keeps a header with its wrapped data key (DEK) and one sealed
  envelope for each record in an \<open>EnvelopeBackend\<close>, again Pebble or SQLite. Two commands,
  \<open>cmd/hmac-secret\<close> and \<open>cmd/secrets\<close>, put these parts together.

  \<^bold>\<open>How it is modelled.\<close> A method is a function from its arguments and the state of its object to
  its results and the new state; an error is a value (\<open>go_error\<close>: sentinels, errors that wrap
  others, errors of other packages, nil dereferences), so that every return of the code is a branch
  of the model. Go strings and byte slices are lists of characters and of 8-bit words, machine
  integers are words. A context is the sequence of the answers of \<open>ctx.Err\<close>, the random source the
  sequence of its reads. Everything outside (devices, user, terminal, system) is one value \<open>'w\<close>
  that calls thread. Concurrency is modelled by step relations over the parts of the methods.

  \<^bold>\<open>Theories, by part of the program.\<close>
  \<^item> Go's vocabulary: \<open>Go_Prelude\<close> (errors, contexts, random bytes, \<open>TrimSpace\<close>), \<open>Go_Encoding\<close>
    (decimal, base64, hexadecimal), \<open>Go_Json\<close>, \<open>Go_Json_Doc\<close>, \<open>Go_Json_Fuel\<close> (\<open>encoding/json\<close> at
    the level of bytes), \<open>Go_Flag\<close> (package \<open>flag\<close>).
  \<^item> \<open>lib/store\<close>: \<open>Store\<close> has the records, headers and envelopes, their validation, and the two
    interfaces with their contracts as locales: \<open>store_contract\<close> and \<open>live_store\<close> for \<open>Store\<close>,
    \<open>envelope_backend\<close> and \<open>live_backend\<close> for \<open>EnvelopeBackend\<close>. The first of each pair says what an
    answer means, the second that a database that is up answers. \<open>Store_Json\<close> has the structs as JSON.
  \<^item> \<open>pkg/store/pebble\<close>: \<open>Pebble_Store\<close> has every method; \<open>Pebble_Contract\<close>, \<open>Pebble_Backend\<close> and
    \<open>Pebble_Plain\<close> prove both contracts over the laws \<open>pebble_db\<close> of a database, with an
    implementation in memory; \<open>Pebble_Threads\<close> has the methods as programs of single calls of the
    database under the mutex, and their interleavings.
  \<^item> \<open>pkg/store/sqlite\<close>: \<open>Sqlite_Store\<close> has every method as the statements that it executes;
    \<open>Sqlite_Contract\<close>, \<open>Sqlite_Backend\<close> and \<open>Sqlite_Memory\<close> are the same over the laws \<open>sqlite_db\<close>.
    \<open>Reference_Map\<close> computes the answers of both backends from the alias map. \<open>Sqlite_Threads\<close> has
    the compare-and-swap of two statements among the statements of others.
  \<^item> \<open>pkg/store/encrypted\<close>: \<open>Envelope_Codec\<close> (wire formats, additional data, format checks),
    \<open>Sealing\<close> (enclaves and the cipher), \<open>Encrypted_Store\<close> (every method), \<open>Encrypted_Contract\<close>
    and \<open>Encrypted_Vault\<close> (the store refines the alias map), \<open>Encrypted_Lifecycle\<close> (Initialize,
    Unlock, RotateKEK, Lock, Close), \<open>Vault_Handles\<close> (what is true of a vault that handles
    share), \<open>Vault_Threads\<close> (calls on them that overlap). \<open>XChaCha20_Poly1305\<close> implements the cipher, so
    that its laws are known to hold of something.
  \<^item> \<open>lib/hmacsecret\<close>: \<open>Hmac_Types\<close> (data, salts, client data), \<open>Device\<close> (libfido2, both
    platforms), \<open>Windows_Device\<close> (the WebAuthn broker, and the build without a backend).
    \<open>internal/webauthn\<close>: \<open>Webauthn\<close>, with the memory of the system's results explicit.
  \<^item> \<open>pkg/secrets\<close> with \<open>lib/secrets\<close>: \<open>Secrets_Service\<close> (the operations), \<open>Secrets_Api\<close> (their
    course, and the contracts \<open>alias_api\<close> and \<open>prf_authenticator\<close>), \<open>Create_Race\<close> (\<open>Create\<close> calls
    of several services that overlap).
  \<^item> \<open>pkg/device/cli\<close>, \<open>pkg/pin/cli\<close>, \<open>pkg/pin/windows\<close>, \<open>lib/hmacsecret/pin.go\<close>: \<open>Terminal\<close>.
    \<open>cmd/hmac-secret\<close> and \<open>cmd/secrets\<close>: \<open>Commands\<close>, from the command line to output and exit status.

  \<^bold>\<open>What is proved.\<close> The properties C1 to C40 are in the theories \<open>*_Properties\<close>, \<open>Envelope_Codec\<close>,
  \<open>Pebble_Threads\<close>, \<open>Sqlite_Threads\<close>, \<open>Create_Race\<close>, \<open>Vault_Threads\<close> and here.
  \<^item> Secrets come back: what \<open>Create\<close> returned is what \<open>Derive\<close> returns (C1), also after the vault was
    locked and unlocked by another handle (C3), after a \<open>Create\<close> that failed half-way (C19), across
    the backends for authenticators (C21), and from the commands (C24, C25).
  \<^item> Stores are alias maps: the refinements C4 to C6 and C10, the equivalence C7, and single operations
    (C9, C12, C18, C20, and C40 for the record that \<open>Create\<close> puts).
  \<^item> The vault is authentic and is never lost: C2, C8, C13, C14, C17, C30, over the wire formats
    (C26 to C28). C2 and C8 hold for all overlaps of calls on all handles, with any number of KEKs,
    in the runs where no \<open>Unlock\<close> with another KEK opens the header to another DEK.
  \<^item> Concurrency: the Pebble methods are linearizable (C15), overlapping \<open>Create\<close> calls never share
    an alias nor lose a record (C16), of overlapping swaps of one revision on SQLite one wins (C11).
  \<^item> Windows: every result of the system is freed, and nothing that is not allocated (C23), the
    secret is the system's, read before its result is freed (C22), failures keep their class (C39).
  \<^item> Discovery and terminal (C32, C37), bounds (C29), termination of output (C33, with writes that
    fail half-way).
  \<^item> Where the code does not do what it should: C31, C34, C35, C36, C38, and the lemmas
    \<open>late_unlock_conflict\<close>, \<open>cas_not_atomic\<close> and \<open>default_path_untrimmed\<close>.

  Theorems without a number are kept as part of the library (for instance \<open>initialize_then_unlock\<close>).

  \<^bold>\<open>Bounds and fuel.\<close> \<open>json_parse\<close> runs on the length of its text, which is enough for every text
  (\<open>Go_Json_Fuel\<close>). Every other loop is a recursion with a measure. C2 and C8 hold for \<open>2^64 - 1\<close>
  steps, because the revision of the header is a 64-bit word that wraps. In the wire
  formats the format version is a 16-bit word and the length of a field a 32-bit word
  (\<open>appendLengthPrefixed\<close>). Credential IDs and RP IDs of more than \<open>maxPayloadField\<close> bytes are
  refused by \<open>encodeRecord\<close> (\<open>fits\<close>), fields of more than that by \<open>decodeRecord\<close>.

  \<^bold>\<open>Parameters.\<close> libfido2 and its vendored binding, \<open>webauthn.dll\<close>, memguard, the cipher of
  \<open>golang.org/x/crypto\<close>, Pebble, the SQLite driver, the console and the random source are arguments
  of the definitions. What is used of them are the assumptions of the locales \<open>fido_prf\<close>,
  \<open>webauthn_resources\<close>, \<open>webauthn_prf\<close>, \<open>memguard_api\<close>, \<open>xchacha\<close>, \<open>pebble_db\<close>, \<open>sqlite_db\<close>,
  \<open>prf_authenticator\<close>. These hold of something: each locale is interpreted, with the cipher on
  \<open>XChaCha20_Poly1305\<close> as its specification has it, and with the others on small models, which keep
  data in memory and answer as documented, not on the libraries themselves (\<open>mem_pebble\<close>, \<open>mem_sqlite\<close>,
  \<open>plain_guard\<close>, \<open>sample_fido\<close>, \<open>sample_wa\<close>). The contracts between the program's own parts are
  interpreted, or shown by \<open>sublocale\<close>, on its definitions. The cipher is assumed to open what it sealed
  and nothing else under the same key; confidentiality is not a subject. It is not assumed to commit to its
  key, which it does not: two keys may open one text to two results. \<open>Vault_Threads\<close> therefore
  observes an \<open>Unlock\<close> to which this happens (\<open>forged_unlock\<close>) and speaks of the runs without it.

  \<^bold>\<open>Not modelled.\<close> The vendored binding \<open>third_party/go-libfido2\<close> (cgo, a library that the sources
  only call); signals (\<open>memguard.CatchInterrupt\<close>) and the wiping of memory, which have no effect on
  results; the help text of the commands; the nesting limit of \<open>encoding/json\<close>; the texts of errors
  of Go's packages (an error of another package is \<open>Foreign\<close> with its text); \<open>Close\<close> of a store
  while calls on it are under way.

  \<^bold>\<open>Next.\<close> \<open>Close\<close> under concurrency, \<open>Delete\<close> among the overlapping operations of \<open>Create_Race\<close>,
  the nesting limit of \<open>encoding/json\<close>.
\<close>

section \<open>Secrets kept in a vault\<close>

lemma vault_alias_api:
  assumes "enc_vault B hdr envs kept kept_blob good M content A K" "service_ok x"
    "sx_store x = enc_ops B M A g"
  shows "alias_api x (map_of_store envs A K sid) norm_record (vault_ok good envs content A K sid)"
  using enc_vault.contract [OF assms(1), of g sid] assms(2,3)
  by (simp add: alias_api_def alias_api_axioms_def)

text \<open>C3: A secret outlives the vault that keeps it: when \<open>Create\<close> has returned a secret over an
  encrypted store, and the vault is unlocked again by another handle with the KEK that wraps its
  DEK, every secret that \<open>Derive\<close> returns there for the alias is the same, whichever device is
  chosen, on every backend.\<close>

theorem create_survives_unlock:
  assumes "enc_vault B hdr envs kept kept_blob good M content A K"
    and "prf_authenticator U opened hmac" "pin_given x" "service_ok x" "sx_store x = enc_ops B M A g"
    and "vault_ok good envs content A K sid s" "valid_utf8 (sx_rpID x)"
    and "secrets_Create x U r c a (s, w) = (Inr v, (s', w'))"
    and "es_backend (fst s') = Some b" "hdr b = Some h" "hdr_StoreID h = sid" "wraps A (content k) K h"
    and "enc_Unlock B M A c1 (Some k) (attach b y) = (None, t)"
    and "secrets_Derive x U c2 a ((t, j), w1) = (Inr v', (t', w2))"
  shows "v' \<noteq> None \<and> map_option opened v' = map_option opened v"
proof -
  let ?ok = "vault_ok good envs content A K sid" and ?recs = "map_of_store envs A K sid"
  have ov: "enc_over B hdr envs kept kept_blob good M content A" and xc: "xchacha A"
    using assms(1) by (auto simp: enc_vault_def enc_over_def sealing_def)
  note api = vault_alias_api [OF assms(1,4,5), of sid]
  have ok: "?ok s'" using alias_api.create_step [OF api assms(6,8)] by blast
  then have g: "good b" using assms(9) by (simp add: vault_ok_def)
  obtain k' d where u: "hdr b = Some h" "valid_header h" "Some k = Some k'" "length (content k) = KeySize"
      "wraps A (content k) (content d) h" "t = attach b y\<lparr>es_header := h, es_dek := Some d\<rparr>"
    using enc_over.unlock_ok [OF ov assms(13) attach_sel(1) g] assms(10) by auto
  have "length (blob_Nonce (hdr_WrappedDEK h)) = NonceSizeX"
    using u(2) by (simp add: valid_header_def valid_blob_def)
  then have "content d = K"
    using xchacha.open_seal [OF xc u(4), of "blob_Nonce (hdr_WrappedDEK h)"] u(5) assms(12)
    unfolding wraps_def sealed_def by (metis encrypted_blob.select_convs(4) option.inject)
  then have "?ok (t, j)" using ok u(6) assms(9,11) by (auto simp: vault_ok_def)
  moreover have "?recs (t, j) = ?recs s'" using u(6) assms(9) by (simp add: map_of_store_def)
  ultimately show ?thesis
    using derived_again [OF api assms(2,3,6,7,8) _ _ refl assms(14)] by simp
qed

text \<open>A vault in memory on Pebble, made with zeros as random bytes and the sample KEK.\<close>

abbreviation vault_ops where
  "vault_ops \<equiv> enc_ops mem_ops plain_guard xchacha20poly1305 zero_rng"

abbreviation sample_ok where
  "sample_ok \<equiv> vault_ok (pebble_good map_of) (pebble_envs map_of) (\<lambda>e. e) xchacha20poly1305
     sample_key sample_sid"

abbreviation sample_recs where
  "sample_recs \<equiv> map_of_store (pebble_envs map_of) xchacha20poly1305 sample_key sample_sid"

lemma sample_vault:
  "\<exists>s b h. es_backend s = Some b \<and> sample_ok (s, 0) \<and> vault_up mem_up (s, 0) \<and>
     sample_recs (s, 0) = Map.empty \<and> pebble_hdr map_of b = Some h \<and> hdr_StoreID h = sample_sid \<and>
     valid_header h \<and> wraps xchacha20poly1305 sample_key sample_key h"
proof -
  obtain s b where i: "enc_Initialize mem_ops plain_guard xchacha20poly1305 zero_rng background
      sample_ref (Some sample_key) fresh_store = (None, s)" "es_backend s = Some b" "b \<noteq> None"
    using sample_initialize by blast
  obtain d h where k: "pebble_good map_of b" "pebble_envs map_of b = Map.empty"
      "pebble_hdr map_of b = Some (kept_header_json h)" "es_header s = h" "es_dek s = Some d"
      "valid_header h" "hdr_KEK h = sample_ref"
      "rand_Read zero_rng 0 storeIDSize = Inr (hdr_StoreID h)" "rand_Read zero_rng 1 KeySize = Inr d"
      "wraps xchacha20poly1305 sample_key d h"
    using me.initialize_ok [OF i(1), of "Some []"] i(2) by (auto simp: fresh_store_def)
  have z: "d = sample_key" "hdr_StoreID h = sample_sid"
    using k(8,9) by (simp_all add: rand_Read_def zero_rng_def map_replicate_const sample_key_def
        sample_sid_def KeySize_def storeIDSize_def)
  have "kept_header_json h = h"
    using envelope_backend.kept_clean [OF mem_backend] clean_valid_header [OF k(6)] k(7) sample_ref_utf8 by simp
  then show ?thesis
    using i k z
    by (intro exI [of _ s] exI [of _ b] exI [of _ h])
      (auto simp: vault_ok_def vault_up_def map_of_store_def vault_recs_def fun_eq_iff)
qed

lemma vault_create:
  assumes "es_backend s = Some b" "sample_ok (s, 0)" "vault_up mem_up (s, 0)" "sample_recs (s, 0) = Map.empty"
  shows "\<exists>s' b'. secrets_Create (sample_service vault_ops) sample_authenticator zero_rng background ''mail''
     ((s, 0), 7) = (Inr (Some (7 # sample_salt)), (s', 8)) \<and> es_backend (fst s') = Some b' \<and>
     pebble_hdr map_of b' = pebble_hdr map_of b \<and> sample_ok s' \<and> vault_up mem_up s'"
proof -
  let ?c = "\<lparr>cr_ID = [7], cr_RPID = ''example.org'', cr_PubKey = []\<rparr> :: credential"
  let ?r = "new_record (sample_service vault_ops) ''mail'' ?c sample_salt"
  have r: "norm_record ?r = ?r" "valid_record ?r" "vault_takes ?r"
    by (simp_all add: norm_record_def new_record_def sample_salt_def valid_record_def SaltSize_def
        vault_takes_def fits_def maxPayloadField_def)
  obtain t where t: "st_Put vault_ops background ?r (s, 0) = (None, t)" "vault_up mem_up t"
    using live_store.put_live [OF mv.live_contract assms(2,3), of ?r] assms(4) r by auto
  obtain y where "st_Has vault_ops background ''mail'' (s, 0) = Inr y"
    using live_store.has_live [OF mv.live_contract assms(2,3), of "''mail''"] by auto
  moreover from this have "\<not> y"
    using store_contract.has_ok [OF mv.contract assms(2)] assms(4) by fastforce
  ultimately have h: "st_Has vault_ops background ''mail'' (s, 0) = Inr False" by simp
  have cr: "secrets_Create (sample_service vault_ops) sample_authenticator zero_rng background ''mail''
      ((s, 0), 7) = (Inr (Some (7 # sample_salt)), (t, 8))"
    using create_runs [OF sample_rand, of "''mail''" "sample_service vault_ops" background
        "(s, 0)" 7 "()" "''1234''" 7 sample_authenticator ?c 8 None t] h t(1)
    by (auto simp: create_put_def sample_authenticator_def create_request_def derive_request_def
        new_record_def reported_def)
  obtain u where u: "enc_Put mem_ops plain_guard xchacha20poly1305 (rng_from zero_rng 0) background ?r s = (None, u)"
      "t = (u, 1)" using t(1) by (auto simp: enc_ops_def split: prod.splits)
  from sealing.put_cases [OF plain_sealing u(1)] assms(1) obtain e b' where
      p: "be_PutEnvelope mem_ops (later background) ''mail'' e b = (None, b')" "es_backend u = Some b'"
    by (auto simp: new_record_def)
  have "pebble_good map_of b" using assms(1,2) by (simp add: vault_ok_def)
  with envelope_backend.putenv_ok [OF mem_backend] p(1) have "pebble_hdr map_of b' = pebble_hdr map_of b" by blast
  then show ?thesis
    using cr t(2) p(2) u(2) store_contract.put_inv [OF mv.contract assms(2) t(1)] by auto
qed

theorem create_survives_unlock_witness:
  "\<exists>s s' b t v'. secrets_Create (sample_service vault_ops) sample_authenticator zero_rng background ''mail''
       ((s, 0), 7) = (Inr (Some (7 # sample_salt)), (s', 8)) \<and> es_backend (fst s') = Some b \<and>
     enc_Unlock mem_ops plain_guard xchacha20poly1305 background (Some sample_key)
       (attach b (zero_header, None)) = (None, t) \<and>
     secrets_Derive (sample_service vault_ops) sample_authenticator background ''mail'' ((t, 3), 20)
       = (Inr v', ((t, 3), 20)) \<and> v' = Some (7 # sample_salt)"
proof -
  obtain s b h where v: "es_backend s = Some b" "sample_ok (s, 0)" "vault_up mem_up (s, 0)"
      "sample_recs (s, 0) = Map.empty" "pebble_hdr map_of b = Some h" "hdr_StoreID h = sample_sid"
      "valid_header h" "wraps xchacha20poly1305 sample_key sample_key h"
    using sample_vault by blast
  obtain s' b' where c: "secrets_Create (sample_service vault_ops) sample_authenticator zero_rng
      background ''mail'' ((s, 0), 7) = (Inr (Some (7 # sample_salt)), (s', 8))"
      "es_backend (fst s') = Some b'" "pebble_hdr map_of b' = Some h" "sample_ok s'" "vault_up mem_up s'"
    using vault_create [OF v(1-4)] v(5) by auto
  let ?x = "(zero_header, None) :: bytes handle"
  have b': "pebble_good map_of b'" "mem_up b'" using c(2,4,5) by (auto simp: vault_ok_def vault_up_def)
  obtain t where t: "enc_Unlock mem_ops plain_guard xchacha20poly1305 background (Some sample_key)
      (attach b' ?x) = (None, t)" "t = attach b' ?x\<lparr>es_header := h, es_dek := Some sample_key\<rparr>"
    using me.unlock_live [OF attach_sel(1) b' c(3) v(7,8)] by auto
  have ok: "sample_ok (t, 3)" "vault_up mem_up (t, 3)" "sample_recs (t, 3) = sample_recs s'"
    using c(2,4,5) t(2) v(6) by (auto simp: vault_ok_def vault_up_def map_of_store_def)
  have api: "alias_api (sample_service vault_ops) sample_recs norm_record sample_ok"
    by (rule vault_alias_api [OF mv.enc_vault_axioms]) simp_all
  obtain r where r: "sample_recs s' ''mail'' = Some r"
    using alias_api.create_returns_map [OF api v(2) c(1)] by auto
  then have "st_Get vault_ops background ''mail'' (t, 3) = Inr r"
    using live_store.get_live [OF mv.live_contract ok(1,2), of "''mail''"] ok(3) by simp
  then obtain v' where d: "secrets_Derive (sample_service vault_ops) sample_authenticator background
      ''mail'' ((t, 3), 20) = (Inr v', ((t, 3), 20))"
    using derive_runs [of "''mail''" "sample_service vault_ops" background "(t, 3)" r 20 "()" "''1234''"
        20 sample_authenticator]
    by (auto simp: sample_authenticator_def reported_def)
  from create_survives_unlock [OF mv.enc_vault_axioms sa.prf_authenticator_axioms sample_pin _ _ v(2) _
      c(1,2,3) v(6) _ t(1) d] v(8) have "v' = Some (7 # sample_salt)"
    by (auto simp: option.map_ident)
  with c(1,2) t(1) d show ?thesis by blast
qed

end
